theory Spec2Isabelle
  imports Complex_Main
begin

section \<open>Time, randomness and identifiers\<close>

text \<open>
  A naive \<open>datetime\<close> is the number of microseconds since midnight of day 0, a \<open>date\<close> is a
  day number, and a \<open>timedelta\<close> is a (signed) number of microseconds.  The calendar is not
  bounded (Python's is, by the years 1 and 9999).
\<close>

type_synonym datetime = int
type_synonym date = int
type_synonym timedelta = int

datatype error = ZeroDivisionError | IndexError | ValueError | KeyError

definition us_per_second :: int where "us_per_second = 1000000"
definition us_per_minute :: int where "us_per_minute = 60000000"
definition us_per_hour :: int where "us_per_hour = 3600000000"
definition us_per_day :: int where "us_per_day = 86400000000"

definition seconds :: "int \<Rightarrow> timedelta" where "seconds n = n * us_per_second"
definition minutes :: "int \<Rightarrow> timedelta" where "minutes n = n * us_per_minute"
definition hours :: "int \<Rightarrow> timedelta" where "hours n = n * us_per_hour"
definition days :: "int \<Rightarrow> timedelta" where "days n = n * us_per_day"

text \<open>\<open>td.days\<close>: a timedelta is normalised with a floored day count.\<close>
definition td_days :: "timedelta \<Rightarrow> int" where
  "td_days d = d div us_per_day"

text \<open>\<open>int(td.total_seconds())\<close> for a non-negative timedelta, computed exactly.\<close>
definition td_int_seconds :: "timedelta \<Rightarrow> int" where
  "td_int_seconds d = d div us_per_second"

text \<open>\<open>dt.date()\<close>\<close>
definition date_of :: "datetime \<Rightarrow> date" where
  "date_of t = t div us_per_day"

text \<open>\<open>datetime.combine(d, datetime.min.time())\<close>\<close>
definition combine_min :: "date \<Rightarrow> datetime" where
  "combine_min d = d * us_per_day"

text \<open>\<open>dt.replace(hour=h, minute=m, second=0, microsecond=0)\<close>, for \<open>h\<close> in 0..23 and
  \<open>m\<close> in 0..59 (all call sites draw them from such ranges).\<close>
definition replace_hm :: "datetime \<Rightarrow> int \<Rightarrow> int \<Rightarrow> datetime" where
  "replace_hm t h m = combine_min (date_of t) + hours h + minutes m"

text \<open>
  The outside world of a generation run: the raw output of the \<open>random\<close> module, the
  identifiers that \<open>uuid.uuid4()\<close> will return, and the wall clock, which moves forward by
  the next tick each time it is read.
\<close>

record world =
  entropy :: "nat list"
  uuids :: "string list"
  clock :: datetime
  ticks :: "nat list"

definition draw :: "world \<Rightarrow> nat \<times> world" where
  "draw w = (case entropy w of [] \<Rightarrow> (0, w) | r # rs \<Rightarrow> (r, w\<lparr>entropy := rs\<rparr>))"

definition uuid4 :: "world \<Rightarrow> string \<times> world" where
  "uuid4 w = (case uuids w of [] \<Rightarrow> ([], w) | u # us \<Rightarrow> (u, w\<lparr>uuids := us\<rparr>))"

definition utcnow :: "world \<Rightarrow> datetime \<times> world" where
  "utcnow w = (case ticks w of [] \<Rightarrow> (clock w, w)
               | d # ds \<Rightarrow> (clock w + int d, w\<lparr>clock := clock w + int d, ticks := ds\<rparr>))"

text \<open>\<open>random.randint(a, b)\<close> for \<open>a \<le> b\<close>; Python raises ValueError otherwise, which the
  callers whose bounds depend on data check before they call.\<close>
definition randint :: "int \<Rightarrow> int \<Rightarrow> world \<Rightarrow> int \<times> world" where
  "randint a b w = (let (r, w') = draw w in (a + int r mod (b - a + 1), w'))"

text \<open>\<open>random.random()\<close>: a multiple of \<open>2^-53\<close> in \<open>[0, 1)\<close>.\<close>
definition random_random :: "world \<Rightarrow> rat \<times> world" where
  "random_random w = (let (r, w') = draw w in (of_nat (r mod 2 ^ 53) / 2 ^ 53, w'))"

text \<open>\<open>random.choices(population, weights)[0]\<close>: the index is found by bisection of the
  cumulative weights at \<open>random() * total\<close>, over all entries but the last.\<close>
fun choices_index :: "rat list \<Rightarrow> rat \<Rightarrow> nat" where
  "choices_index [] x = 0"
| "choices_index [c] x = 0"
| "choices_index (c # cs) x = (if x < c then 0 else Suc (choices_index cs (x - c)))"

definition choices :: "'a list \<Rightarrow> rat list \<Rightarrow> world \<Rightarrow> 'a \<times> world" where
  "choices population weights w =
     (let (u, w') = random_random w
      in (population ! choices_index weights (u * sum_list weights), w'))"

text \<open>\<open>random.choice(seq)\<close>: IndexError on an empty sequence.\<close>
definition choice :: "'a list \<Rightarrow> world \<Rightarrow> error + ('a \<times> world)" where
  "choice xs w =
     (if xs = [] then Inl IndexError
      else let (r, w') = draw w in Inr (xs ! (r mod length xs), w'))"

text \<open>\<open>random.sample(population, k)\<close> for \<open>k \<le> len(population)\<close>: \<open>k\<close> elements at
  pairwise different positions, in selection order.\<close>
fun sample :: "'a list \<Rightarrow> nat \<Rightarrow> world \<Rightarrow> 'a list \<times> world" where
  "sample xs 0 w = ([], w)"
| "sample xs (Suc k) w =
     (if xs = [] then ([], w)
      else let (r, w1) = draw w;
               j = r mod length xs;
               (ys, w2) = sample (take j xs @ drop (Suc j) xs) k w1
           in (xs ! j # ys, w2))"

section \<open>Entities\<close>

record Project =
  project_id :: string
  organization_id :: string
  name :: string
  team_id :: "string option"
  description :: "string option"
  owner_id :: "string option"
  project_type :: string
  privacy :: string
  status :: string
  color :: "string option"
  start_date :: "date option"
  due_date :: "date option"
  completed_at :: "datetime option"
  created_at :: datetime

record Section =
  section_id :: string
  project_id :: string
  name :: string
  position :: int
  created_at :: datetime

section \<open>Section generator (generators/sections.py)\<close>

definition default_sections :: "string list" where
  "default_sections = [''To Do'', ''In Progress'', ''Done'']"

definition section_templates :: "(string \<times> string list) list" where
  "section_templates =
     [(''sprint'', [''Backlog'', ''In Progress'', ''Review'', ''Done'']),
      (''ongoing'', [''To Do'', ''In Progress'', ''Done'']),
      (''bug_tracking'', [''New'', ''Triaged'', ''In Progress'', ''Fixed'', ''Closed'']),
      (''campaign'', [''Planning'', ''Creative'', ''Execution'', ''Analysis'']),
      (''roadmap'', [''Now'', ''Next'', ''Later'', ''Parking Lot'']),
      (''default'', default_sections)]"

definition get_sections_for_project :: "string \<Rightarrow> string list" where
  "get_sections_for_project ptype =
     (case map_of section_templates ptype of Some ns \<Rightarrow> ns | None \<Rightarrow> default_sections)"

definition section_sample_created_at :: "datetime \<Rightarrow> world \<Rightarrow> datetime \<times> world" where
  "section_sample_created_at project_created_at w0 =
     (let (now, w1) = utcnow w0;
          (days_after, w2) = randint 0 2 w1;
          created_at = project_created_at + days days_after;
          created_at = (if created_at > now then project_created_at else created_at);
          (hour, w3) = randint 8 17 w2;
          created_at = replace_hm created_at hour 0;
          created_at = (if created_at < project_created_at then project_created_at else created_at)
      in if created_at > now
         then (let (h, w4) = randint 1 24 w3 in (now - hours h, w4))
         else (created_at, w3))"

text \<open>The inner loop, \<open>for position, section_name in enumerate(section_names)\<close>, from
  position \<open>pos\<close> on.\<close>
fun project_sections_from :: "Project \<Rightarrow> nat \<Rightarrow> string list \<Rightarrow> world \<Rightarrow> Section list \<times> world" where
  "project_sections_from p pos [] w = ([], w)"
| "project_sections_from p pos (section_name # rest) w =
     (let (created_at, w1) = section_sample_created_at (Project.created_at p) w;
          (sid, w2) = uuid4 w1;
          s = \<lparr>section_id = sid, Section.project_id = Project.project_id p,
               Section.name = section_name, position = int pos,
               Section.created_at = created_at\<rparr>;
          (more, w3) = project_sections_from p (Suc pos) rest w2
      in (s # more, w3))"

text \<open>The outer loop, \<open>for project in projects\<close>.\<close>
fun all_sections :: "Project list \<Rightarrow> world \<Rightarrow> Section list \<times> world" where
  "all_sections [] w = ([], w)"
| "all_sections (p # ps) w =
     (let (mine, w1) = project_sections_from p 0 (get_sections_for_project (project_type p)) w;
          (others, w2) = all_sections ps w1
      in (mine @ others, w2))"

text \<open>\<open>SectionGenerator.generate\<close>.  The average it prints divides by the number of keys
  of \<open>sections_per_project\<close>, the project ids that received a section.\<close>
definition section_generate :: "Project list \<Rightarrow> world \<Rightarrow> error + (Section list \<times> world)" where
  "section_generate projects w =
     (let (sections, w') = all_sections projects w
      in if length (remdups (map Section.project_id sections)) = 0 then Inl ZeroDivisionError
         else Inr (sections, w'))"

section \<open>Properties of the section generator\<close>

lemma project_sections_from_project_id:
  "s \<in> set (fst (project_sections_from p pos ns w)) \<Longrightarrow> Section.project_id s = Project.project_id p"
  by (induction ns arbitrary: pos w) (auto simp: Let_def case_prod_beta)

lemma project_sections_from_position:
  "map position (fst (project_sections_from p pos ns w)) = map int [pos..<pos + length ns]"
proof (induction ns arbitrary: pos w)
  case Nil
  then show ?case by simp
next
  case (Cons n ns)
  have "[pos..<pos + length (n # ns)] = pos # [Suc pos..<Suc pos + length ns]"
    by (simp add: upt_rec)
  with Cons show ?case
    by (simp add: Let_def case_prod_beta)
qed

lemma project_sections_from_name:
  "map Section.name (fst (project_sections_from p pos ns w)) = ns"
  by (induction ns arbitrary: pos w) (simp_all add: Let_def case_prod_beta)

lemma all_sections_project_id:
  "s \<in> set (fst (all_sections ps w)) \<Longrightarrow> \<exists>r \<in> set ps. Section.project_id s = Project.project_id r"
proof (induction ps arbitrary: w)
  case Nil
  then show ?case by simp
next
  case (Cons q ps)
  from Cons.prems have
    "s \<in> set (fst (project_sections_from q 0 (get_sections_for_project (project_type q)) w))
     \<or> s \<in> set (fst (all_sections ps (snd (project_sections_from q 0 (get_sections_for_project (project_type q)) w))))"
    by (simp add: Let_def case_prod_beta)
  then show ?case
  proof
    assume "s \<in> set (fst (project_sections_from q 0 (get_sections_for_project (project_type q)) w))"
    then show ?thesis using project_sections_from_project_id by fastforce
  next
    assume "s \<in> set (fst (all_sections ps (snd (project_sections_from q 0 (get_sections_for_project (project_type q)) w))))"
    then show ?thesis using Cons.IH by fastforce
  qed
qed

lemma all_sections_filter:
  "distinct (map Project.project_id ps) \<Longrightarrow> p \<in> set ps \<Longrightarrow>
   \<exists>w1. filter (\<lambda>s. Section.project_id s = Project.project_id p) (fst (all_sections ps w))
        = fst (project_sections_from p 0 (get_sections_for_project (project_type p)) w1)"
proof (induction ps arbitrary: w)
  case Nil
  then show ?case by simp
next
  case (Cons q ps)
  define mine where "mine = fst (project_sections_from q 0 (get_sections_for_project (project_type q)) w)"
  define w1 where "w1 = snd (project_sections_from q 0 (get_sections_for_project (project_type q)) w)"
  define others where "others = fst (all_sections ps w1)"
  have unfold: "fst (all_sections (q # ps) w) = mine @ others"
    by (simp add: Let_def case_prod_beta mine_def w1_def others_def)
  have mine_id: "\<forall>s \<in> set mine. Section.project_id s = Project.project_id q"
    unfolding mine_def using project_sections_from_project_id by blast
  show ?case
  proof (cases "p = q")
    case True
    have "\<forall>s \<in> set others. Section.project_id s \<noteq> Project.project_id q"
    proof
      fix s assume "s \<in> set others"
      then obtain r where "r \<in> set ps" "Section.project_id s = Project.project_id r"
        unfolding others_def using all_sections_project_id by blast
      with Cons.prems(1) show "Section.project_id s \<noteq> Project.project_id q"
        by (force simp: image_iff)
    qed
    then have "filter (\<lambda>s. Section.project_id s = Project.project_id q) others = []"
      by (simp add: filter_empty_conv)
    moreover have "filter (\<lambda>s. Section.project_id s = Project.project_id q) mine = mine"
      using mine_id by (simp add: filter_id_conv)
    ultimately have "filter (\<lambda>s. Section.project_id s = Project.project_id p) (fst (all_sections (q # ps) w))
        = fst (project_sections_from p 0 (get_sections_for_project (project_type p)) w)"
      using True unfold mine_def by simp
    then show ?thesis by blast
  next
    case False
    with Cons.prems have pin: "p \<in> set ps" and ne: "Project.project_id p \<noteq> Project.project_id q"
      by (force simp: image_iff)+
    have "filter (\<lambda>s. Section.project_id s = Project.project_id p) mine = []"
      using mine_id ne by (auto simp: filter_empty_conv)
    moreover from Cons.IH [of w1] Cons.prems(1) pin
    obtain w3 where "filter (\<lambda>s. Section.project_id s = Project.project_id p) others
        = fst (project_sections_from p 0 (get_sections_for_project (project_type p)) w3)"
      unfolding others_def by auto
    ultimately have "filter (\<lambda>s. Section.project_id s = Project.project_id p) (fst (all_sections (q # ps) w))
        = fst (project_sections_from p 0 (get_sections_for_project (project_type p)) w3)"
      using unfold by simp
    then show ?thesis by blast
  qed
qed

text \<open>
  Claim C7.  For every project given to the section generator (project ids being pairwise
  different), the sections generated for it carry exactly the positions \<open>0..n-1\<close>, in this
  order, \<open>n\<close> being the length of the template of the project's type, and their names are
  the template, in template order.
\<close>

theorem section_positions_contiguous:
  assumes "section_generate projects w = Inr (sections, w')"
    and "distinct (map Project.project_id projects)"
    and "p \<in> set projects"
  shows "map position (filter (\<lambda>s. Section.project_id s = Project.project_id p) sections)
           = map int [0..<length (get_sections_for_project (project_type p))]
       \<and> map Section.name (filter (\<lambda>s. Section.project_id s = Project.project_id p) sections)
           = get_sections_for_project (project_type p)"
proof -
  from assms(1) have "sections = fst (all_sections projects w)"
    by (auto simp: section_generate_def Let_def case_prod_beta split: if_splits)
  with all_sections_filter [OF assms(2,3), of w] obtain w1 where
    "filter (\<lambda>s. Section.project_id s = Project.project_id p) sections
       = fst (project_sections_from p 0 (get_sections_for_project (project_type p)) w1)"
    by auto
  then show ?thesis
    using project_sections_from_position [of p 0 "get_sections_for_project (project_type p)" w1]
      project_sections_from_name [of p 0 "get_sections_for_project (project_type p)" w1]
    by simp
qed

lemmas time_defs = replace_hm_def combine_min_def date_of_def td_days_def td_int_seconds_def
  seconds_def minutes_def hours_def days_def us_per_day_def us_per_hour_def us_per_minute_def us_per_second_def
lemmas world_defs = utcnow_def randint_def draw_def uuid4_def random_random_def

definition example_project :: Project where
  "example_project = \<lparr>Project.project_id = ''p1'', organization_id = ''o1'', Project.name = ''Ops'',
     team_id = Some ''t1'', description = None, owner_id = Some ''u1'', project_type = ''ongoing'',
     privacy = ''team'', status = ''active'', color = None, start_date = Some 91, due_date = Some 120,
     completed_at = None, Project.created_at = 7808400000000\<rparr>"

definition example_world :: world where
  "example_world = \<lparr>entropy = [1, 2, 0, 5], uuids = [''s1'', ''s2'', ''s3''],
     clock = 8683200000000, ticks = [7]\<rparr>"

text \<open>The theorem at a run over one project of type \<open>ongoing\<close>.\<close>

theorem section_positions_contiguous_witness:
  "section_generate [example_project] example_world =
     Inr ([\<lparr>section_id = ''s1'', Section.project_id = ''p1'', Section.name = ''To Do'',
             position = 0, Section.created_at = 7898400000000\<rparr>,
           \<lparr>section_id = ''s2'', Section.project_id = ''p1'', Section.name = ''In Progress'',
             position = 1, Section.created_at = 7822800000000\<rparr>,
           \<lparr>section_id = ''s3'', Section.project_id = ''p1'', Section.name = ''Done'',
             position = 2, Section.created_at = 7808400000000\<rparr>],
          \<lparr>entropy = [], uuids = [], clock = 8683200000007, ticks = []\<rparr>)
   \<and> map position (filter (\<lambda>s. Section.project_id s = Project.project_id example_project)
         [\<lparr>section_id = ''s1'', Section.project_id = ''p1'', Section.name = ''To Do'',
             position = 0, Section.created_at = 7898400000000\<rparr>,
           \<lparr>section_id = ''s2'', Section.project_id = ''p1'', Section.name = ''In Progress'',
             position = 1, Section.created_at = 7822800000000\<rparr>,
           \<lparr>section_id = ''s3'', Section.project_id = ''p1'', Section.name = ''Done'',
             position = 2, Section.created_at = 7808400000000\<rparr>]) = [0, 1, 2]"
proof -
  have run: "section_generate [example_project] example_world =
     Inr ([\<lparr>section_id = ''s1'', Section.project_id = ''p1'', Section.name = ''To Do'',
             position = 0, Section.created_at = 7898400000000\<rparr>,
           \<lparr>section_id = ''s2'', Section.project_id = ''p1'', Section.name = ''In Progress'',
             position = 1, Section.created_at = 7822800000000\<rparr>,
           \<lparr>section_id = ''s3'', Section.project_id = ''p1'', Section.name = ''Done'',
             position = 2, Section.created_at = 7808400000000\<rparr>],
          \<lparr>entropy = [], uuids = [], clock = 8683200000007, ticks = []\<rparr>)"
    by (simp add: section_generate_def example_project_def example_world_def
        get_sections_for_project_def section_templates_def default_sections_def
        section_sample_created_at_def time_defs world_defs Let_def)
  have len: "[0..<length (get_sections_for_project (project_type example_project))] = [0, 1, 2]"
    by (simp add: get_sections_for_project_def section_templates_def default_sections_def
        example_project_def upt_rec)
  from section_positions_contiguous [OF run, of example_project] len run
  show ?thesis by simp
qed

section \<open>Strings and numbers of Python\<close>

text \<open>\<open>int(x)\<close> on a number: truncation towards zero.\<close>
definition py_int :: "rat \<Rightarrow> int" where
  "py_int x = (if 0 \<le> x then \<lfloor>x\<rfloor> else \<lceil>x\<rceil>)"

text \<open>\<open>int(random.triangular(low, high, mode))\<close>: the law is kept only by its range, the
  integers between the truncated bounds.\<close>
definition triangular_int :: "rat \<Rightarrow> rat \<Rightarrow> rat \<Rightarrow> world \<Rightarrow> int \<times> world" where
  "triangular_int low high mode w = randint (py_int (min low high)) (py_int (max low high)) w"

text \<open>\<open>s.lower()\<close> on ASCII text.\<close>
definition lower_char :: "char \<Rightarrow> char" where
  "lower_char c = (let n = (of_char c :: nat) in if 65 \<le> n \<and> n \<le> 90 then char_of (n + 32) else c)"

definition lower :: "string \<Rightarrow> string" where
  "lower s = map lower_char s"

text \<open>\<open>sub in s\<close> on strings.\<close>
fun contains :: "string \<Rightarrow> string \<Rightarrow> bool" where
  "contains sub [] = (sub = [])"
| "contains sub (c # cs) = (take (length sub) (c # cs) = sub \<or> contains sub cs)"

text \<open>\<open>d.get(key, default)\<close> on a dictionary written as an association list.\<close>
definition dict_get :: "('k \<times> 'v) list \<Rightarrow> 'k \<Rightarrow> 'v \<Rightarrow> 'v" where
  "dict_get d k dflt = (case map_of d k of Some v \<Rightarrow> v | None \<Rightarrow> dflt)"

text \<open>\<open>next((x for x in xs if P(x)), default)\<close>\<close>
definition next_or :: "('a \<Rightarrow> bool) \<Rightarrow> 'a list \<Rightarrow> 'a \<Rightarrow> 'a" where
  "next_or P xs dflt = (case find P xs of Some x \<Rightarrow> x | None \<Rightarrow> dflt)"

section \<open>More entities\<close>

record User =
  user_id :: string
  organization_id :: string
  email :: string
  name :: string
  role :: string
  department :: "string option"
  job_title :: "string option"
  photo_url :: "string option"
  is_active :: bool
  workload_capacity :: rat
  created_at :: datetime
  last_active_at :: "datetime option"

record Tag =
  tag_id :: string
  organization_id :: string
  name :: string
  color :: "string option"
  created_at :: "datetime option"

record Task =
  task_id :: string
  name :: string
  created_by :: string
  project_id :: "string option"
  section_id :: "string option"
  parent_task_id :: "string option"
  description :: "string option"
  assignee_id :: "string option"
  priority :: "string option"
  due_date :: "date option"
  start_date :: "date option"
  completed :: bool
  completed_at :: "datetime option"
  created_at :: datetime
  modified_at :: "datetime option"

section \<open>Task generator (generators/tasks.py)\<close>

text \<open>The entries of \<open>benchmarks.json\<close> that the task generator reads.\<close>
record task_benchmarks =
  completion_by_priority :: "(string \<times> rat) list"
  overdue_rate :: rat
  tasks_created_per_week_range :: "rat \<times> rat"
  avg_task_duration :: rat
  task_duration_range :: "rat \<times> rat"

definition calculate_total_tasks :: "task_benchmarks \<Rightarrow> User list \<Rightarrow> int" where
  "calculate_total_tasks bm users =
     (let num_users = length users;
          weeks = 26;
          avg_tasks_per_week =
            (fst (tasks_created_per_week_range bm) + snd (tasks_created_per_week_range bm)) / 2
      in py_int (of_nat num_users * avg_tasks_per_week * weeks))"

definition sample_priority :: "world \<Rightarrow> string \<times> world" where
  "sample_priority w = choices [''high'', ''medium'', ''low''] [20 / 100, 60 / 100, 20 / 100] w"

definition sample_status :: "task_benchmarks \<Rightarrow> string \<Rightarrow> int \<Rightarrow> world \<Rightarrow> string \<times> world" where
  "sample_status bm prio age_days w =
     (let completion_rate = dict_get (completion_by_priority bm) prio (72 / 100);
          completion_rate = (if age_days < 7 then completion_rate * (5 / 10) else completion_rate);
          completion_rate = (if age_days > 60 then min (95 / 100) (completion_rate * (13 / 10))
                             else completion_rate);
          (u, w1) = random_random w
      in if u < completion_rate then (''completed'', w1)
         else choices [''in_progress'', ''not_started''] [40 / 100, 60 / 100] w1)"

definition sample_task_duration :: "task_benchmarks \<Rightarrow> world \<Rightarrow> int \<times> world" where
  "sample_task_duration bm w =
     (let (duration, w1) = triangular_int (fst (task_duration_range bm)) (snd (task_duration_range bm))
                             (avg_task_duration bm) w
      in (max 1 duration, w1))"

text \<open>The task name templates, each split at its placeholder \<open>{}\<close>.\<close>
definition task_name_templates :: "(string \<times> (string \<times> string) list) list" where
  "task_name_templates =
     [(''sprint'', [(''Implement '', '' feature''), (''Fix '', '' bug''),
                    (''Update '', '' documentation''), (''Review '', '' PR''),
                    (''Test '', '' functionality''), (''Refactor '', '' module''),
                    (''Deploy '', '' to production'')]),
      (''bug_tracking'', [(''Fix: '', '' not working properly''), (''Bug: '', '' throws error''),
                          (''Issue: '', '' performance problem''), (''Critical: '', '' crashes''),
                          (''Bug: '', '' displays incorrectly'')]),
      (''campaign'', [(''Design '', '' asset''), (''Write '', '' copy''), (''Review '', '' creative''),
                      (''Launch '', '' campaign''), (''Analyze '', '' performance'')]),
      (''roadmap'', [(''Plan '', '' initiative''), (''Research '', '' approach''),
                     (''Define '', '' requirements''), (''Evaluate '', '' options'')]),
      (''ongoing'', [(''Complete '', '' task''), (''Update '', '' system''), (''Review '', '' process''),
                     (''Handle '', '' request''), (''Process '', '' items'')])]"

definition task_name_placeholders :: "string list" where
  "task_name_placeholders =
     [''login'', ''payment'', ''dashboard'', ''API'', ''search'', ''notification'',
      ''user profile'', ''checkout'', ''analytics'', ''integration'', ''settings'',
      ''onboarding'', ''reporting'', ''authentication'', ''database'', ''UI'']"

definition generate_task_name :: "string \<Rightarrow> world \<Rightarrow> error + (string \<times> world)" where
  "generate_task_name ptype w =
     (let template_list = dict_get task_name_templates ptype
                            (dict_get task_name_templates ''ongoing'' [])
      in case choice template_list w of Inl e \<Rightarrow> Inl e
         | Inr (template, w1) \<Rightarrow>
             (case choice task_name_placeholders w1 of Inl e \<Rightarrow> Inl e
              | Inr (placeholder, w2) \<Rightarrow> Inr (fst template @ placeholder @ snd template, w2)))"

definition generate_task_description :: "string \<Rightarrow> world \<Rightarrow> error + (string option \<times> world)" where
  "generate_task_description task_name w =
     (let (u, w1) = random_random w
      in if u < 60 / 100 then Inr (None, w1)
         else case choice [''Work on '' @ lower task_name,
                           ''Complete '' @ lower task_name @ '' as discussed'',
                           ''Need to '' @ lower task_name @ '' before end of sprint'',
                           ''Follow up on '' @ lower task_name,
                           ''Important: '' @ lower task_name] w1 of
                Inl e \<Rightarrow> Inl e
              | Inr (d, w2) \<Rightarrow> Inr (Some d, w2))"

text \<open>\<open>_sample_created_at\<close>, first part: the sample, up to the replacement of the time of
  day.  It returns the lower bound in use and the reading of the clock as well.\<close>
definition task_created_sampled ::
  "datetime \<Rightarrow> datetime \<Rightarrow> world \<Rightarrow> (datetime \<times> datetime \<times> datetime) \<times> world" where
  "task_created_sampled project_created_at assignee_created_at w0 =
     (let earliest = max project_created_at assignee_created_at;
          (now, w1) = utcnow w0;
          (earliest, w2) = (if earliest > now
                            then (let (d, w') = randint 1 30 w1 in (now - days d, w'))
                            else (earliest, w1));
          days_available = td_days (now - earliest);
          (days_offset, w3) = (if days_available > 0 then randint 0 days_available w2 else (0, w2));
          created_at = earliest + days days_offset;
          (hour, w4) = choices [8, 9, 10, 11, 12, 13, 14, 15, 16, 17, 18, 19, 20]
                         [1, 1, 1, 1, 1, 1, 1, 1, 1, 1, 5 / 10, 5 / 10, 5 / 10] w3;
          (minute, w5) = randint 0 59 w4
      in ((earliest, now, replace_hm created_at hour minute), w5))"

text \<open>\<open>_sample_created_at\<close>, second part: the final constraints.\<close>
definition task_created_final :: "datetime \<Rightarrow> datetime \<Rightarrow> datetime \<Rightarrow> world \<Rightarrow> datetime \<times> world" where
  "task_created_final earliest now sampled w =
     (let created_at = (if sampled < earliest then earliest else sampled);
          (created_at, w1) = (if created_at > now
                              then (let (h, w') = randint 1 48 w in (now - hours h, w'))
                              else (created_at, w));
          created_at = (if created_at > now then now - hours 1 else created_at)
      in (created_at, w1))"

definition task_sample_created_at :: "datetime \<Rightarrow> datetime \<Rightarrow> world \<Rightarrow> datetime \<times> world" where
  "task_sample_created_at project_created_at assignee_created_at w =
     (let ((earliest, now, created_at), w1) = task_created_sampled project_created_at assignee_created_at w
      in task_created_final earliest now created_at w1)"

definition sample_due_date :: "datetime \<Rightarrow> int \<Rightarrow> string \<Rightarrow> world \<Rightarrow> date option \<times> world" where
  "sample_due_date created duration_days prio w =
     (let has_due_date_prob = [(''high'', 95 / 100), (''medium'', 80 / 100), (''low'', 60 / 100)];
          (u, w1) = random_random w
      in if u > dict_get has_due_date_prob prio (80 / 100) then (None, w1)
         else (Some (date_of (created + days duration_days)), w1))"

text \<open>\<open>_sample_completed_at\<close> for a completed task, in the steps of the source.  First the
  sample: on time, overdue, or without a due date.\<close>
definition task_completed_sampled ::
  "task_benchmarks \<Rightarrow> datetime \<Rightarrow> date option \<Rightarrow> world \<Rightarrow> datetime \<times> world" where
  "task_completed_sampled bm created due w =
     (case due of
        Some d \<Rightarrow>
          (let duetime = combine_min d;
               (u, w1) = random_random w
           in if u < 1 - overdue_rate bm
              then (let days_available = td_days (duetime - created);
                        (completion_offset, w2) =
                          (if days_available > 0 then randint 0 days_available w1 else (0, w1))
                    in (created + days completion_offset, w2))
              else (let (overdue_days, w2) = randint 1 14 w1
                    in (duetime + days overdue_days, w2)))
      | None \<Rightarrow>
          (let (completion_offset, w1) = randint 1 30 w
           in (created + days completion_offset, w1)))"

text \<open>"Ensure not in future".\<close>
definition task_completed_not_future :: "datetime \<Rightarrow> datetime \<Rightarrow> datetime \<Rightarrow> world \<Rightarrow> datetime \<times> world" where
  "task_completed_not_future created now c w =
     (if c > now
      then (let days_available = td_days (now - created)
            in if days_available > 0
               then (let (completion_offset, w1) = randint 0 days_available w
                     in (created + days completion_offset, w1))
               else (let (h, w1) = randint 1 48 w in (now - hours h, w1)))
      else (c, w))"

text \<open>"Add random hour".  A datetime keeps its date under \<open>replace\<close>.\<close>
definition task_completed_hour :: "datetime \<Rightarrow> world \<Rightarrow> datetime \<times> world" where
  "task_completed_hour c w =
     (let (hour, w1) = randint 8 20 w;
          (minute, w2) = randint 0 59 w1
      in (replace_hm c hour minute, w2))"

text \<open>The two "absolute final checks".  The span \<open>total_seconds\<close> is compared and truncated
  exactly (the source does it in floating point).\<close>
definition task_completed_checks :: "datetime \<Rightarrow> datetime \<Rightarrow> datetime \<Rightarrow> world \<Rightarrow> datetime \<times> world" where
  "task_completed_checks created now c w =
     (let (completed_at, w1) =
            (if c < created
             then (let (h, w') = randint 1 24 w in (created + hours h, w'))
             else (c, w))
      in if completed_at > now
         then (if now > created
               then (if now - created > seconds 3600
                     then (let (offset_seconds, w2) = randint 3600 (td_int_seconds (now - created)) w1
                           in (created + seconds offset_seconds, w2))
                     else (created + seconds ((now - created) div (2 * us_per_second)), w1))
               else (now, w1))
         else (completed_at, w1))"

text \<open>The "ultra-final sanity check".\<close>
definition task_completed_sanity :: "datetime \<Rightarrow> datetime \<Rightarrow> datetime \<Rightarrow> datetime" where
  "task_completed_sanity created now c =
     (let completed_at = (if c < created then created + seconds 1 else c)
      in if completed_at > now then now else completed_at)"

definition task_sample_completed_at ::
  "task_benchmarks \<Rightarrow> datetime \<Rightarrow> date option \<Rightarrow> string \<Rightarrow> world \<Rightarrow> datetime option \<times> world" where
  "task_sample_completed_at bm created due stat w =
     (if stat \<noteq> ''completed'' then (None, w)
      else let (now, w1) = utcnow w;
               (c1, w2) = task_completed_sampled bm created due w1;
               (c2, w3) = task_completed_not_future created now c1 w2;
               (c3, w4) = task_completed_hour c2 w3;
               (c4, w5) = task_completed_checks created now c3 w4
           in (Some (task_completed_sanity created now c4), w5))"
text \<open>The section of a new task, by status: the first section whose lower-cased name has
  the keyword, else the last, the middle or the first section.\<close>
definition choose_section :: "string \<Rightarrow> Section list \<Rightarrow> Section" where
  "choose_section stat project_sections =
     (if stat = ''completed''
      then next_or (\<lambda>s. contains ''done'' (lower (Section.name s))) project_sections
             (last project_sections)
      else if stat = ''in_progress''
      then next_or (\<lambda>s. contains ''progress'' (lower (Section.name s))) project_sections
             (project_sections ! (length project_sections div 2))
      else next_or (\<lambda>s. list_ex (\<lambda>word. contains word (lower (Section.name s)))
                            [''todo'', ''backlog'', ''new''])
             project_sections (hd project_sections))"

text \<open>\<open>start_date\<close> of a new task; \<open>random.randint(0, min(3, age_days))\<close> raises
  ValueError on an empty range.\<close>
definition sample_start_date :: "string \<Rightarrow> datetime \<Rightarrow> int \<Rightarrow> world \<Rightarrow> error + (date option \<times> world)" where
  "sample_start_date stat created age_days w =
     (if stat = ''not_started'' then Inr (None, w)
      else if min 3 age_days < 0 then Inl ValueError
      else let (days_after_created, w1) = randint 0 (min 3 age_days) w
           in Inr (Some (date_of (created + days days_after_created)), w1))"

text \<open>One turn of the loop \<open>for _ in range(tasks_per_project)\<close>.\<close>
definition generate_task ::
  "task_benchmarks \<Rightarrow> Project \<Rightarrow> Section list \<Rightarrow> User list \<Rightarrow> world \<Rightarrow> error + (Task \<times> world)" where
  "generate_task bm project project_sections team_users w0 =
     (let (priority, w1) = sample_priority w0;
          (duration_days, w2) = sample_task_duration bm w1
      in case choice team_users w2 of Inl e \<Rightarrow> Inl e
         | Inr (assignee, w3) \<Rightarrow>
     (let (created_at, w4) = task_sample_created_at (Project.created_at project)
                               (User.created_at assignee) w3;
          (now, w5) = utcnow w4;
          age_days = td_days (now - created_at);
          (status, w6) = sample_status bm priority age_days w5;
          (due_date, w7) = sample_due_date created_at duration_days priority w6;
          (completed_at, w8) = task_sample_completed_at bm created_at due_date status w7
      in case generate_task_name (project_type project) w8 of Inl e \<Rightarrow> Inl e
         | Inr (task_name, w9) \<Rightarrow>
     (case generate_task_description task_name w9 of Inl e \<Rightarrow> Inl e
         | Inr (descr, w10) \<Rightarrow>
     (let sec = choose_section status project_sections
      in case sample_start_date status created_at age_days w10 of Inl e \<Rightarrow> Inl e
         | Inr (started, w11) \<Rightarrow>
     (let (tid, w12) = uuid4 w11
      in case choice team_users w12 of Inl e \<Rightarrow> Inl e
         | Inr (creator, w13) \<Rightarrow>
             Inr (\<lparr>task_id = tid, Task.name = task_name, created_by = user_id creator,
                   Task.project_id = Some (Project.project_id project),
                   Task.section_id = Some (Section.section_id sec),
                   parent_task_id = None, Task.description = descr,
                   assignee_id = Some (user_id assignee), priority = Some priority,
                   Task.due_date = due_date, Task.start_date = started,
                   completed = (status = ''completed''), Task.completed_at = completed_at,
                   Task.created_at = created_at,
                   modified_at = (case completed_at of Some c \<Rightarrow> Some c | None \<Rightarrow> Some created_at)\<rparr>,
                  w13))))))"

fun project_tasks ::
  "nat \<Rightarrow> task_benchmarks \<Rightarrow> Project \<Rightarrow> Section list \<Rightarrow> User list \<Rightarrow> world
   \<Rightarrow> error + (Task list \<times> world)" where
  "project_tasks 0 bm project project_sections team_users w = Inr ([], w)"
| "project_tasks (Suc n) bm project project_sections team_users w =
     (case generate_task bm project project_sections team_users w of Inl e \<Rightarrow> Inl e
      | Inr (t, w1) \<Rightarrow>
          (case project_tasks n bm project project_sections team_users w1 of Inl e \<Rightarrow> Inl e
           | Inr (ts, w2) \<Rightarrow> Inr (t # ts, w2)))"

text \<open>\<open>project_dict = {p.project_id: p for p in projects}\<close>: a later project replaces an
  earlier one of the same id.\<close>
definition project_dict :: "Project list \<Rightarrow> string \<Rightarrow> Project option" where
  "project_dict projects = map_of (rev (map (\<lambda>p. (Project.project_id p, p)) projects))"

text \<open>\<open>users_by_dept.get(key, [])\<close>: the users of that department, in input order.\<close>
definition users_by_dept :: "User list \<Rightarrow> string option \<Rightarrow> User list" where
  "users_by_dept users key = filter (\<lambda>u. department u = key) users"

text \<open>The loop \<open>for project in active_projects\<close>; \<open>n\<close> is \<open>tasks_per_project\<close>.\<close>
fun tasks_for_projects ::
  "task_benchmarks \<Rightarrow> Project list \<Rightarrow> Section list \<Rightarrow> User list \<Rightarrow> nat \<Rightarrow> Project list \<Rightarrow> world
   \<Rightarrow> error + (Task list \<times> world)" where
  "tasks_for_projects bm projects sections users n [] w = Inr ([], w)"
| "tasks_for_projects bm projects sections users n (project # rest) w =
     (let project_sections = filter (\<lambda>s. Section.project_id s = Project.project_id project) sections
      in if project_sections = [] then tasks_for_projects bm projects sections users n rest w
         else case project_dict projects (Project.project_id project) of None \<Rightarrow> Inl KeyError
              | Some pd \<Rightarrow>
                  (let team_users = users_by_dept users (owner_id pd);
                       team_users = (if team_users = [] then users else team_users)
                   in case project_tasks n bm project project_sections team_users w of
                        Inl e \<Rightarrow> Inl e
                      | Inr (ts, w1) \<Rightarrow>
                          (case tasks_for_projects bm projects sections users n rest w1 of
                             Inl e \<Rightarrow> Inl e
                           | Inr (others, w2) \<Rightarrow> Inr (ts @ others, w2))))"

definition active_or_on_hold :: "Project \<Rightarrow> bool" where
  "active_or_on_hold p = (Project.status p \<in> set [''active'', ''on_hold''])"

text \<open>\<open>TaskGenerator.generate\<close>.  The floor division by the number of active projects
  raises ZeroDivisionError when there is no project at all.\<close>
definition task_generate ::
  "task_benchmarks \<Rightarrow> Project list \<Rightarrow> Section list \<Rightarrow> User list \<Rightarrow> Tag list \<Rightarrow> world
   \<Rightarrow> error + (Task list \<times> world)" where
  "task_generate bm projects sections users tags w =
     (let total_tasks = calculate_total_tasks bm users;
          active_projects = filter active_or_on_hold projects;
          active_projects = (if active_projects = [] then projects else active_projects)
      in if length active_projects = 0 then Inl ZeroDivisionError
         else let tasks_per_project = total_tasks div int (length active_projects)
              in tasks_for_projects bm projects sections users (nat tasks_per_project)
                   active_projects w)"

section \<open>The clock and the random source\<close>

lemma randint_range:
  "a \<le> b \<Longrightarrow> a \<le> fst (randint a b w) \<and> fst (randint a b w) \<le> b"
proof -
  assume "a \<le> b"
  then have pos: "0 < b - a + 1" by simp
  have eq: "fst (randint a b w) = a + int (fst (draw w)) mod (b - a + 1)"
    by (simp add: randint_def case_prod_beta)
  from pos_mod_sign [OF pos, of "int (fst (draw w))"] pos_mod_bound [OF pos, of "int (fst (draw w))"]
  show ?thesis unfolding eq by linarith
qed

lemma clock_draw [simp]: "clock (snd (draw w)) = clock w"
  by (simp add: draw_def split: list.splits)

lemma clock_randint [simp]: "clock (snd (randint a b w)) = clock w"
  by (simp add: randint_def case_prod_beta)

lemma clock_random_random [simp]: "clock (snd (random_random w)) = clock w"
  by (simp add: random_random_def case_prod_beta)

lemma clock_choices [simp]: "clock (snd (choices xs ws w)) = clock w"
  by (simp add: choices_def case_prod_beta)

lemma clock_uuid4 [simp]: "clock (snd (uuid4 w)) = clock w"
  by (simp add: uuid4_def split: list.splits)

lemma clock_triangular_int [simp]: "clock (snd (triangular_int lo hi m w)) = clock w"
  by (simp add: triangular_int_def)

lemma clock_choice: "choice xs w = Inr (x, w') \<Longrightarrow> clock w' = clock w"
  by (auto simp: choice_def case_prod_beta split: if_splits)

lemma choice_member: "choice xs w = Inr (x, w') \<Longrightarrow> x \<in> set xs"
  by (auto simp: choice_def case_prod_beta split: if_splits)

lemma clock_sample [simp]: "clock (snd (sample xs k w)) = clock w"
  by (induction xs k w rule: sample.induct) (simp_all add: case_prod_beta Let_def)

lemma utcnow_reads_clock [simp]: "fst (utcnow w) = clock (snd (utcnow w))"
  by (simp add: utcnow_def split: list.splits)

lemma utcnow_forward: "clock w \<le> clock (snd (utcnow w))"
  by (simp add: utcnow_def split: list.splits)

section \<open>Properties of the task generator\<close>

lemma task_created_final_le_now: "fst (task_created_final earliest now c w) \<le> now"
  by (simp add: task_created_final_def Let_def case_prod_beta hours_def us_per_hour_def)

lemma clock_task_created_final [simp]: "clock (snd (task_created_final earliest now c w)) = clock w"
  by (simp add: task_created_final_def Let_def case_prod_beta)

lemma task_created_sampled_now:
  "fst (snd (fst (task_created_sampled p a w))) = clock (snd (task_created_sampled p a w))"
  by (simp add: task_created_sampled_def Let_def case_prod_beta)

lemma clock_task_created_sampled: "clock w \<le> clock (snd (task_created_sampled p a w))"
  by (simp add: task_created_sampled_def Let_def case_prod_beta utcnow_forward)

lemma task_sample_created_at_le_clock:
  "fst (task_sample_created_at p a w) \<le> clock (snd (task_sample_created_at p a w))"
  using task_created_final_le_now task_created_sampled_now
  by (simp add: task_sample_created_at_def case_prod_beta)

lemma clock_sample_status [simp]: "clock (snd (sample_status bm prio age w)) = clock w"
  by (simp add: sample_status_def Let_def case_prod_beta)

lemma clock_sample_due_date [simp]: "clock (snd (sample_due_date created d prio w)) = clock w"
  by (simp add: sample_due_date_def Let_def case_prod_beta)

lemma task_completed_sanity_ge:
  "created \<le> now \<Longrightarrow> created \<le> task_completed_sanity created now c"
  by (simp add: task_completed_sanity_def Let_def seconds_def us_per_second_def)

lemma task_completed_sanity_le: "task_completed_sanity created now c \<le> now"
  by (simp add: task_completed_sanity_def Let_def)

lemma task_sample_completed_at_None:
  "stat \<noteq> ''completed'' \<Longrightarrow> fst (task_sample_completed_at bm created due stat w) = None"
  by (simp add: task_sample_completed_at_def)

lemma task_sample_completed_at_Some:
  "created \<le> clock w \<Longrightarrow>
   \<exists>c. fst (task_sample_completed_at bm created due ''completed'' w) = Some c \<and> created \<le> c"
proof -
  assume "created \<le> clock w"
  then have "created \<le> fst (utcnow w)"
    using utcnow_forward [of w] by simp
  then show ?thesis
    by (simp add: task_sample_completed_at_def case_prod_beta task_completed_sanity_ge
        del: utcnow_reads_clock)
qed
lemma generate_task_shape:
  assumes "generate_task bm p secs us w = Inr (t, w')"
  shows "\<exists>assignee w3 stat due w7.
           assignee \<in> set us
         \<and> Task.created_at t = fst (task_sample_created_at (Project.created_at p) (User.created_at assignee) w3)
         \<and> clock (snd (task_sample_created_at (Project.created_at p) (User.created_at assignee) w3)) \<le> clock w7
         \<and> Task.completed_at t = fst (task_sample_completed_at bm (Task.created_at t) due stat w7)
         \<and> completed t = (stat = ''completed'')
         \<and> Task.project_id t = Some (Project.project_id p)
         \<and> Task.section_id t = Some (Section.section_id (choose_section stat secs))"
proof -
  define w2 where "w2 = snd (sample_task_duration bm (snd (sample_priority w)))"
  from assms obtain assignee w3 where ch: "choice us w2 = Inr (assignee, w3)"
    unfolding generate_task_def w2_def
    by (auto simp: Let_def case_prod_beta split: sum.splits)
  define created where "created = fst (task_sample_created_at (Project.created_at p) (User.created_at assignee) w3)"
  define w4 where "w4 = snd (task_sample_created_at (Project.created_at p) (User.created_at assignee) w3)"
  define w5 where "w5 = snd (utcnow w4)"
  define age where "age = td_days (fst (utcnow w4) - created)"
  define prio where "prio = fst (sample_priority w)"
  define stat where "stat = fst (sample_status bm prio age w5)"
  define w6 where "w6 = snd (sample_status bm prio age w5)"
  define dur where "dur = fst (sample_task_duration bm (snd (sample_priority w)))"
  define due where "due = fst (sample_due_date created dur prio w6)"
  define w7 where "w7 = snd (sample_due_date created dur prio w6)"
  have clk: "clock w4 \<le> clock w7"
    unfolding w7_def w6_def w5_def using utcnow_forward [of w4] by simp
  from assms ch have
    "Task.created_at t = created
     \<and> Task.completed_at t = fst (task_sample_completed_at bm created due stat w7)
     \<and> completed t = (stat = ''completed'')
     \<and> Task.project_id t = Some (Project.project_id p)
     \<and> Task.section_id t = Some (Section.section_id (choose_section stat secs))"
    unfolding generate_task_def w2_def [symmetric]
    by (auto simp: Let_def case_prod_beta created_def w4_def w5_def age_def prio_def stat_def
        w6_def dur_def due_def w7_def w2_def split: sum.splits simp del: utcnow_reads_clock)
  with clk choice_member [OF ch] show ?thesis
    unfolding created_def w4_def
    by (intro exI [of _ assignee] exI [of _ w3] exI [of _ stat] exI [of _ due] exI [of _ w7]) simp
qed

lemma generate_task_completed:
  assumes "generate_task bm p secs us w = Inr (t, w')"
  shows "(completed t \<longleftrightarrow> Task.completed_at t \<noteq> None)
       \<and> (completed t \<longrightarrow> (\<exists>c. Task.completed_at t = Some c \<and> Task.created_at t \<le> c))"
  using generate_task_shape [OF assms]
proof (elim exE conjE)
  fix assignee w3 stat due w7
  assume cr: "Task.created_at t = fst (task_sample_created_at (Project.created_at p) (User.created_at assignee) w3)"
    and clk: "clock (snd (task_sample_created_at (Project.created_at p) (User.created_at assignee) w3)) \<le> clock w7"
    and co: "Task.completed_at t = fst (task_sample_completed_at bm (Task.created_at t) due stat w7)"
    and st: "completed t = (stat = ''completed'')"
  have le: "Task.created_at t \<le> clock w7"
    using task_sample_created_at_le_clock [of "Project.created_at p" "User.created_at assignee" w3] clk cr
    by simp
  show ?thesis
  proof (cases "stat = ''completed''")
    case True
    with task_sample_completed_at_Some [OF le, of bm due] co st show ?thesis by auto
  next
    case False
    with task_sample_completed_at_None [of stat bm "Task.created_at t" due w7] co st show ?thesis by simp
  qed
qed

lemma project_tasks_all:
  assumes "project_tasks n bm p secs us w = Inr (ts, w')" and "t \<in> set ts"
  shows "\<exists>w1 w2. generate_task bm p secs us w1 = Inr (t, w2)"
  using assms
proof (induction n arbitrary: w ts)
  case 0
  then show ?case by simp
next
  case (Suc n)
  from Suc.prems(1) obtain t0 w1 ts0 where
    g: "generate_task bm p secs us w = Inr (t0, w1)"
    and r: "project_tasks n bm p secs us w1 = Inr (ts0, w')"
    and ts: "ts = t0 # ts0"
    by (auto split: sum.splits)
  from Suc.prems(2) ts have "t = t0 \<or> t \<in> set ts0" by auto
  then show ?case
  proof
    assume "t = t0"
    with g show ?thesis by blast
  next
    assume "t \<in> set ts0"
    with Suc.IH [OF r] show ?thesis by blast
  qed
qed

lemma tasks_for_projects_all:
  assumes "tasks_for_projects bm projects sections users n active w = Inr (ts, w')" and "t \<in> set ts"
  shows "\<exists>p us w1 w2. p \<in> set active
           \<and> filter (\<lambda>s. Section.project_id s = Project.project_id p) sections \<noteq> []
           \<and> generate_task bm p (filter (\<lambda>s. Section.project_id s = Project.project_id p) sections) us w1
               = Inr (t, w2)"
  using assms
proof (induction active arbitrary: w ts)
  case Nil
  then show ?case by simp
next
  case (Cons q rest)
  let ?secs = "filter (\<lambda>s. Section.project_id s = Project.project_id q) sections"
  show ?case
  proof (cases "?secs = []")
    case True
    with Cons.prems(1) have "tasks_for_projects bm projects sections users n rest w = Inr (ts, w')"
      by simp
    from Cons.IH [OF this Cons.prems(2)] show ?thesis by auto
  next
    case False
    with Cons.prems(1) obtain us ts1 w1 ts2 where
      pt: "project_tasks n bm q ?secs us w = Inr (ts1, w1)"
      and rest: "tasks_for_projects bm projects sections users n rest w1 = Inr (ts2, w')"
      and ts: "ts = ts1 @ ts2"
      by (auto simp: Let_def split: option.splits sum.splits)
    from Cons.prems(2) ts have "t \<in> set ts1 \<or> t \<in> set ts2" by auto
    then show ?thesis
    proof
      assume "t \<in> set ts1"
      from project_tasks_all [OF pt this] False show ?thesis by auto
    next
      assume "t \<in> set ts2"
      from Cons.IH [OF rest this] show ?thesis by auto
    qed
  qed
qed

lemma task_generate_all:
  assumes "task_generate bm projects sections users tags w = Inr (ts, w')" and "t \<in> set ts"
  shows "\<exists>p us w1 w2. p \<in> set projects
           \<and> ((\<exists>q \<in> set projects. active_or_on_hold q) \<longrightarrow> active_or_on_hold p)
           \<and> filter (\<lambda>s. Section.project_id s = Project.project_id p) sections \<noteq> []
           \<and> generate_task bm p (filter (\<lambda>s. Section.project_id s = Project.project_id p) sections) us w1
               = Inr (t, w2)"
proof -
  define active where
    "active = (if filter active_or_on_hold projects = [] then projects else filter active_or_on_hold projects)"
  from assms(1) have
    "tasks_for_projects bm projects sections users
       (nat (calculate_total_tasks bm users div int (length active))) active w = Inr (ts, w')"
    by (auto simp: task_generate_def Let_def active_def split: if_splits)
  from tasks_for_projects_all [OF this assms(2)] obtain p us w1 w2 where
    p: "p \<in> set active"
    and rest: "filter (\<lambda>s. Section.project_id s = Project.project_id p) sections \<noteq> []"
      "generate_task bm p (filter (\<lambda>s. Section.project_id s = Project.project_id p) sections) us w1
         = Inr (t, w2)"
    by blast
  from p have "p \<in> set projects" by (auto simp: active_def split: if_splits)
  moreover from p have "(\<exists>q \<in> set projects. active_or_on_hold q) \<longrightarrow> active_or_on_hold p"
    by (auto simp: active_def filter_empty_conv split: if_splits)
  ultimately show ?thesis using rest by blast
qed

lemmas task_generator_defs = task_generate_def calculate_total_tasks_def py_int_def active_or_on_hold_def
  project_dict_def users_by_dept_def generate_task_def sample_priority_def sample_task_duration_def
  triangular_int_def choice_def choices_def task_sample_created_at_def task_created_sampled_def
  task_created_final_def sample_status_def dict_get_def sample_due_date_def task_sample_completed_at_def
  task_completed_sampled_def task_completed_not_future_def task_completed_hour_def
  task_completed_checks_def task_completed_sanity_def generate_task_name_def task_name_templates_def
  task_name_placeholders_def generate_task_description_def choose_section_def next_or_def lower_def
  lower_char_def sample_start_date_def

text \<open>Example data: one engineer, the section \<open>Done\<close> of the example project, and
  benchmarks under which one user receives one task.\<close>

definition example_benchmarks :: task_benchmarks where
  "example_benchmarks =
     \<lparr>completion_by_priority = [(''high'', 89 / 100), (''medium'', 74 / 100), (''low'', 58 / 100)],
      overdue_rate = 18 / 100, tasks_created_per_week_range = (0, 1 / 13),
      avg_task_duration = 53 / 10, task_duration_range = (1, 30)\<rparr>"

definition example_user :: User where
  "example_user =
     \<lparr>user_id = ''u1'', User.organization_id = ''o1'', email = ''u1@example.com'',
      User.name = ''Ada'', role = ''member'', department = Some ''Engineering'', job_title = None,
      photo_url = None, is_active = True, workload_capacity = 1,
      User.created_at = 4352400000000, last_active_at = None\<rparr>"

definition example_section :: Section where
  "example_section =
     \<lparr>Section.section_id = ''s3'', Section.project_id = ''p1'', Section.name = ''Done'',
      position = 2, Section.created_at = 7808400000000\<rparr>"

definition task_world :: world where
  "task_world = \<lparr>entropy = [], uuids = [''t1''], clock = 8683200000000, ticks = [5, 5]\<rparr>"

definition example_task :: Task where
  "example_task =
     \<lparr>task_id = ''t1'', Task.name = ''Complete login task'', created_by = ''u1'',
      Task.project_id = Some ''p1'', Task.section_id = Some ''s3'', parent_task_id = None,
      Task.description = None, assignee_id = Some ''u1'', priority = Some ''high'',
      Task.due_date = Some 91, Task.start_date = Some 90, completed = True,
      Task.completed_at = Some 7812000000000, Task.created_at = 7808400000000,
      modified_at = Some 7812000000000\<rparr>"

lemma example_task_run:
  "task_generate example_benchmarks [example_project] [example_section] [example_user] [] task_world
     = Inr ([example_task], \<lparr>entropy = [], uuids = [], clock = 8683200000010, ticks = []\<rparr>)"
  by (simp add: task_generator_defs time_defs world_defs Let_def example_benchmarks_def
      example_project_def example_section_def example_user_def task_world_def example_task_def)

text \<open>
  Claim C1.  For every task that the task generator returns, \<open>completed\<close> is true if and
  only if \<open>completed_at\<close> is set, and a completed task has \<open>completed_at \<ge> created_at\<close>.
  The clock of the run never goes back.
\<close>

theorem task_completed_iff_completed_at:
  assumes "task_generate bm projects sections users tags w = Inr (tasks, w')"
    and "t \<in> set tasks"
  shows "(completed t \<longleftrightarrow> Task.completed_at t \<noteq> None)
       \<and> (completed t \<longrightarrow> (\<exists>c. Task.completed_at t = Some c \<and> Task.created_at t \<le> c))"
proof -
  from task_generate_all [OF assms] obtain p us w1 w2 where
    "generate_task bm p (filter (\<lambda>s. Section.project_id s = Project.project_id p) sections) us w1
       = Inr (t, w2)"
    by blast
  then show ?thesis by (rule generate_task_completed)
qed

text \<open>The theorem at the example run, whose one task is completed an hour after its creation.\<close>

theorem task_completed_iff_completed_at_witness:
  "task_generate example_benchmarks [example_project] [example_section] [example_user] [] task_world
     = Inr ([example_task], \<lparr>entropy = [], uuids = [], clock = 8683200000010, ticks = []\<rparr>)
   \<and> example_task \<in> set [example_task]
   \<and> completed example_task
   \<and> Task.completed_at example_task \<noteq> None
   \<and> (\<exists>c. Task.completed_at example_task = Some c \<and> Task.created_at example_task \<le> c)"
proof -
  have mem: "example_task \<in> set [example_task]" by simp
  have compl: "completed example_task" by (simp add: example_task_def)
  from task_completed_iff_completed_at [OF example_task_run mem] compl example_task_run
  show ?thesis by simp
qed

text \<open>
  Claim C3.  \<open>task.created_at \<ge> max(project.created_at, assignee.created_at)\<close> fails on the
  code: with a project created at 10:00 of day 100, a user created on day 50 and the clock
  at 10:30 of day 100, the sample at 13:00 lies in the future and is replaced by
  \<open>now - 1 hour\<close>, which is 09:30, before the creation of the project.
\<close>

definition late_project :: Project where
  "late_project = example_project\<lparr>Project.created_at := 8676000000000\<rparr>"

definition late_world :: world where
  "late_world = \<lparr>entropy = [0, 0, 0, 4503599627370496, 0, 0], uuids = [''t1''],
     clock = 8677800000000, ticks = []\<rparr>"

theorem task_created_before_project:
  "Project.created_at late_project \<le> clock late_world
   \<and> User.created_at example_user \<le> clock late_world
   \<and> (\<exists>t w'. task_generate example_benchmarks [late_project] [example_section] [example_user] []
                 late_world = Inr ([t], w')
              \<and> Task.created_at t = 8674200000000
              \<and> Task.created_at t < max (Project.created_at late_project) (User.created_at example_user)
              \<and> clock w' = clock late_world)"
  by (simp add: task_generator_defs time_defs world_defs Let_def example_benchmarks_def
      example_project_def example_section_def example_user_def late_project_def late_world_def)

text \<open>
  Claim C10.  Every task that the task generator returns belongs to a project of the input
  that has at least one section and that, when the input has a project of status \<open>active\<close>
  or \<open>on_hold\<close> at all, has such a status itself; with pairwise different project ids, no
  project of the task's id is then \<open>completed\<close> or \<open>archived\<close>.
\<close>

theorem tasks_only_for_active_projects_with_sections:
  assumes "task_generate bm projects sections users tags w = Inr (tasks, w')"
    and "t \<in> set tasks"
  shows "(\<exists>p \<in> set projects. Task.project_id t = Some (Project.project_id p)
            \<and> (\<exists>s \<in> set sections. Section.project_id s = Project.project_id p)
            \<and> ((\<exists>q \<in> set projects. active_or_on_hold q) \<longrightarrow> active_or_on_hold p))
       \<and> (distinct (map Project.project_id projects) \<longrightarrow>
            (\<forall>q \<in> set projects. Task.project_id t = Some (Project.project_id q) \<longrightarrow>
               (\<exists>r \<in> set projects. active_or_on_hold r) \<longrightarrow>
               Project.status q \<noteq> ''completed'' \<and> Project.status q \<noteq> ''archived''))"
proof -
  from task_generate_all [OF assms] obtain p us w1 w2 where
    p: "p \<in> set projects"
    and act: "(\<exists>q \<in> set projects. active_or_on_hold q) \<longrightarrow> active_or_on_hold p"
    and secs: "filter (\<lambda>s. Section.project_id s = Project.project_id p) sections \<noteq> []"
    and gen: "generate_task bm p (filter (\<lambda>s. Section.project_id s = Project.project_id p) sections) us w1
                = Inr (t, w2)"
    by blast
  from generate_task_shape [OF gen] have pid: "Task.project_id t = Some (Project.project_id p)"
    by blast
  from secs have sec: "\<exists>s \<in> set sections. Section.project_id s = Project.project_id p"
    by (auto simp: filter_empty_conv)
  have first: "\<exists>p \<in> set projects. Task.project_id t = Some (Project.project_id p)
            \<and> (\<exists>s \<in> set sections. Section.project_id s = Project.project_id p)
            \<and> ((\<exists>q \<in> set projects. active_or_on_hold q) \<longrightarrow> active_or_on_hold p)"
    using p act sec pid by blast
  have second: "Project.status q \<noteq> ''completed'' \<and> Project.status q \<noteq> ''archived''"
    if d: "distinct (map Project.project_id projects)" and q: "q \<in> set projects"
      and same: "Task.project_id t = Some (Project.project_id q)"
      and some: "\<exists>r \<in> set projects. active_or_on_hold r" for q
  proof -
    from same pid have "Project.project_id q = Project.project_id p" by simp
    with d p q have "q = p" by (meson distinct_map inj_onD)
    with act some have "active_or_on_hold q" by blast
    then show ?thesis by (auto simp: active_or_on_hold_def)
  qed
  from first second show ?thesis by blast
qed

text \<open>The theorem at the example run: the one task belongs to the active example project.\<close>

theorem tasks_only_for_active_projects_with_sections_witness:
  "task_generate example_benchmarks [example_project] [example_section] [example_user] [] task_world
     = Inr ([example_task], \<lparr>entropy = [], uuids = [], clock = 8683200000010, ticks = []\<rparr>)
   \<and> example_task \<in> set [example_task]
   \<and> distinct (map Project.project_id [example_project])
   \<and> Task.project_id example_task = Some (Project.project_id example_project)
   \<and> active_or_on_hold example_project
   \<and> Project.status example_project \<noteq> ''completed''
   \<and> Project.status example_project \<noteq> ''archived''"
proof -
  have mem: "example_task \<in> set [example_task]" by simp
  have act: "active_or_on_hold example_project"
    by (simp add: active_or_on_hold_def example_project_def)
  have pid: "Task.project_id example_task = Some (Project.project_id example_project)"
    by (simp add: example_task_def example_project_def)
  from tasks_only_for_active_projects_with_sections [OF example_task_run mem] act pid example_task_run
  show ?thesis by simp
qed

section \<open>Dependency generator (generators/dependencies.py)\<close>

record TaskDependency =
  dependency_id :: string
  dependent_task_id :: string
  dependency_task_id :: string
  created_at :: datetime

text \<open>The keys of \<open>tasks_by_project\<close> in the order of a dictionary: by first
  appearance.\<close>
fun project_keys :: "Task list \<Rightarrow> string option list" where
  "project_keys [] = []"
| "project_keys (t # ts) = Task.project_id t # filter (\<lambda>k. k \<noteq> Task.project_id t) (project_keys ts)"

definition tasks_by_project :: "Task list \<Rightarrow> (string option \<times> Task list) list" where
  "tasks_by_project tasks =
     map (\<lambda>k. (k, filter (\<lambda>t. Task.project_id t = k) tasks)) (project_keys tasks)"

definition should_have_dependency :: "world \<Rightarrow> bool \<times> world" where
  "should_have_dependency w = (let (u, w1) = random_random w in (u < 10 / 100, w1))"

definition sample_num_dependencies :: "world \<Rightarrow> nat \<times> world" where
  "sample_num_dependencies w = choices [1, 2, 3] [70 / 100, 20 / 100, 10 / 100] w"

text \<open>The loop \<open>for blocker_task in blocker_tasks\<close>, with the set \<open>existing_deps\<close>.\<close>
fun add_blockers ::
  "Task \<Rightarrow> Task list \<Rightarrow> (string \<times> string) set \<Rightarrow> world
   \<Rightarrow> TaskDependency list \<times> (string \<times> string) set \<times> world" where
  "add_blockers dependent_task [] existing_deps w = ([], existing_deps, w)"
| "add_blockers dependent_task (blocker_task # rest) existing_deps w =
     (let dep_key = (task_id dependent_task, task_id blocker_task)
      in if dep_key \<in> existing_deps then add_blockers dependent_task rest existing_deps w
         else let (did, w1) = uuid4 w;
                  (h, w2) = randint 1 24 w1;
                  dependency = \<lparr>dependency_id = did, dependent_task_id = task_id dependent_task,
                                dependency_task_id = task_id blocker_task,
                                TaskDependency.created_at = Task.created_at dependent_task + hours h\<rparr>;
                  (ds, existing_deps', w3) =
                    add_blockers dependent_task rest (insert dep_key existing_deps) w2
              in (dependency # ds, existing_deps', w3))"

text \<open>The loop \<open>for i, dependent_task in enumerate(project_tasks)\<close>, from index \<open>i\<close>
  on; \<open>todo\<close> is the rest of the list from there.\<close>
fun dependencies_from ::
  "Task list \<Rightarrow> nat \<Rightarrow> Task list \<Rightarrow> (string \<times> string) set \<Rightarrow> world
   \<Rightarrow> TaskDependency list \<times> (string \<times> string) set \<times> world" where
  "dependencies_from ptasks i [] existing_deps w = ([], existing_deps, w)"
| "dependencies_from ptasks i (dependent_task # todo) existing_deps w =
     (let (has, w1) = should_have_dependency w
      in if \<not> has then dependencies_from ptasks (Suc i) todo existing_deps w1
         else let potential_blockers = take i ptasks
              in if potential_blockers = []
                 then dependencies_from ptasks (Suc i) todo existing_deps w1
                 else let (n, w2) = sample_num_dependencies w1;
                          num_deps = min n (length potential_blockers);
                          (blocker_tasks, w3) = sample potential_blockers num_deps w2;
                          (ds, existing_deps1, w4) =
                            add_blockers dependent_task blocker_tasks existing_deps w3;
                          (others, existing_deps2, w5) =
                            dependencies_from ptasks (Suc i) todo existing_deps1 w4
                      in (ds @ others, existing_deps2, w5))"

text \<open>The loop \<open>for project_id, project_tasks in tasks_by_project.items()\<close>.\<close>
fun dependencies_of_projects ::
  "Task list list \<Rightarrow> (string \<times> string) set \<Rightarrow> world
   \<Rightarrow> TaskDependency list \<times> (string \<times> string) set \<times> world" where
  "dependencies_of_projects [] existing_deps w = ([], existing_deps, w)"
| "dependencies_of_projects (ptasks # rest) existing_deps w =
     (if length ptasks < 2 then dependencies_of_projects rest existing_deps w
      else let (ds, existing_deps1, w1) =
                 dependencies_from ptasks 0 ptasks existing_deps w;
               (others, existing_deps2, w2) = dependencies_of_projects rest existing_deps1 w1
           in (ds @ others, existing_deps2, w2))"

text \<open>\<open>DependencyGenerator.generate\<close>.  Each project's tasks are sorted by \<open>created_at\<close>
  (a stable sort); the share of tasks with dependencies that is printed at the end divides by
  \<open>len(tasks)\<close>.\<close>
definition dependency_generate ::
  "Task list \<Rightarrow> world \<Rightarrow> error + (TaskDependency list \<times> world)" where
  "dependency_generate tasks w =
     (let sorted_groups = map (\<lambda>(k, ts). sort_key Task.created_at ts) (tasks_by_project tasks);
          (dependencies, existing_deps, w') = dependencies_of_projects sorted_groups {} w
      in if length tasks = 0 then Inl ZeroDivisionError else Inr (dependencies, w'))"

text \<open>The blocking relation of a list of records: an edge from the dependent task to its
  blocker.\<close>
definition dep_key :: "TaskDependency \<Rightarrow> string \<times> string" where
  "dep_key d = (dependent_task_id d, dependency_task_id d)"

definition dependency_graph :: "TaskDependency list \<Rightarrow> (string \<times> string) set" where
  "dependency_graph ds = set (map dep_key ds)"

fun index_of :: "'a \<Rightarrow> 'a list \<Rightarrow> nat" where
  "index_of x [] = 0"
| "index_of x (y # ys) = (if x = y then 0 else Suc (index_of x ys))"
section \<open>Properties of the dependency generator\<close>

lemma sample_subset: "set (fst (sample xs k w)) \<subseteq> set xs"
proof (induction xs k w rule: sample.induct)
  case (1 xs w)
  then show ?case by simp
next
  case (2 xs k w)
  show ?case
  proof (cases "xs = []")
    case True
    then show ?thesis by simp
  next
    case False
    define j where "j = fst (draw w) mod length xs"
    define w1 where "w1 = snd (draw w)"
    have jlt: "j < length xs" using False by (simp add: j_def)
    have "set (fst (sample (take j xs @ drop (Suc j) xs) k w1)) \<subseteq> set (take j xs @ drop (Suc j) xs)"
      using "2.IH" [OF False, of "draw w" "fst (draw w)" w1 j] by (simp add: j_def w1_def)
    also have "\<dots> \<subseteq> set xs"
      using set_take_subset [of j xs] set_drop_subset [of "Suc j" xs] by auto
    finally have rec: "set (fst (sample (take j xs @ drop (Suc j) xs) k w1)) \<subseteq> set xs" .
    have "fst (sample xs (Suc k) w) = xs ! j # fst (sample (take j xs @ drop (Suc j) xs) k w1)"
      using False by (simp add: case_prod_beta Let_def j_def w1_def)
    with rec jlt show ?thesis by auto
  qed
qed

text \<open>What one dependent task contributes: records from it to the chosen blockers, one to
  24 hours after its creation, with keys that are new.\<close>
lemma add_blockers_props:
  assumes "add_blockers dtask bl seen w = (ds, seen', w')"
  shows "(\<forall>d \<in> set ds. dependent_task_id d = task_id dtask
            \<and> (\<exists>b \<in> set bl. dependency_task_id d = task_id b)
            \<and> Task.created_at dtask + hours 1 \<le> TaskDependency.created_at d)
       \<and> seen' = seen \<union> set (map dep_key ds)
       \<and> distinct (map dep_key ds)
       \<and> set (map dep_key ds) \<inter> seen = {}"
  using assms
proof (induction bl arbitrary: seen w ds seen' w')
  case Nil
  then show ?case by simp
next
  case (Cons b bl)
  show ?case
  proof (cases "(task_id dtask, task_id b) \<in> seen")
    case True
    with Cons.prems have "add_blockers dtask bl seen w = (ds, seen', w')" by simp
    from Cons.IH [OF this] show ?thesis by auto
  next
    case False
    define w1 where "w1 = snd (uuid4 w)"
    define h where "h = fst (randint 1 24 w1)"
    define w2 where "w2 = snd (randint 1 24 w1)"
    define d0 where "d0 = \<lparr>dependency_id = fst (uuid4 w), dependent_task_id = task_id dtask,
        dependency_task_id = task_id b,
        TaskDependency.created_at = Task.created_at dtask + hours h\<rparr>"
    obtain ds1 s1 w3 where rec:
      "add_blockers dtask bl (insert (task_id dtask, task_id b) seen) w2 = (ds1, s1, w3)"
      by (metis prod_cases3)
    from Cons.prems False rec have res: "ds = d0 # ds1" "seen' = s1"
      by (simp_all add: Let_def case_prod_beta d0_def h_def w1_def w2_def)
    have hge: "1 \<le> h" unfolding h_def using randint_range [of 1 24 w1] by simp
    have d0_ok: "dependent_task_id d0 = task_id dtask" "dependency_task_id d0 = task_id b"
      "Task.created_at dtask + hours 1 \<le> TaskDependency.created_at d0"
      "dep_key d0 = (task_id dtask, task_id b)"
      using hge by (simp_all add: d0_def dep_key_def hours_def us_per_hour_def)
    from Cons.IH [OF rec] have ih:
      "\<forall>d \<in> set ds1. dependent_task_id d = task_id dtask
            \<and> (\<exists>b \<in> set bl. dependency_task_id d = task_id b)
            \<and> Task.created_at dtask + hours 1 \<le> TaskDependency.created_at d"
      "s1 = insert (task_id dtask, task_id b) seen \<union> set (map dep_key ds1)"
      "distinct (map dep_key ds1)"
      "set (map dep_key ds1) \<inter> insert (task_id dtask, task_id b) seen = {}"
      by auto
    have a: "\<forall>d \<in> set ds. dependent_task_id d = task_id dtask
            \<and> (\<exists>c \<in> set (b # bl). dependency_task_id d = task_id c)
            \<and> Task.created_at dtask + hours 1 \<le> TaskDependency.created_at d"
      using ih(1) d0_ok res(1) by auto
    have b: "seen' = seen \<union> set (map dep_key ds)"
      using ih(2) d0_ok(4) res by auto
    have c: "distinct (map dep_key ds)"
      using ih(3,4) d0_ok(4) res(1) by auto
    have d: "set (map dep_key ds) \<inter> seen = {}"
      using ih(4) d0_ok(4) res(1) False by auto
    from a b c d show ?thesis by blast
  qed
qed

text \<open>A record is an edge of a task list when it leads from a task of the list to a task
  at an earlier position, and was created an hour or more after the dependent task.\<close>
definition edge_in :: "Task list \<Rightarrow> TaskDependency \<Rightarrow> bool" where
  "edge_in ptasks d \<longleftrightarrow>
     (\<exists>a b. b < a \<and> a < length ptasks
        \<and> dependent_task_id d = task_id (ptasks ! a)
        \<and> dependency_task_id d = task_id (ptasks ! b)
        \<and> Task.created_at (ptasks ! a) + hours 1 \<le> TaskDependency.created_at d)"

lemma dependencies_from_props:
  assumes "dependencies_from ptasks i todo seen w = (ds, seen', w')"
    and "todo = drop i ptasks"
  shows "(\<forall>d \<in> set ds. edge_in ptasks d)
       \<and> seen' = seen \<union> set (map dep_key ds)
       \<and> distinct (map dep_key ds)
       \<and> set (map dep_key ds) \<inter> seen = {}"
  using assms
proof (induction todo arbitrary: i seen w ds seen' w')
  case Nil
  then show ?case by simp
next
  case (Cons t todo)
  from Cons.prems(2) have ilt: "i < length ptasks"
    by (metis drop_all list.distinct(1) not_le)
  from Cons.prems(2) have ti: "ptasks ! i = t"
    by (metis nth_via_drop)
  from Cons.prems(2) have todo: "todo = drop (Suc i) ptasks"
    by (metis drop_Suc list.sel(3) tl_drop)
  define has where "has = fst (should_have_dependency w)"
  define w1 where "w1 = snd (should_have_dependency w)"
  show ?case
  proof (cases "has \<and> take i ptasks \<noteq> []")
    case False
    with Cons.prems(1) have "dependencies_from ptasks (Suc i) todo seen w1 = (ds, seen', w')"
      by (auto simp: Let_def case_prod_beta has_def w1_def split: if_splits)
    from Cons.IH [OF this todo] show ?thesis .
  next
    case True
    define n where "n = fst (sample_num_dependencies w1)"
    define w2 where "w2 = snd (sample_num_dependencies w1)"
    define bl where "bl = fst (sample (take i ptasks) (min n (length (take i ptasks))) w2)"
    define w3 where "w3 = snd (sample (take i ptasks) (min n (length (take i ptasks))) w2)"
    obtain ds1 s1 w4 where ab: "add_blockers t bl seen w3 = (ds1, s1, w4)"
      by (metis prod_cases3)
    obtain ds2 s2 w5 where rec: "dependencies_from ptasks (Suc i) todo s1 w4 = (ds2, s2, w5)"
      by (metis prod_cases3)
    from Cons.prems(1) True ab rec have res: "ds = ds1 @ ds2" "seen' = s2"
      by (simp_all add: Let_def case_prod_beta has_def w1_def n_def w2_def bl_def w3_def)
    from add_blockers_props [OF ab] have p1:
      "\<forall>d \<in> set ds1. dependent_task_id d = task_id t
            \<and> (\<exists>b \<in> set bl. dependency_task_id d = task_id b)
            \<and> Task.created_at t + hours 1 \<le> TaskDependency.created_at d"
      "s1 = seen \<union> set (map dep_key ds1)"
      "distinct (map dep_key ds1)"
      "set (map dep_key ds1) \<inter> seen = {}"
      by auto
    from Cons.IH [OF rec todo] have p2:
      "\<forall>d \<in> set ds2. edge_in ptasks d"
      "s2 = s1 \<union> set (map dep_key ds2)"
      "distinct (map dep_key ds2)"
      "set (map dep_key ds2) \<inter> s1 = {}"
      by auto
    have bl_sub: "set bl \<subseteq> set (take i ptasks)"
      unfolding bl_def by (rule sample_subset)
    have e1: "\<forall>d \<in> set ds1. edge_in ptasks d"
    proof
      fix d assume "d \<in> set ds1"
      with p1(1) obtain b where b: "b \<in> set bl" "dependency_task_id d = task_id b"
        and dd: "dependent_task_id d = task_id t"
          "Task.created_at t + hours 1 \<le> TaskDependency.created_at d"
        by blast
      from b(1) bl_sub obtain j where j: "j < length (take i ptasks)" "take i ptasks ! j = b"
        by (metis in_set_conv_nth subsetD)
      then have "j < i" "ptasks ! j = b" by simp_all
      with ilt ti b(2) dd show "edge_in ptasks d"
        unfolding edge_in_def by blast
    qed
    have a: "\<forall>d \<in> set ds. edge_in ptasks d" using e1 p2(1) res(1) by auto
    have b: "seen' = seen \<union> set (map dep_key ds)" using p1(2) p2(2) res by auto
    have c: "distinct (map dep_key ds)" using p1(2,3) p2(3,4) res(1) by auto
    have d: "set (map dep_key ds) \<inter> seen = {}" using p1(2,4) p2(4) res(1) by auto
    from a b c d show ?thesis by blast
  qed
qed

lemma dependencies_of_projects_props:
  assumes "dependencies_of_projects groups seen w = (ds, seen', w')"
  shows "(\<forall>d \<in> set ds. \<exists>ptasks \<in> set groups. edge_in ptasks d)
       \<and> seen' = seen \<union> set (map dep_key ds)
       \<and> distinct (map dep_key ds)
       \<and> set (map dep_key ds) \<inter> seen = {}"
  using assms
proof (induction groups arbitrary: seen w ds seen' w')
  case Nil
  then show ?case by simp
next
  case (Cons g groups)
  show ?case
  proof (cases "length g < 2")
    case True
    with Cons.prems have "dependencies_of_projects groups seen w = (ds, seen', w')" by simp
    from Cons.IH [OF this] show ?thesis by auto
  next
    case False
    obtain ds1 s1 w1 where df: "dependencies_from g 0 g seen w = (ds1, s1, w1)"
      by (metis prod_cases3)
    obtain ds2 s2 w2 where rec: "dependencies_of_projects groups s1 w1 = (ds2, s2, w2)"
      by (metis prod_cases3)
    from Cons.prems False df rec have res: "ds = ds1 @ ds2" "seen' = s2"
      by (simp_all add: Let_def)
    from dependencies_from_props [OF df] have p1:
      "\<forall>d \<in> set ds1. edge_in g d"
      "s1 = seen \<union> set (map dep_key ds1)"
      "distinct (map dep_key ds1)"
      "set (map dep_key ds1) \<inter> seen = {}"
      by auto
    from Cons.IH [OF rec] have p2:
      "\<forall>d \<in> set ds2. \<exists>ptasks \<in> set groups. edge_in ptasks d"
      "s2 = s1 \<union> set (map dep_key ds2)"
      "distinct (map dep_key ds2)"
      "set (map dep_key ds2) \<inter> s1 = {}"
      by auto
    have a: "\<forall>d \<in> set ds. \<exists>ptasks \<in> set (g # groups). edge_in ptasks d"
      using p1(1) p2(1) res(1) by auto
    have b: "seen' = seen \<union> set (map dep_key ds)" using p1(2) p2(2) res by auto
    have c: "distinct (map dep_key ds)" using p1(2,3) p2(3,4) res(1) by auto
    have d: "set (map dep_key ds) \<inter> seen = {}" using p1(2,4) p2(4) res(1) by auto
    from a b c d show ?thesis by blast
  qed
qed
lemma index_of_nth: "distinct xs \<Longrightarrow> i < length xs \<Longrightarrow> index_of (xs ! i) xs = i"
proof (induction xs arbitrary: i)
  case Nil
  then show ?case by simp
next
  case (Cons x xs)
  then show ?case by (cases i) auto
qed

lemma sorted_group:
  assumes "g \<in> set (map (\<lambda>(k, ts). sort_key Task.created_at ts) (tasks_by_project tasks))"
  shows "\<exists>k. g = filter (\<lambda>t. Task.project_id t = k) (sort_key Task.created_at tasks)"
proof -
  from assms obtain k where "g = sort_key Task.created_at (filter (\<lambda>t. Task.project_id t = k) tasks)"
    by (auto simp: tasks_by_project_def)
  then show ?thesis by (auto simp: filter_sort)
qed

text \<open>Along every edge of a sorted group, the blocker was created no later than the dependent
  task and stands before it in the list of all tasks sorted by creation.\<close>
lemma edge_in_group:
  assumes d: "distinct (map task_id tasks)"
    and g: "g = filter P (sort_key Task.created_at tasks)"
    and e: "edge_in g x"
  shows "\<exists>ta \<in> set tasks. \<exists>tb \<in> set tasks.
           dependent_task_id x = task_id ta \<and> dependency_task_id x = task_id tb
         \<and> Task.created_at tb \<le> Task.created_at ta
         \<and> Task.created_at ta + hours 1 \<le> TaskDependency.created_at x
         \<and> index_of (task_id tb) (map task_id (sort_key Task.created_at tasks))
             < index_of (task_id ta) (map task_id (sort_key Task.created_at tasks))"
proof -
  let ?G = "sort_key Task.created_at tasks"
  let ?I = "map task_id ?G"
  let ?r = "\<lambda>t. index_of (task_id t) ?I"
  from e obtain a b where ab: "b < a" "a < length g"
    and ids: "dependent_task_id x = task_id (g ! a)" "dependency_task_id x = task_id (g ! b)"
    and late: "Task.created_at (g ! a) + hours 1 \<le> TaskDependency.created_at x"
    unfolding edge_in_def by blast
  have dI: "distinct ?I"
    using d by (simp add: distinct_map)
  have "sorted_wrt (\<lambda>s t. ?r s < ?r t) ?G"
    unfolding sorted_wrt_iff_nth_less
  proof (intro allI impI)
    fix i j assume ij: "i < j" "j < length ?G"
    then have "?r (?G ! i) = i" "?r (?G ! j) = j"
      using index_of_nth [OF dI, of i] index_of_nth [OF dI, of j] by simp_all
    with ij show "?r (?G ! i) < ?r (?G ! j)" by simp
  qed
  then have "sorted_wrt (\<lambda>s t. ?r s < ?r t) g"
    unfolding g by (rule sorted_wrt_filter)
  from sorted_wrt_nth_less [OF this ab] have rank: "?r (g ! b) < ?r (g ! a)" .
  have "sorted (map Task.created_at ?G)" by simp
  then have "sorted_wrt (\<lambda>s t. Task.created_at s \<le> Task.created_at t) ?G"
    by (simp add: sorted_wrt_map)
  then have "sorted_wrt (\<lambda>s t. Task.created_at s \<le> Task.created_at t) g"
    unfolding g by (rule sorted_wrt_filter)
  from sorted_wrt_nth_less [OF this ab] have time: "Task.created_at (g ! b) \<le> Task.created_at (g ! a)" .
  have "set g \<subseteq> set tasks" unfolding g by auto
  with ab have mem: "g ! a \<in> set tasks" "g ! b \<in> set tasks"
    by (auto simp: subset_iff)
  from mem ids time late rank show ?thesis by blast
qed

lemma dependency_generate_edges:
  assumes run: "dependency_generate tasks w = Inr (deps, w')"
    and d: "distinct (map task_id tasks)"
    and x: "x \<in> set deps"
  shows "\<exists>ta \<in> set tasks. \<exists>tb \<in> set tasks.
           dependent_task_id x = task_id ta \<and> dependency_task_id x = task_id tb
         \<and> Task.created_at tb \<le> Task.created_at ta
         \<and> Task.created_at ta + hours 1 \<le> TaskDependency.created_at x
         \<and> index_of (task_id tb) (map task_id (sort_key Task.created_at tasks))
             < index_of (task_id ta) (map task_id (sort_key Task.created_at tasks))"
proof -
  let ?groups = "map (\<lambda>(k, ts). sort_key Task.created_at ts) (tasks_by_project tasks)"
  obtain ds s wend where dp: "dependencies_of_projects ?groups {} w = (ds, s, wend)"
    by (metis prod_cases3)
  with run have "deps = ds"
    by (auto simp: dependency_generate_def Let_def split: if_splits)
  with dependencies_of_projects_props [OF dp] x obtain g where "g \<in> set ?groups" "edge_in g x"
    by blast
  with sorted_group [of g tasks] obtain k where
    "g = filter (\<lambda>t. Task.project_id t = k) (sort_key Task.created_at tasks)" "edge_in g x"
    by blast
  then show ?thesis by (rule edge_in_group [OF d])
qed

lemma dependency_generate_distinct:
  assumes "dependency_generate tasks w = Inr (deps, w')"
  shows "distinct (map dep_key deps)"
proof -
  let ?groups = "map (\<lambda>(k, ts). sort_key Task.created_at ts) (tasks_by_project tasks)"
  obtain ds s wend where dp: "dependencies_of_projects ?groups {} w = (ds, s, wend)"
    by (metis prod_cases3)
  with assms have "deps = ds"
    by (auto simp: dependency_generate_def Let_def split: if_splits)
  with dependencies_of_projects_props [OF dp] show ?thesis by blast
qed

text \<open>Three tasks of one project, the second created a microsecond after the other two,
  and a world in which every task is given one dependency.\<close>

definition three_tasks :: "Task list" where
  "three_tasks = [example_task,
     example_task\<lparr>task_id := ''t2'', Task.created_at := 7808400000001\<rparr>,
     example_task\<lparr>task_id := ''t3''\<rparr>]"

definition dependency_world :: world where
  "dependency_world = \<lparr>entropy = [], uuids = [''d1'', ''d2''], clock = 8683200000000, ticks = []\<rparr>"

definition three_dependencies :: "TaskDependency list" where
  "three_dependencies =
     [\<lparr>dependency_id = ''d1'', dependent_task_id = ''t3'', dependency_task_id = ''t1'',
       TaskDependency.created_at = 7812000000000\<rparr>,
      \<lparr>dependency_id = ''d2'', dependent_task_id = ''t2'', dependency_task_id = ''t1'',
       TaskDependency.created_at = 7812000000001\<rparr>]"

lemmas dependency_generator_defs = dependency_generate_def tasks_by_project_def
  should_have_dependency_def sample_num_dependencies_def choices_def

lemma three_tasks_run:
  "dependency_generate three_tasks dependency_world
     = Inr (three_dependencies, \<lparr>entropy = [], uuids = [], clock = 8683200000000, ticks = []\<rparr>)"
  by (simp add: dependency_generator_defs time_defs world_defs Let_def three_tasks_def
      dependency_world_def three_dependencies_def example_task_def)

text \<open>
  Claim C2.  The task ids are \<open>uuid4\<close> identifiers, pairwise different in the data model.
  For every such list of tasks and every record that the dependency generator returns for
  it: the record leads from a task of the list to another task of the list, the blocker's
  \<open>created_at\<close> is at most the dependent task's, the two ids differ, no pair
  (dependent, blocker) occurs twice, and the graph of all records is acyclic.
\<close>

theorem dependencies_ordered_acyclic:
  assumes run: "dependency_generate tasks w = Inr (deps, w')"
    and d: "distinct (map task_id tasks)"
  shows "(\<forall>x \<in> set deps. \<exists>ta \<in> set tasks. \<exists>tb \<in> set tasks.
            dependent_task_id x = task_id ta \<and> dependency_task_id x = task_id tb
          \<and> Task.created_at tb \<le> Task.created_at ta)
       \<and> (\<forall>x \<in> set deps. dependent_task_id x \<noteq> dependency_task_id x)
       \<and> distinct (map dep_key deps)
       \<and> acyclic (dependency_graph deps)"
proof -
  let ?r = "\<lambda>i. index_of i (map task_id (sort_key Task.created_at tasks))"
  have rank: "?r (dependency_task_id x) < ?r (dependent_task_id x)" if "x \<in> set deps" for x
    using dependency_generate_edges [OF run d that] by auto
  have first: "\<forall>x \<in> set deps. \<exists>ta \<in> set tasks. \<exists>tb \<in> set tasks.
            dependent_task_id x = task_id ta \<and> dependency_task_id x = task_id tb
          \<and> Task.created_at tb \<le> Task.created_at ta"
    using dependency_generate_edges [OF run d] by blast
  have second: "\<forall>x \<in> set deps. dependent_task_id x \<noteq> dependency_task_id x"
    using rank by fastforce
  have "acyclic (dependency_graph deps)"
  proof (rule acyclicI_order [where f = ?r])
    fix a b assume "(a, b) \<in> dependency_graph deps"
    then obtain x where "x \<in> set deps" "a = dependent_task_id x" "b = dependency_task_id x"
      by (auto simp: dependency_graph_def dep_key_def)
    with rank show "?r b < ?r a" by simp
  qed
  with first second dependency_generate_distinct [OF run] show ?thesis by blast
qed

text \<open>The theorem at the three tasks: \<open>t3\<close> and \<open>t2\<close> are both blocked by \<open>t1\<close>.\<close>

theorem dependencies_ordered_acyclic_witness:
  "dependency_generate three_tasks dependency_world
     = Inr (three_dependencies, \<lparr>entropy = [], uuids = [], clock = 8683200000000, ticks = []\<rparr>)
   \<and> distinct (map task_id three_tasks)
   \<and> list_all (\<lambda>x. dependent_task_id x \<noteq> dependency_task_id x) three_dependencies
   \<and> distinct (map dep_key three_dependencies)
   \<and> acyclic (dependency_graph three_dependencies)"
proof -
  have d: "distinct (map task_id three_tasks)"
    by (simp add: three_tasks_def example_task_def)
  from dependencies_ordered_acyclic [OF three_tasks_run d] three_tasks_run d
  show ?thesis by (simp add: list_all_iff)
qed

section \<open>Project generator (generators/projects.py)\<close>

record Organization =
  organization_id :: string
  name :: string
  domain :: string
  is_organization :: bool
  created_at :: datetime

record Team =
  team_id :: string
  organization_id :: string
  name :: string
  team_type :: string
  description :: "string option"
  privacy :: string
  created_at :: datetime

text \<open>A project template, with the keys that the generator reads.\<close>
record project_template =
  template_type :: string
  weight :: rat
  duration_days_range :: "(int \<times> int) option"

text \<open>\<open>random.choice\<close> on a list that is written out in the source and not empty.\<close>
definition choice_of :: "'a list \<Rightarrow> world \<Rightarrow> 'a \<times> world" where
  "choice_of xs w = (let (r, w') = draw w in (xs ! (r mod length xs), w'))"

text \<open>\<open>str(n)\<close> for a natural number.\<close>
function str_nat :: "nat \<Rightarrow> string" where
  "str_nat n = (if n < 10 then [char_of (48 + n)]
                else str_nat (n div 10) @ [char_of (48 + n mod 10)])"
  by pat_completeness auto
termination
  by (relation "measure id") auto

definition upper_char :: "char \<Rightarrow> char" where
  "upper_char c = (let n = (of_char c :: nat) in if 97 \<le> n \<and> n \<le> 122 then char_of (n - 32) else c)"

definition is_letter :: "char \<Rightarrow> bool" where
  "is_letter c = (let n = (of_char c :: nat) in (65 \<le> n \<and> n \<le> 90) \<or> (97 \<le> n \<and> n \<le> 122))"

text \<open>\<open>s.title()\<close> on ASCII text: a letter is upper-cased after a non-letter and lower-cased
  after a letter.\<close>
fun title_from :: "bool \<Rightarrow> string \<Rightarrow> string" where
  "title_from after_letter [] = []"
| "title_from after_letter (c # cs) =
     (if is_letter c
      then (if after_letter then lower_char c else upper_char c) # title_from True cs
      else c # title_from False cs)"

definition sample_project_type ::
  "project_template list \<Rightarrow> world \<Rightarrow> error + (project_template \<times> world)" where
  "sample_project_type templates w =
     (if templates = [] then Inl IndexError
      else let (selected_type, w1) = choices (map template_type templates) (map weight templates) w
           in case find (\<lambda>t. template_type t = selected_type) templates of
                None \<Rightarrow> Inl IndexError
              | Some t \<Rightarrow> Inr (t, w1))"

definition generate_project_name :: "string \<Rightarrow> string \<Rightarrow> world \<Rightarrow> string \<times> world" where
  "generate_project_name ptype ttype w =
     (if ptype = ''sprint''
      then (let (quarter, w1) = choice_of [''Q1'', ''Q2'', ''Q3'', ''Q4''] w;
                (year, w2) = choice_of [''2025'', ''2026''] w1;
                (sprint_num, w3) = randint 1 12 w2
            in (ttype @ '' '' @ quarter @ '' '' @ year @ '' Sprint '' @ str_nat (nat sprint_num), w3))
      else if ptype = ''campaign''
      then (let (n, w1) = randint 1 4 w;
                (quarter, w2) = choice_of [''Q1'', ''Q2'', ''Q3'', ''Q4''] w1
            in choice_of [ttype @ '' Product Launch'', ttype @ '' Growth Campaign'',
                          ''Holiday Campaign '' @ str_nat (nat n), ttype @ '' Brand Awareness'',
                          ''Lead Generation '' @ quarter] w2)
      else if ptype = ''bug_tracking'' then (ttype @ '' Bug Tracker'', w)
      else if ptype = ''roadmap''
      then (let (year, w1) = choice_of [''2025'', ''2026''] w in (ttype @ '' '' @ year @ '' Roadmap'', w1))
      else if ptype = ''ongoing''
      then choice_of [ttype @ '' Operations'', ttype @ '' Daily Tasks'', ttype @ '' Backlog'',
                      ttype @ '' Workspace''] w
      else (ttype @ '' ''
              @ title_from False (map (\<lambda>c. if c = CHR ''_'' then CHR '' '' else c) ptype)
              @ '' Project'', w))"

definition generate_project_description :: "string \<Rightarrow> string \<Rightarrow> world \<Rightarrow> string option \<times> world" where
  "generate_project_description project_name ptype w =
     (let (u, w1) = random_random w
      in if u < 20 / 100 then (None, w1)
         else (Some (dict_get
                 [(''sprint'', ''Sprint project for '' @ project_name
                      @ ''. Track tasks and deliverables for this sprint cycle.''),
                  (''campaign'', ''Marketing campaign project. Plan, execute, and measure campaign performance.''),
                  (''bug_tracking'', ''Track and resolve bugs and technical issues.''),
                  (''roadmap'', ''Product roadmap planning and prioritization.''),
                  (''ongoing'', ''Ongoing operational tasks and maintenance work.'')]
                 ptype (''Project workspace for '' @ project_name)), w1))"

definition sample_project_status :: "string \<Rightarrow> int \<Rightarrow> world \<Rightarrow> string \<times> world" where
  "sample_project_status ptype age_days w =
     (let weights = (if age_days < 30 then [75 / 100, 10 / 100, 10 / 100, 5 / 100]
                     else if age_days < 90 then [50 / 100, 30 / 100, 15 / 100, 5 / 100]
                     else [20 / 100, 50 / 100, 25 / 100, 5 / 100])
      in choices [''active'', ''completed'', ''archived'', ''on_hold''] weights w)"

definition sample_project_privacy :: "world \<Rightarrow> string \<times> world" where
  "sample_project_privacy w = choices [''team'', ''public'', ''private''] [80 / 100, 15 / 100, 5 / 100] w"

definition sample_project_color :: "world \<Rightarrow> string \<times> world" where
  "sample_project_color w =
     choice_of [''blue'', ''green'', ''red'', ''yellow'', ''purple'', ''orange'', ''pink'', ''teal'',
                ''brown'', ''gray'', ''light-blue'', ''light-green''] w"

text \<open>\<open>_sample_project_dates\<close>: the start and the due date.  The duration is drawn from the
  template's range, an empty range raising ValueError.\<close>
definition sample_project_dates ::
  "datetime \<Rightarrow> datetime \<Rightarrow> project_template \<Rightarrow> world \<Rightarrow> error + ((date \<times> date) \<times> world)" where
  "sample_project_dates org_created_at team_created_at template w =
     (let earliest = max org_created_at team_created_at;
          (now, w1) = utcnow w;
          days_since_earliest = td_days (now - earliest);
          (start_offset, w2) = randint 0 (max 1 days_since_earliest) w1;
          start_datetime = earliest + days start_offset;
          start = date_of start_datetime;
          duration_range = (case duration_days_range template of Some r \<Rightarrow> r | None \<Rightarrow> (14, 90))
      in if fst duration_range > snd duration_range then Inl ValueError
         else let (duration, w3) = randint (fst duration_range) (snd duration_range) w2
              in Inr ((start, start + duration), w3))"

text \<open>\<open>_sample_completed_at\<close> of a project that is completed or archived, in the steps of
  the source.  First the sample, on time or late.\<close>
definition project_completed_sampled :: "date \<Rightarrow> date \<Rightarrow> world \<Rightarrow> datetime \<times> world" where
  "project_completed_sampled start due w =
     (let start_dt = combine_min start;
          due_dt = combine_min due;
          (u, w1) = random_random w
      in if u < 70 / 100
         then (let total_days = td_days (due_dt - start_dt);
                   (completion_offset, w2) =
                     (if total_days > 0
                      then randint (py_int (of_int total_days * (5 / 10))) total_days w1
                      else (0, w1))
               in (start_dt + days completion_offset, w2))
         else (let (overrun_days, w2) =
                     randint 1 (max 1 (py_int (of_int (td_days (due_dt - start_dt)) * (5 / 10)))) w1
               in (due_dt + days overrun_days, w2)))"

text \<open>"Ensure not in future".\<close>
definition project_completed_not_future :: "date \<Rightarrow> datetime \<Rightarrow> datetime \<Rightarrow> world \<Rightarrow> datetime \<times> world" where
  "project_completed_not_future start now c w =
     (if c > now
      then (let days_available = td_days (now - combine_min start)
            in if days_available > 0
               then (let (completion_offset, w1) = randint 0 days_available w
                     in (combine_min start + days completion_offset, w1))
               else (let (h, w1) = randint 1 48 w in (now - hours h, w1)))
      else (c, w))"

text \<open>"Add random hour" and the two "absolute final constraints".\<close>
definition project_completed_final :: "date \<Rightarrow> datetime \<Rightarrow> datetime \<Rightarrow> world \<Rightarrow> datetime \<times> world" where
  "project_completed_final start now c w =
     (let (hour, w1) = randint 8 17 w;
          c1 = replace_hm c hour 0;
          (c2, w2) = (if date_of c1 < start
                      then (let (h, w') = randint 8 17 w1 in (replace_hm (combine_min start) h 0, w'))
                      else (c1, w1))
      in if c2 > now
         then (let (back, w3) = randint 1 48 w2;
                   (h, w4) = randint 8 17 w3
               in (replace_hm (now - hours back) h 0, w4))
         else (c2, w2))"

definition project_sample_completed_at ::
  "date \<Rightarrow> date \<Rightarrow> string \<Rightarrow> world \<Rightarrow> datetime option \<times> world" where
  "project_sample_completed_at start due stat w =
     (if stat \<notin> set [''completed'', ''archived''] then (None, w)
      else let (now, w1) = utcnow w;
               (c1, w2) = project_completed_sampled start due w1;
               (c2, w3) = project_completed_not_future start now c1 w2;
               (c3, w4) = project_completed_final start now c2 w3
           in (Some c3, w4))"

definition project_sample_created_at :: "date \<Rightarrow> world \<Rightarrow> datetime \<times> world" where
  "project_sample_created_at start w =
     (let start_dt = combine_min start;
          (days_before, w1) = randint 0 14 w;
          (hour, w2) = randint 8 17 w1
      in (replace_hm (start_dt - days days_before) hour 0, w2))"

text \<open>One turn of the loop \<open>for _ in range(num_projects)\<close>.\<close>
definition generate_project ::
  "project_template list \<Rightarrow> Organization \<Rightarrow> Team \<Rightarrow> User list \<Rightarrow> world \<Rightarrow> error + (Project \<times> world)" where
  "generate_project templates org team team_users w0 =
     (case sample_project_type templates w0 of Inl e \<Rightarrow> Inl e
      | Inr (template, w1) \<Rightarrow>
     (let ptype = template_type template;
          (project_name, w2) = generate_project_name ptype (team_type team) w1;
          (descr, w3) = generate_project_description project_name ptype w2
      in case sample_project_dates (Organization.created_at org) (Team.created_at team) template w3 of
           Inl e \<Rightarrow> Inl e
         | Inr ((start, due), w4) \<Rightarrow>
     (let (now, w5) = utcnow w4;
          age_days = date_of now - start;
          (stat, w6) = sample_project_status ptype age_days w5;
          (finished, w7) = project_sample_completed_at start due stat w6
      in case choice team_users w7 of Inl e \<Rightarrow> Inl e
         | Inr (owner, w8) \<Rightarrow>
     (let (priv, w9) = sample_project_privacy w8;
          (col, w10) = sample_project_color w9;
          (created, w11) = project_sample_created_at start w10;
          (pid, w12) = uuid4 w11
      in Inr (\<lparr>Project.project_id = pid,
               Project.organization_id = Organization.organization_id org,
               Project.name = project_name, Project.team_id = Some (Team.team_id team),
               Project.description = descr, Project.owner_id = Some (user_id owner),
               Project.project_type = ptype, Project.privacy = priv, Project.status = stat,
               Project.color = Some col,
               Project.start_date = Some start, Project.due_date = Some due,
               Project.completed_at = finished,
               Project.created_at = created\<rparr>, w12)))))"

fun team_projects ::
  "nat \<Rightarrow> project_template list \<Rightarrow> Organization \<Rightarrow> Team \<Rightarrow> User list \<Rightarrow> world
   \<Rightarrow> error + (Project list \<times> world)" where
  "team_projects 0 templates org team team_users w = Inr ([], w)"
| "team_projects (Suc n) templates org team team_users w =
     (case generate_project templates org team team_users w of Inl e \<Rightarrow> Inl e
      | Inr (p, w1) \<Rightarrow>
          (case team_projects n templates org team team_users w1 of Inl e \<Rightarrow> Inl e
           | Inr (ps, w2) \<Rightarrow> Inr (p # ps, w2)))"

text \<open>The loop \<open>for team in teams\<close>.\<close>
fun projects_of_teams ::
  "project_template list \<Rightarrow> Organization \<Rightarrow> User list \<Rightarrow> Team list \<Rightarrow> world
   \<Rightarrow> error + (Project list \<times> world)" where
  "projects_of_teams templates org users [] w = Inr ([], w)"
| "projects_of_teams templates org users (team # rest) w =
     (let (num_projects, w1) = randint 3 5 w;
          team_users = filter (\<lambda>u. department u = Some (team_type team)) users;
          team_users = (if team_users = [] then users else team_users)
      in case team_projects (nat num_projects) templates org team team_users w1 of
           Inl e \<Rightarrow> Inl e
         | Inr (ps, w2) \<Rightarrow>
             (case projects_of_teams templates org users rest w2 of Inl e \<Rightarrow> Inl e
              | Inr (others, w3) \<Rightarrow> Inr (ps @ others, w3)))"

text \<open>\<open>ProjectGenerator.generate\<close>; the average it prints divides by \<open>len(teams)\<close>.\<close>
definition project_generate ::
  "project_template list \<Rightarrow> Organization \<Rightarrow> Team list \<Rightarrow> User list \<Rightarrow> world
   \<Rightarrow> error + (Project list \<times> world)" where
  "project_generate templates org teams users w =
     (case projects_of_teams templates org users teams w of Inl e \<Rightarrow> Inl e
      | Inr (projects, w') \<Rightarrow>
          if length teams = 0 then Inl ZeroDivisionError else Inr (projects, w'))"
text \<open>Example data: the fallback templates of the generator, an organization created at
  09:00 of day 0, its Engineering team created at 09:00 of day 50, and a clock that stands
  at 09:30 of day 100.\<close>

definition fallback_templates :: "project_template list" where
  "fallback_templates =
     [\<lparr>template_type = ''sprint'', weight = 35 / 100, duration_days_range = Some (10, 21)\<rparr>,
      \<lparr>template_type = ''ongoing'', weight = 25 / 100, duration_days_range = Some (60, 365)\<rparr>,
      \<lparr>template_type = ''bug_tracking'', weight = 15 / 100, duration_days_range = Some (30, 180)\<rparr>,
      \<lparr>template_type = ''campaign'', weight = 15 / 100, duration_days_range = Some (30, 90)\<rparr>,
      \<lparr>template_type = ''roadmap'', weight = 10 / 100, duration_days_range = Some (90, 365)\<rparr>]"

definition example_org :: Organization where
  "example_org = \<lparr>Organization.organization_id = ''o1'', Organization.name = ''Acme'',
     domain = ''acme.com'', is_organization = True, Organization.created_at = 32400000000\<rparr>"

definition example_team :: Team where
  "example_team = \<lparr>Team.team_id = ''t1'', Team.organization_id = ''o1'', Team.name = ''Core'',
     team_type = ''Engineering'', Team.description = None, Team.privacy = ''public'',
     Team.created_at = 4352400000000\<rparr>"

definition project_world :: "nat \<Rightarrow> world" where
  "project_world back =
     \<lparr>entropy = [0, 0, 0, 0, 0, 0, 50, 0, 7205759403792794, 0, 0, 0, 9, back, 9],
      uuids = [''p1'', ''p2'', ''p3''], clock = 8674200000000, ticks = []\<rparr>"
section \<open>Properties of the project generator\<close>

lemma date_of_combine_min [simp]: "date_of (combine_min d) = d"
  by (simp add: date_of_def combine_min_def us_per_day_def)

lemma date_of_plus_days [simp]: "date_of (t + days n) = date_of t + n"
  by (simp add: date_of_def days_def us_per_day_def)

lemma date_of_minus_days [simp]: "date_of (t - days n) = date_of t - n"
  using date_of_plus_days [of "t - days n" n] by simp

lemma date_of_mono: "s \<le> t \<Longrightarrow> date_of s \<le> date_of t"
  by (simp add: date_of_def us_per_day_def zdiv_mono1)

lemma date_of_replace_hm:
  assumes "0 \<le> h" "h < 24" "0 \<le> m" "m < 60"
  shows "date_of (replace_hm t h m) = date_of t"
proof -
  have "0 \<le> h * 3600000000 + m * 60000000" "h * 3600000000 + m * 60000000 < 86400000000"
    using assms by auto
  then have "(date_of t * 86400000000 + (h * 3600000000 + m * 60000000)) div 86400000000 = date_of t"
    by (simp add: div_pos_pos_trivial)
  then show ?thesis
    by (simp add: replace_hm_def date_of_def combine_min_def hours_def minutes_def us_per_day_def
        us_per_hour_def us_per_minute_def add.assoc)
qed

lemma project_sample_completed_at_iff:
  "fst (project_sample_completed_at start due stat w) \<noteq> None
     \<longleftrightarrow> stat = ''completed'' \<or> stat = ''archived''"
  by (simp add: project_sample_completed_at_def case_prod_beta)

lemma project_sample_created_at_date:
  "start - 14 \<le> date_of (fst (project_sample_created_at start w))
   \<and> date_of (fst (project_sample_created_at start w)) \<le> start"
proof -
  define k where "k = fst (randint 0 14 w)"
  define hour where "hour = fst (randint 8 17 (snd (randint 0 14 w)))"
  have k: "0 \<le> k" "k \<le> 14" unfolding k_def using randint_range [of 0 14 w] by simp_all
  have h: "0 \<le> hour" "hour < 24"
    unfolding hour_def using randint_range [of 8 17 "snd (randint 0 14 w)"] by simp_all
  have "fst (project_sample_created_at start w) = replace_hm (combine_min start - days k) hour 0"
    by (simp add: project_sample_created_at_def case_prod_beta k_def hour_def)
  then have "date_of (fst (project_sample_created_at start w)) = start - k"
    using date_of_replace_hm [OF h, of 0 "combine_min start - days k"] by simp
  with k show ?thesis by simp
qed

lemma sample_project_dates_start:
  assumes "sample_project_dates org_created team_created template w = Inr ((start, due), w')"
  shows "date_of (max org_created team_created) \<le> start"
proof -
  define earliest where "earliest = max org_created team_created"
  define w1 where "w1 = snd (utcnow w)"
  define off where "off = fst (randint 0 (max 1 (td_days (fst (utcnow w) - earliest))) w1)"
  have "0 \<le> off"
    unfolding off_def using randint_range [of 0 "max 1 (td_days (fst (utcnow w) - earliest))" w1]
    by simp
  moreover from assms have "start = date_of (earliest + days off)"
    by (auto simp: sample_project_dates_def Let_def case_prod_beta earliest_def w1_def off_def
        split: if_splits simp del: utcnow_reads_clock date_of_plus_days)
  ultimately show ?thesis by (simp add: earliest_def)
qed

lemma generate_project_shape:
  assumes "generate_project templates org team team_users w = Inr (p, w')"
  shows "\<exists>start due stat w6 w10.
           Project.team_id p = Some (Team.team_id team)
         \<and> Project.start_date p = Some start
         \<and> date_of (max (Organization.created_at org) (Team.created_at team)) \<le> start
         \<and> Project.status p = stat
         \<and> Project.completed_at p = fst (project_sample_completed_at start due stat w6)
         \<and> Project.created_at p = fst (project_sample_created_at start w10)"
proof -
  from assms obtain template w1 where ty: "sample_project_type templates w = Inr (template, w1)"
    unfolding generate_project_def by (auto split: sum.splits)
  define ptype where "ptype = template_type template"
  define w2 where "w2 = snd (generate_project_name ptype (team_type team) w1)"
  define pname where "pname = fst (generate_project_name ptype (team_type team) w1)"
  define w3 where "w3 = snd (generate_project_description pname ptype w2)"
  from assms ty obtain start due w4 where
    dt: "sample_project_dates (Organization.created_at org) (Team.created_at team) template w3
           = Inr ((start, due), w4)"
    unfolding generate_project_def
    by (auto simp: Let_def case_prod_beta ptype_def w2_def pname_def w3_def split: sum.splits)
  define w5 where "w5 = snd (utcnow w4)"
  define stat where "stat = fst (sample_project_status ptype (date_of (fst (utcnow w4)) - start) w5)"
  define w6 where "w6 = snd (sample_project_status ptype (date_of (fst (utcnow w4)) - start) w5)"
  define w7 where "w7 = snd (project_sample_completed_at start due stat w6)"
  from assms ty dt obtain owner w8 where ow: "choice team_users w7 = Inr (owner, w8)"
    unfolding generate_project_def
    by (auto simp: Let_def case_prod_beta ptype_def w2_def pname_def w3_def w5_def stat_def w6_def
        w7_def split: sum.splits simp del: utcnow_reads_clock)
  define w10 where "w10 = snd (sample_project_color (snd (sample_project_privacy w8)))"
  from assms ty dt ow have
    "Project.team_id p = Some (Team.team_id team)
     \<and> Project.start_date p = Some start
     \<and> Project.status p = stat
     \<and> Project.completed_at p = fst (project_sample_completed_at start due stat w6)
     \<and> Project.created_at p = fst (project_sample_created_at start w10)"
    unfolding generate_project_def
    by (auto simp: Let_def case_prod_beta ptype_def w2_def pname_def w3_def w5_def stat_def w6_def
        w7_def w10_def split: sum.splits simp del: utcnow_reads_clock)
  with sample_project_dates_start [OF dt] show ?thesis by blast
qed

lemma team_projects_all:
  assumes "team_projects n templates org team us w = Inr (ps, w')" and "p \<in> set ps"
  shows "\<exists>w1 w2. generate_project templates org team us w1 = Inr (p, w2)"
  using assms
proof (induction n arbitrary: w ps)
  case 0
  then show ?case by simp
next
  case (Suc n)
  from Suc.prems(1) obtain p0 w1 ps0 where
    g: "generate_project templates org team us w = Inr (p0, w1)"
    and r: "team_projects n templates org team us w1 = Inr (ps0, w')"
    and ps: "ps = p0 # ps0"
    by (auto split: sum.splits)
  from Suc.prems(2) ps have "p = p0 \<or> p \<in> set ps0" by auto
  then show ?case
  proof
    assume "p = p0"
    with g show ?thesis by blast
  next
    assume "p \<in> set ps0"
    with Suc.IH [OF r] show ?thesis by blast
  qed
qed

lemma projects_of_teams_all:
  assumes "projects_of_teams templates org users teams w = Inr (ps, w')" and "p \<in> set ps"
  shows "\<exists>team us w1 w2. team \<in> set teams \<and> generate_project templates org team us w1 = Inr (p, w2)"
  using assms
proof (induction teams arbitrary: w ps)
  case Nil
  then show ?case by simp
next
  case (Cons team rest)
  from Cons.prems(1) obtain n us w1 ps1 w2 ps2 where
    tp: "team_projects n templates org team us w1 = Inr (ps1, w2)"
    and re: "projects_of_teams templates org users rest w2 = Inr (ps2, w')"
    and ps: "ps = ps1 @ ps2"
    by (auto simp: Let_def case_prod_beta split: sum.splits)
  from Cons.prems(2) ps have "p \<in> set ps1 \<or> p \<in> set ps2" by auto
  then show ?case
  proof
    assume "p \<in> set ps1"
    from team_projects_all [OF tp this] show ?thesis by auto
  next
    assume "p \<in> set ps2"
    from Cons.IH [OF re this] show ?thesis by auto
  qed
qed

lemma project_generate_all:
  assumes "project_generate templates org teams users w = Inr (ps, w')" and "p \<in> set ps"
  shows "\<exists>team us w1 w2. team \<in> set teams \<and> generate_project templates org team us w1 = Inr (p, w2)"
proof -
  from assms(1) have "projects_of_teams templates org users teams w = Inr (ps, w')"
    by (auto simp: project_generate_def split: sum.splits if_splits)
  from projects_of_teams_all [OF this assms(2)] show ?thesis .
qed

lemma dependency_generate_after_dependent:
  assumes run: "dependency_generate tasks w = Inr (deps, w')" and x: "x \<in> set deps"
  shows "\<exists>ta \<in> set tasks. dependent_task_id x = task_id ta
           \<and> Task.created_at ta + hours 1 \<le> TaskDependency.created_at x"
proof -
  let ?groups = "map (\<lambda>(k, ts). sort_key Task.created_at ts) (tasks_by_project tasks)"
  obtain ds s wend where dp: "dependencies_of_projects ?groups {} w = (ds, s, wend)"
    by (metis prod_cases3)
  with run have "deps = ds"
    by (auto simp: dependency_generate_def Let_def split: if_splits)
  with dependencies_of_projects_props [OF dp] x obtain g where g: "g \<in> set ?groups" "edge_in g x"
    by blast
  from sorted_group [OF g(1)] have sub: "set g \<subseteq> set tasks" by auto
  from g(2) obtain a where "a < length g" "dependent_task_id x = task_id (g ! a)"
    "Task.created_at (g ! a) + hours 1 \<le> TaskDependency.created_at x"
    unfolding edge_in_def by blast
  with sub show ?thesis by (meson nth_mem subsetD)
qed
lemma project_completed_at_iff_status:
  assumes "project_generate templates org teams users w = Inr (ps, w')" and "p \<in> set ps"
  shows "Project.completed_at p \<noteq> None
     \<longleftrightarrow> Project.status p = ''completed'' \<or> Project.status p = ''archived''"
proof -
  from project_generate_all [OF assms] obtain team us w1 w2 where
    "generate_project templates org team us w1 = Inr (p, w2)" by blast
  from generate_project_shape [OF this] show ?thesis
  proof (elim exE conjE)
    fix start due stat w6 w10
    assume "Project.status p = stat"
      and "Project.completed_at p = fst (project_sample_completed_at start due stat w6)"
    then show ?thesis
      using project_sample_completed_at_iff [of start due stat w6] by simp
  qed
qed

lemma team_projects_numeral:
  "team_projects (numeral k) templates org team team_users w =
     (case generate_project templates org team team_users w of Inl e \<Rightarrow> Inl e
      | Inr (p, w1) \<Rightarrow>
          (case team_projects (pred_numeral k) templates org team team_users w1 of Inl e \<Rightarrow> Inl e
           | Inr (ps, w2) \<Rightarrow> Inr (p # ps, w2)))"
  by (simp add: numeral_eq_Suc)

lemmas project_generator_defs = project_generate_def generate_project_def sample_project_type_def
  generate_project_name_def generate_project_description_def sample_project_status_def
  sample_project_privacy_def sample_project_color_def sample_project_dates_def
  project_completed_sampled_def project_completed_not_future_def project_completed_final_def
  project_sample_completed_at_def project_sample_created_at_def choice_of_def choice_def
  choices_def dict_get_def py_int_def char_of_def bit_simps

text \<open>The projects of the example runs are sprints of the Engineering team.\<close>

definition sprint_project :: "string \<Rightarrow> string \<Rightarrow> date \<Rightarrow> datetime option \<Rightarrow> datetime \<Rightarrow> Project" where
  "sprint_project pid stat start finished created =
     \<lparr>Project.project_id = pid, Project.organization_id = ''o1'',
      Project.name = ''Engineering Q1 2025 Sprint 1'', Project.team_id = Some ''t1'',
      Project.description = None, Project.owner_id = Some ''u1'',
      Project.project_type = ''sprint'', Project.privacy = ''team'', Project.status = stat,
      Project.color = Some ''blue'', Project.start_date = Some start,
      Project.due_date = Some (start + 10), Project.completed_at = finished,
      Project.created_at = created\<rparr>"

definition idle_world :: world where
  "idle_world = \<lparr>entropy = [], uuids = [], clock = 8674200000000, ticks = []\<rparr>"

lemma project_run_late:
  "project_generate fallback_templates example_org [example_team] [example_user] (project_world 0)
     = Inr ([sprint_project ''p1'' ''completed'' 100 (Some 8701200000000) 8668800000000,
             sprint_project ''p2'' ''active'' 50 None 4348800000000,
             sprint_project ''p3'' ''active'' 50 None 4348800000000], idle_world)"
  by (simp add: project_generator_defs time_defs world_defs Let_def fallback_templates_def
      example_org_def example_team_def example_user_def project_world_def sprint_project_def
      idle_world_def team_projects_numeral)

lemma project_run_early:
  "project_generate fallback_templates example_org [example_team] [example_user] (project_world 23)
     = Inr ([sprint_project ''p1'' ''completed'' 100 (Some 8614800000000) 8668800000000,
             sprint_project ''p2'' ''active'' 50 None 4348800000000,
             sprint_project ''p3'' ''active'' 50 None 4348800000000], idle_world)"
  by (simp add: project_generator_defs time_defs world_defs Let_def fallback_templates_def
      example_org_def example_team_def example_user_def project_world_def sprint_project_def
      idle_world_def team_projects_numeral)

text \<open>
  Claim C5.  \<open>completed_at\<close> is set exactly for the statuses \<open>completed\<close> and \<open>archived\<close>
  (lemma \<open>project_completed_at_iff_status\<close>), but the two bounds fail on the code.  With the
  clock at 09:30 of day 100 and a completed project that starts on day 100, the last
  constraint steps back from the future by one hour and then sets the hour to 17: the
  project is completed at 17:00 of day 100, after now.  When it steps back by 24 hours
  instead, the project is completed on day 99, before its start date.
\<close>

theorem project_completed_at_out_of_bounds:
  "project_generate fallback_templates example_org [example_team] [example_user] (project_world 0)
     = Inr ([sprint_project ''p1'' ''completed'' 100 (Some 8701200000000) 8668800000000,
             sprint_project ''p2'' ''active'' 50 None 4348800000000,
             sprint_project ''p3'' ''active'' 50 None 4348800000000], idle_world)
   \<and> clock idle_world < 8701200000000
   \<and> project_generate fallback_templates example_org [example_team] [example_user] (project_world 23)
     = Inr ([sprint_project ''p1'' ''completed'' 100 (Some 8614800000000) 8668800000000,
             sprint_project ''p2'' ''active'' 50 None 4348800000000,
             sprint_project ''p3'' ''active'' 50 None 4348800000000], idle_world)
   \<and> date_of 8614800000000 < 100"
  using project_run_late project_run_early
  by (simp add: idle_world_def date_of_def us_per_day_def)

text \<open>Two tasks of the example project, created two hours and half an hour before the
  clock of \<open>dependency_world\<close>.\<close>

definition recent_tasks :: "Task list" where
  "recent_tasks = [example_task\<lparr>Task.created_at := 8676000000000\<rparr>,
     example_task\<lparr>task_id := ''t2'', Task.created_at := 8681400000000\<rparr>]"

definition late_dependency :: TaskDependency where
  "late_dependency = \<lparr>dependency_id = ''d1'', dependent_task_id = ''t2'', dependency_task_id = ''t1'',
     TaskDependency.created_at = 8685000000000\<rparr>"

text \<open>
  Claim C4, as stated, fails on the code.  The second project of the example run is created
  at 08:00 of day 50, an hour before its team; and the dependency of a task created half an
  hour ago is created an hour after that task, half an hour after now.
\<close>

theorem created_at_outside_parent_and_now:
  "project_generate fallback_templates example_org [example_team] [example_user] (project_world 0)
     = Inr ([sprint_project ''p1'' ''completed'' 100 (Some 8701200000000) 8668800000000,
             sprint_project ''p2'' ''active'' 50 None 4348800000000,
             sprint_project ''p3'' ''active'' 50 None 4348800000000], idle_world)
   \<and> Project.team_id (sprint_project ''p2'' ''active'' 50 None 4348800000000)
       = Some (Team.team_id example_team)
   \<and> Project.created_at (sprint_project ''p2'' ''active'' 50 None 4348800000000)
       < Team.created_at example_team
   \<and> dependency_generate recent_tasks dependency_world
       = Inr ([late_dependency], \<lparr>entropy = [], uuids = [''d2''], clock = 8683200000000, ticks = []\<rparr>)
   \<and> 8683200000000 < TaskDependency.created_at late_dependency"
  using project_run_late
  by (simp add: sprint_project_def example_team_def dependency_generator_defs time_defs world_defs
      Let_def recent_tasks_def dependency_world_def late_dependency_def example_task_def)

text \<open>
  Claim C4, amended.  Every TaskDependency is created an hour or more after its dependent
  task.  Every Project belongs to a team of the input, starts on or after the day on which
  the later of its team and its organization was created, and is created on a day from 14
  days before its start date to its start date.
\<close>

theorem created_at_relative_to_parent:
  assumes "dependency_generate tasks w = Inr (deps, w')"
    and "project_generate templates org teams users v = Inr (projects, v')"
  shows "(\<forall>x \<in> set deps. \<exists>ta \<in> set tasks. dependent_task_id x = task_id ta
            \<and> Task.created_at ta + hours 1 \<le> TaskDependency.created_at x)
       \<and> (\<forall>p \<in> set projects. \<exists>team \<in> set teams. \<exists>start.
              Project.team_id p = Some (Team.team_id team)
            \<and> Project.start_date p = Some start
            \<and> date_of (max (Organization.created_at org) (Team.created_at team)) \<le> start
            \<and> start - 14 \<le> date_of (Project.created_at p)
            \<and> date_of (Project.created_at p) \<le> start)"
proof -
  have first: "\<exists>ta \<in> set tasks. dependent_task_id x = task_id ta
            \<and> Task.created_at ta + hours 1 \<le> TaskDependency.created_at x" if "x \<in> set deps" for x
    using dependency_generate_after_dependent [OF assms(1) that] .
  have second: "\<exists>team \<in> set teams. \<exists>start.
              Project.team_id p = Some (Team.team_id team)
            \<and> Project.start_date p = Some start
            \<and> date_of (max (Organization.created_at org) (Team.created_at team)) \<le> start
            \<and> start - 14 \<le> date_of (Project.created_at p)
            \<and> date_of (Project.created_at p) \<le> start" if "p \<in> set projects" for p
  proof -
    from project_generate_all [OF assms(2) that] obtain team us w1 w2 where
      team: "team \<in> set teams" and gen: "generate_project templates org team us w1 = Inr (p, w2)"
      by blast
    from generate_project_shape [OF gen] obtain start w10 where
      "Project.team_id p = Some (Team.team_id team)" "Project.start_date p = Some start"
      "date_of (max (Organization.created_at org) (Team.created_at team)) \<le> start"
      "Project.created_at p = fst (project_sample_created_at start w10)"
      by blast
    with project_sample_created_at_date [of start w10] team show ?thesis by auto
  qed
  from first second show ?thesis by blast
qed

text \<open>The theorem at the three example tasks and the example run of the project generator.\<close>

theorem created_at_relative_to_parent_witness:
  "dependency_generate three_tasks dependency_world
     = Inr (three_dependencies, \<lparr>entropy = [], uuids = [], clock = 8683200000000, ticks = []\<rparr>)
   \<and> project_generate fallback_templates example_org [example_team] [example_user] (project_world 0)
     = Inr ([sprint_project ''p1'' ''completed'' 100 (Some 8701200000000) 8668800000000,
             sprint_project ''p2'' ''active'' 50 None 4348800000000,
             sprint_project ''p3'' ''active'' 50 None 4348800000000], idle_world)
   \<and> list_all (\<lambda>x. \<exists>ta \<in> set three_tasks. dependent_task_id x = task_id ta
            \<and> Task.created_at ta + hours 1 \<le> TaskDependency.created_at x) three_dependencies
   \<and> list_all (\<lambda>p. \<exists>start. Project.start_date p = Some start
            \<and> date_of (max (Organization.created_at example_org) (Team.created_at example_team)) \<le> start
            \<and> start - 14 \<le> date_of (Project.created_at p)
            \<and> date_of (Project.created_at p) \<le> start)
       [sprint_project ''p1'' ''completed'' 100 (Some 8701200000000) 8668800000000,
        sprint_project ''p2'' ''active'' 50 None 4348800000000,
        sprint_project ''p3'' ''active'' 50 None 4348800000000]"
  using created_at_relative_to_parent [OF three_tasks_run project_run_late]
    three_tasks_run project_run_late
  by (simp add: list_all_iff)

section \<open>Comment generator (generators/comments.py)\<close>

record Comment =
  comment_id :: string
  task_id :: string
  user_id :: string
  comment_text :: string
  is_pinned :: bool
  created_at :: datetime

text \<open>Truth of an optional string in a condition: neither \<open>None\<close> nor empty.\<close>
definition truthy :: "string option \<Rightarrow> bool" where
  "truthy s = (case s of None \<Rightarrow> False | Some v \<Rightarrow> v \<noteq> [])"

definition should_have_comments :: "string \<Rightarrow> bool \<Rightarrow> world \<Rightarrow> bool \<times> world" where
  "should_have_comments task_priority task_completed w =
     (let base_prob = 40 / 100;
          base_prob = (if task_priority = ''high'' \<or> task_priority = ''urgent'' then 60 / 100
                       else if task_priority = ''low'' then 25 / 100 else base_prob);
          base_prob = (if task_completed then base_prob * (12 / 10) else base_prob);
          (u, w1) = random_random w
      in (u < min (80 / 100) base_prob, w1))"

definition sample_num_comments :: "string \<Rightarrow> world \<Rightarrow> int \<times> world" where
  "sample_num_comments task_priority w =
     (if task_priority \<in> set [''high'', ''urgent'']
      then choices [1, 2, 3, 4, 5, 6, 7, 8, 9, 10]
             [25 / 100, 25 / 100, 20 / 100, 12 / 100, 8 / 100, 4 / 100, 3 / 100, 2 / 100,
              1 / 100, 1 / 100] w
      else if task_priority = ''medium''
      then choices [1, 2, 3, 4, 5] [40 / 100, 30 / 100, 20 / 100, 8 / 100, 2 / 100] w
      else choices [1, 2, 3] [60 / 100, 30 / 100, 10 / 100] w)"

text \<open>The comment templates; the flag tells whether the template ends in the placeholder
  \<open>{}\<close>, which is then cut off here.\<close>
definition comment_templates :: "(string \<times> bool) list" where
  "comment_templates =
     [(''Working on this now'', False), (''Blocked by '', True), (''Need input from '', True),
      (''This is done'', False), (''Ready for review'', False),
      (''Can someone review this?'', False), (''Updated the approach'', False),
      (''Moving this to next sprint'', False), (''Completed and deployed'', False),
      (''Running into issues with '', True), (''Will handle this today'', False),
      (''This is more complex than expected'', False), (''Might need more time'', False),
      (''Almost done'', False), (''Waiting on '', True), (''Quick question about this'', False),
      (''Thanks for the update'', False), (''Looks good'', False), (''Approved'', False),
      (''Let's discuss this tomorrow'', False), (''Started working on this'', False),
      (''Made good progress'', False), (''Encountered a blocker'', False),
      (''Fixed the issue'', False), (''Needs more testing'', False),
      (''Updated the description'', False), (''Changed the approach'', False),
      (''This is ready now'', False)]"

definition blocking_items :: "string list" where
  "blocking_items =
     [''another task'', ''the API'', ''testing'', ''deployment'', ''code review'',
      ''design feedback'', ''requirements'', ''dependencies'', ''approval'', ''resources'']"

definition generate_comment_text :: "world \<Rightarrow> string \<times> world" where
  "generate_comment_text w =
     (let (template, w1) = choice_of comment_templates w
      in if snd template
         then (let (placeholder, w2) = choice_of blocking_items w1 in (fst template @ placeholder, w2))
         else (fst template, w1))"

text \<open>\<open>_sample_created_at\<close>, the end of the interval of the comments: the completion of the
  task or now, moved behind the creation of the task and then back to now.\<close>
definition comment_end_time ::
  "datetime \<Rightarrow> datetime option \<Rightarrow> datetime \<Rightarrow> world \<Rightarrow> datetime \<times> world" where
  "comment_end_time task_created_at task_completed_at now w =
     (let end_time = (case task_completed_at of Some c \<Rightarrow> c | None \<Rightarrow> now);
          (end_time, w1) = (if end_time \<le> task_created_at
                            then (let (h, w') = randint 1 48 w in (task_created_at + hours h, w'))
                            else (end_time, w))
      in (if end_time > now then now else end_time, w1))"

text \<open>The share of the interval at which the comment is placed;
  \<open>random.uniform(a, b)\<close> is \<open>a + (b - a) * random()\<close>.\<close>
definition comment_progress :: "int \<Rightarrow> int \<Rightarrow> world \<Rightarrow> rat \<times> world" where
  "comment_progress comment_index total_comments w =
     (let (progress, w1) = (if total_comments > 1
                            then (of_int comment_index / of_int (total_comments - 1), w)
                            else random_random w);
          (u, w2) = random_random w1;
          jitter = - (1 / 10) + (1 / 10 - (- (1 / 10))) * u
      in (max 0 (min 1 (progress + jitter)), w2))"

text \<open>The "final constraints".\<close>
definition comment_created_final ::
  "datetime \<Rightarrow> datetime \<Rightarrow> datetime \<Rightarrow> world \<Rightarrow> datetime \<times> world" where
  "comment_created_final task_created_at now c w =
     (let (c1, w1) = (if c < task_created_at
                      then (let (h, w') = randint 1 24 w in (task_created_at + hours h, w'))
                      else (c, w));
          (c2, w2) = (if c1 > now
                      then (let (h, w') = randint 1 24 w1 in (now - hours h, w'))
                      else (c1, w1))
      in if c2 < task_created_at
         then (let (m, w3) = randint 1 60 w2 in (task_created_at + minutes m, w3))
         else (c2, w2))"

text \<open>\<open>CommentGenerator._sample_created_at\<close>.  The span in seconds and its product with
  the share are computed exactly (the source does it in floating point).\<close>
definition comment_sample_created_at ::
  "datetime \<Rightarrow> datetime option \<Rightarrow> int \<Rightarrow> int \<Rightarrow> world \<Rightarrow> datetime \<times> world" where
  "comment_sample_created_at task_created_at task_completed_at comment_index total_comments w =
     (let (now, w1) = utcnow w;
          (end_time, w2) = comment_end_time task_created_at task_completed_at now w1;
          time_span = (of_int (end_time - task_created_at) / 1000000 :: rat)
      in if time_span \<le> 0
         then (let (m, w3) = randint 1 60 w2 in (task_created_at + minutes m, w3))
         else let (progress, w3) = comment_progress comment_index total_comments w2;
                  offset_seconds = py_int (time_span * progress)
              in comment_created_final task_created_at now
                   (task_created_at + seconds offset_seconds) w3)"

text \<open>The users that may comment on a task: its assignee, its creator and up to three users
  of the assignee's department.  The source removes duplicates through a \<open>set\<close>, whose order
  is not specified; here each user id keeps its last position.\<close>
definition relevant_users :: "Task \<Rightarrow> User list \<Rightarrow> world \<Rightarrow> error + (string list \<times> world)" where
  "relevant_users t users w =
     (let r1 = (if truthy (assignee_id t) then [the (assignee_id t)] else []);
          r2 = r1 @ (if created_by t \<noteq> [] then [created_by t] else []);
          (r3, w1) =
            (case (if truthy (assignee_id t)
                   then map_of (rev (map (\<lambda>u. (User.user_id u, u)) users)) (the (assignee_id t))
                   else None) of
               None \<Rightarrow> (r2, w)
             | Some assignee \<Rightarrow>
                 (let dept_users = filter (\<lambda>u. department u = department assignee) users;
                      (chosen, w') = sample dept_users (min 3 (length dept_users)) w
                  in (r2 @ map User.user_id chosen, w')));
          r4 = remdups r3
      in if r4 = []
         then (case choice users w1 of Inl e \<Rightarrow> Inl e
               | Inr (u, w2) \<Rightarrow> Inr ([User.user_id u], w2))
         else Inr (r4, w1))"

text \<open>The loop \<open>for i in range(num_comments)\<close>, from index \<open>i\<close> on, with \<open>k\<close> turns left.\<close>
fun task_comments ::
  "Task \<Rightarrow> string list \<Rightarrow> int \<Rightarrow> int \<Rightarrow> nat \<Rightarrow> world \<Rightarrow> error + (Comment list \<times> world)" where
  "task_comments t authors num_comments i 0 w = Inr ([], w)"
| "task_comments t authors num_comments i (Suc k) w =
     (case choice authors w of Inl e \<Rightarrow> Inl e
      | Inr (author_id, w1) \<Rightarrow>
          (let (txt, w2) = generate_comment_text w1;
               (created, w3) = comment_sample_created_at (Task.created_at t) (Task.completed_at t)
                                 i num_comments w2;
               (cid, w4) = uuid4 w3;
               c = \<lparr>comment_id = cid, Comment.task_id = Task.task_id t,
                    Comment.user_id = author_id, comment_text = txt, is_pinned = False,
                    Comment.created_at = created\<rparr>
           in case task_comments t authors num_comments (i + 1) k w4 of Inl e \<Rightarrow> Inl e
              | Inr (cs, w5) \<Rightarrow> Inr (c # cs, w5)))"

text \<open>The loop \<open>for task in tasks\<close>.\<close>
fun comments_of_tasks :: "User list \<Rightarrow> Task list \<Rightarrow> world \<Rightarrow> error + (Comment list \<times> world)" where
  "comments_of_tasks users [] w = Inr ([], w)"
| "comments_of_tasks users (t # rest) w =
     (let prio = (if truthy (priority t) then the (priority t) else ''medium'');
          (has, w1) = should_have_comments prio (completed t) w
      in if \<not> has then comments_of_tasks users rest w1
         else let (num_comments, w2) = sample_num_comments prio w1
              in case relevant_users t users w2 of Inl e \<Rightarrow> Inl e
                 | Inr (authors, w3) \<Rightarrow>
                     (case task_comments t authors num_comments 0 (nat num_comments) w3 of
                        Inl e \<Rightarrow> Inl e
                      | Inr (cs, w4) \<Rightarrow>
                          (case comments_of_tasks users rest w4 of Inl e \<Rightarrow> Inl e
                           | Inr (others, w5) \<Rightarrow> Inr (cs @ others, w5))))"

text \<open>\<open>CommentGenerator.generate\<close>; the share of tasks with comments that is printed at
  the end divides by \<open>len(tasks)\<close>.\<close>
definition comment_generate :: "Task list \<Rightarrow> User list \<Rightarrow> world \<Rightarrow> error + (Comment list \<times> world)" where
  "comment_generate tasks users w =
     (case comments_of_tasks users tasks w of Inl e \<Rightarrow> Inl e
      | Inr (comments, w') \<Rightarrow>
          if length tasks = 0 then Inl ZeroDivisionError else Inr (comments, w'))"
section \<open>Properties of the comment generator\<close>

lemma clock_choice_of [simp]: "clock (snd (choice_of xs w)) = clock w"
  by (simp add: choice_of_def case_prod_beta)

lemma clock_should_have_comments [simp]: "clock (snd (should_have_comments p c w)) = clock w"
  by (simp add: should_have_comments_def Let_def case_prod_beta)

lemma clock_sample_num_comments [simp]: "clock (snd (sample_num_comments p w)) = clock w"
  by (simp add: sample_num_comments_def)

lemma clock_generate_comment_text [simp]: "clock (snd (generate_comment_text w)) = clock w"
  by (simp add: generate_comment_text_def Let_def case_prod_beta)

lemma clock_relevant_users: "relevant_users t users w = Inr (r, w') \<Longrightarrow> clock w' = clock w"
  by (auto simp: relevant_users_def Let_def case_prod_beta split: if_splits option.splits sum.splits
      dest: clock_choice)

lemma clock_comment_end_time [simp]: "clock (snd (comment_end_time tc tco now w)) = clock w"
  by (simp add: comment_end_time_def Let_def case_prod_beta)

lemma clock_comment_progress [simp]: "clock (snd (comment_progress i n w)) = clock w"
  by (simp add: comment_progress_def Let_def case_prod_beta)

lemma clock_comment_created_final [simp]: "clock (snd (comment_created_final tc now c w)) = clock w"
  by (simp add: comment_created_final_def Let_def case_prod_beta)

lemma clock_comment_sample_created_at:
  "clock (snd (comment_sample_created_at tc tco i n w)) = clock (snd (utcnow w))"
  by (simp add: comment_sample_created_at_def Let_def case_prod_beta del: utcnow_reads_clock)

lemma comment_created_final_ge: "tc \<le> fst (comment_created_final tc now c w)"
proof -
  have h: "1 \<le> fst (randint 1 24 v)" "1 \<le> fst (randint 1 60 v)" for v
    using randint_range [of 1 24 v] randint_range [of 1 60 v] by simp_all
  have "0 \<le> hours (fst (randint 1 24 v))" "0 \<le> minutes (fst (randint 1 60 v))" for v
    using h [of v] by (simp_all add: hours_def minutes_def us_per_hour_def us_per_minute_def)
  then show ?thesis
    by (simp add: comment_created_final_def Let_def case_prod_beta)
qed

lemma comment_created_final_id:
  "tc \<le> c \<Longrightarrow> c \<le> now \<Longrightarrow> fst (comment_created_final tc now c w) = c"
  by (simp add: comment_created_final_def Let_def)

lemma comment_end_time_bounds:
  assumes "tc < now"
  shows "tc < fst (comment_end_time tc tco now w) \<and> fst (comment_end_time tc tco now w) \<le> now"
proof -
  have "0 < hours (fst (randint 1 48 w))"
    using randint_range [of 1 48 w] by (simp add: hours_def us_per_hour_def)
  with assms show ?thesis
    by (simp add: comment_end_time_def Let_def case_prod_beta split: option.splits)
qed

lemma comment_progress_range:
  "0 \<le> fst (comment_progress i n w) \<and> fst (comment_progress i n w) \<le> 1"
  by (simp add: comment_progress_def Let_def case_prod_beta)

text \<open>The offset stays inside the span: for a share \<open>p\<close> of a span of \<open>d\<close> microseconds,
  the truncated number of seconds is neither negative nor longer than the span.\<close>
lemma offset_within_span:
  assumes "0 \<le> d" "0 \<le> p" "p \<le> 1"
  shows "0 \<le> seconds (py_int (of_int d / 1000000 * p))
       \<and> seconds (py_int (of_int d / 1000000 * p)) \<le> d"
proof -
  define y :: rat where "y = of_int d / 1000000 * p"
  have y0: "0 \<le> y" using assms by (simp add: y_def)
  have "y \<le> of_int d / 1000000 * 1"
    unfolding y_def using assms by (intro mult_left_mono) simp_all
  then have y1: "y * 1000000 \<le> of_int d" by simp
  have "of_int \<lfloor>y\<rfloor> * (1000000 :: rat) \<le> y * 1000000"
    by (intro mult_right_mono) simp_all
  from this y1 have "of_int \<lfloor>y\<rfloor> * (1000000 :: rat) \<le> of_int d"
    by (rule order_trans)
  then have "(of_int (\<lfloor>y\<rfloor> * 1000000) :: rat) \<le> of_int d" by simp
  then have le: "\<lfloor>y\<rfloor> * 1000000 \<le> d" by (simp only: of_int_le_iff)
  have "0 \<le> \<lfloor>y\<rfloor>" using y0 by simp
  with le y0 show ?thesis
    by (simp add: py_int_def seconds_def us_per_second_def y_def)
qed

lemma comment_sample_created_at_ge:
  "tc \<le> fst (comment_sample_created_at tc tco i n w)"
proof -
  have "0 \<le> minutes (fst (randint 1 60 v))" for v
    using randint_range [of 1 60 v] by (simp add: minutes_def us_per_minute_def)
  then show ?thesis
    by (simp add: comment_sample_created_at_def Let_def case_prod_beta comment_created_final_ge
        del: utcnow_reads_clock)
qed

lemma comment_sample_created_at_le:
  assumes "tc < clock (snd (utcnow w))"
  shows "fst (comment_sample_created_at tc tco i n w) \<le> clock (snd (utcnow w))"
proof -
  define now where "now = fst (utcnow w)"
  define w1 where "w1 = snd (utcnow w)"
  define e where "e = fst (comment_end_time tc tco now w1)"
  define w2 where "w2 = snd (comment_end_time tc tco now w1)"
  define p where "p = fst (comment_progress i n w2)"
  define w3 where "w3 = snd (comment_progress i n w2)"
  define off where "off = seconds (py_int (of_int (e - tc) / 1000000 * p))"
  from assms have lt: "tc < now" by (simp add: now_def)
  from comment_end_time_bounds [OF lt, of tco w1] have e: "tc < e" "e \<le> now"
    by (simp_all add: e_def)
  from comment_progress_range [of i n w2] have p: "0 \<le> p" "p \<le> 1" by (simp_all add: p_def)
  from offset_within_span [of "e - tc" p] e p have off: "0 \<le> off" "off \<le> e - tc"
    by (simp_all add: off_def)
  have span: "\<not> (of_int (e - tc) / 1000000 :: rat) \<le> 0" using e by simp
  have "fst (comment_sample_created_at tc tco i n w) = fst (comment_created_final tc now (tc + off) w3)"
    using span
    by (simp add: comment_sample_created_at_def Let_def case_prod_beta now_def w1_def e_def w2_def
        p_def w3_def off_def del: utcnow_reads_clock)
  also have "\<dots> = tc + off"
    using off e by (intro comment_created_final_id) simp_all
  finally show ?thesis using off e by (simp add: now_def)
qed

lemma task_comments_props:
  assumes "task_comments t authors n i k w = Inr (cs, w')"
  shows "clock w \<le> clock w'
       \<and> (\<forall>c \<in> set cs. Comment.task_id c = Task.task_id t
              \<and> Task.created_at t \<le> Comment.created_at c
              \<and> (Task.created_at t < clock w \<longrightarrow> Comment.created_at c \<le> clock w'))"
  using assms
proof (induction k arbitrary: i w cs)
  case 0
  then show ?case by simp
next
  case (Suc k)
  from Suc.prems obtain author w1 where ch: "choice authors w = Inr (author, w1)"
    by (auto split: sum.splits)
  define w2 where "w2 = snd (generate_comment_text w1)"
  define created where
    "created = fst (comment_sample_created_at (Task.created_at t) (Task.completed_at t) i n w2)"
  define w3 where
    "w3 = snd (comment_sample_created_at (Task.created_at t) (Task.completed_at t) i n w2)"
  define w4 where "w4 = snd (uuid4 w3)"
  define c0 where "c0 = \<lparr>comment_id = fst (uuid4 w3), Comment.task_id = Task.task_id t,
      Comment.user_id = author, comment_text = fst (generate_comment_text w1), is_pinned = False,
      Comment.created_at = created\<rparr>"
  from Suc.prems ch obtain cs0 where
    rec: "task_comments t authors n (i + 1) k w4 = Inr (cs0, w')" and cs: "cs = c0 # cs0"
    by (auto simp: Let_def case_prod_beta w2_def created_def w3_def w4_def c0_def split: sum.splits)
  have c12: "clock w2 = clock w" using clock_choice [OF ch] by (simp add: w2_def)
  have c3: "clock w3 = clock (snd (utcnow w2))"
    by (simp add: w3_def clock_comment_sample_created_at)
  have c23: "clock w2 \<le> clock w3" using utcnow_forward [of w2] c3 by simp
  have c34: "clock w4 = clock w3" by (simp add: w4_def)
  from Suc.IH [OF rec] have ih: "clock w4 \<le> clock w'"
    "\<forall>c \<in> set cs0. Comment.task_id c = Task.task_id t
              \<and> Task.created_at t \<le> Comment.created_at c
              \<and> (Task.created_at t < clock w4 \<longrightarrow> Comment.created_at c \<le> clock w')"
    by auto
  have ge: "Task.created_at t \<le> created"
    unfolding created_def by (rule comment_sample_created_at_ge)
  have le: "created \<le> clock w'" if "Task.created_at t < clock w"
  proof -
    from that c12 c23 c3 have "Task.created_at t < clock (snd (utcnow w2))" by simp
    from comment_sample_created_at_le [OF this, of "Task.completed_at t" i n]
    have "created \<le> clock w3" by (simp add: created_def c3)
    with c34 ih(1) show ?thesis by simp
  qed
  have mono: "clock w \<le> clock w'" using c12 c23 c34 ih(1) by simp
  have c0_ok: "Comment.task_id c0 = Task.task_id t" "Comment.created_at c0 = created"
    by (simp_all add: c0_def)
  have rest: "\<forall>c \<in> set cs0. Comment.task_id c = Task.task_id t
              \<and> Task.created_at t \<le> Comment.created_at c
              \<and> (Task.created_at t < clock w \<longrightarrow> Comment.created_at c \<le> clock w')"
    using ih(2) c12 c23 c34 by auto
  from mono ge le c0_ok rest cs show ?case by auto
qed

lemma comments_of_tasks_props:
  assumes "comments_of_tasks users tasks w = Inr (cs, w')"
  shows "clock w \<le> clock w'
       \<and> (\<forall>c \<in> set cs. \<exists>t \<in> set tasks. Comment.task_id c = Task.task_id t
              \<and> Task.created_at t \<le> Comment.created_at c
              \<and> (Task.created_at t < clock w \<longrightarrow> Comment.created_at c \<le> clock w'))"
  using assms
proof (induction tasks arbitrary: w cs)
  case Nil
  then show ?case by simp
next
  case (Cons t rest)
  define prio where "prio = (if truthy (priority t) then the (priority t) else ''medium'')"
  define has where "has = fst (should_have_comments prio (completed t) w)"
  define w1 where "w1 = snd (should_have_comments prio (completed t) w)"
  have c1: "clock w1 = clock w" by (simp add: w1_def)
  show ?case
  proof (cases has)
    case False
    with Cons.prems have "comments_of_tasks users rest w1 = Inr (cs, w')"
      by (simp add: Let_def case_prod_beta prio_def has_def w1_def)
    from Cons.IH [OF this] c1 show ?thesis by auto
  next
    case True
    define n where "n = fst (sample_num_comments prio w1)"
    define w2 where "w2 = snd (sample_num_comments prio w1)"
    from Cons.prems True obtain authors w3 cs1 w4 cs2 where
      ru: "relevant_users t users w2 = Inr (authors, w3)"
      and tc: "task_comments t authors n 0 (nat n) w3 = Inr (cs1, w4)"
      and re: "comments_of_tasks users rest w4 = Inr (cs2, w')"
      and cs: "cs = cs1 @ cs2"
      by (auto simp: Let_def case_prod_beta prio_def has_def w1_def n_def w2_def split: sum.splits)
    have c3: "clock w3 = clock w" using clock_relevant_users [OF ru] c1 by (simp add: w2_def)
    from task_comments_props [OF tc] have p1: "clock w3 \<le> clock w4"
      "\<forall>c \<in> set cs1. Comment.task_id c = Task.task_id t
              \<and> Task.created_at t \<le> Comment.created_at c
              \<and> (Task.created_at t < clock w3 \<longrightarrow> Comment.created_at c \<le> clock w4)"
      by auto
    from Cons.IH [OF re] have p2: "clock w4 \<le> clock w'"
      "\<forall>c \<in> set cs2. \<exists>t \<in> set rest. Comment.task_id c = Task.task_id t
              \<and> Task.created_at t \<le> Comment.created_at c
              \<and> (Task.created_at t < clock w4 \<longrightarrow> Comment.created_at c \<le> clock w')"
      by auto
    have a: "clock w \<le> clock w'" using c3 p1(1) p2(1) by simp
    have b1: "\<forall>c \<in> set cs1. \<exists>s \<in> set (t # rest). Comment.task_id c = Task.task_id s
              \<and> Task.created_at s \<le> Comment.created_at c
              \<and> (Task.created_at s < clock w \<longrightarrow> Comment.created_at c \<le> clock w')"
      using p1(2) c3 p2(1) by fastforce
    have b2: "\<forall>c \<in> set cs2. \<exists>s \<in> set (t # rest). Comment.task_id c = Task.task_id s
              \<and> Task.created_at s \<le> Comment.created_at c
              \<and> (Task.created_at s < clock w \<longrightarrow> Comment.created_at c \<le> clock w')"
    proof
      fix c assume "c \<in> set cs2"
      with p2(2) obtain s where "s \<in> set rest" "Comment.task_id c = Task.task_id s"
        "Task.created_at s \<le> Comment.created_at c"
        "Task.created_at s < clock w4 \<longrightarrow> Comment.created_at c \<le> clock w'"
        by blast
      moreover have "clock w \<le> clock w4" using c3 p1(1) by simp
      ultimately show "\<exists>s \<in> set (t # rest). Comment.task_id c = Task.task_id s
              \<and> Task.created_at s \<le> Comment.created_at c
              \<and> (Task.created_at s < clock w \<longrightarrow> Comment.created_at c \<le> clock w')"
        by (intro bexI [of _ s]) auto
    qed
    from a b1 b2 cs show ?thesis by auto
  qed
qed
lemmas comment_generator_defs = comment_generate_def truthy_def should_have_comments_def
  sample_num_comments_def comment_templates_def blocking_items_def generate_comment_text_def
  comment_end_time_def comment_progress_def comment_created_final_def
  comment_sample_created_at_def relevant_users_def choice_of_def choice_def choices_def py_int_def

text \<open>An open task that is created at the very moment at which the comments are
  generated.\<close>

definition now_task :: Task where
  "now_task = example_task\<lparr>Task.created_at := 8683200000000, completed := False,
     Task.completed_at := None\<rparr>"

definition comment_world :: world where
  "comment_world = \<lparr>entropy = [], uuids = [''c1''], clock = 8683200000000, ticks = []\<rparr>"

definition example_comment :: "datetime \<Rightarrow> Comment" where
  "example_comment created =
     \<lparr>comment_id = ''c1'', Comment.task_id = ''t1'', Comment.user_id = ''u1'',
      comment_text = ''Working on this now'', is_pinned = False, Comment.created_at = created\<rparr>"

lemma example_comment_run:
  "comment_generate [example_task] [example_user] comment_world
     = Inr ([example_comment 7808400000000],
            \<lparr>entropy = [], uuids = [], clock = 8683200000000, ticks = []\<rparr>)"
  by (simp add: comment_generator_defs time_defs world_defs Let_def example_task_def
      example_user_def comment_world_def example_comment_def)

text \<open>
  Claim C6, as stated, fails on the code for a task whose \<open>created_at\<close> equals now: the
  interval of the comments is empty, and the comment is placed one to sixty minutes after the
  creation of the task, which is after now.
\<close>

theorem comment_after_now:
  "comment_generate [now_task] [example_user] comment_world
     = Inr ([example_comment 8683260000000],
            \<lparr>entropy = [], uuids = [], clock = 8683200000000, ticks = []\<rparr>)
   \<and> Task.created_at now_task \<le> clock comment_world
   \<and> Comment.task_id (example_comment 8683260000000) = Task.task_id now_task
   \<and> 8683200000000 < Comment.created_at (example_comment 8683260000000)"
  by (simp add: comment_generator_defs time_defs world_defs Let_def example_task_def
      example_user_def comment_world_def example_comment_def now_task_def)

text \<open>
  Claim C6, amended.  A comment is never created before its task; and it is created no later
  than now when its task was created before now, strictly.  This holds of each timestamp that
  is sampled, now being the reading of the clock in the sampler, and of every comment that
  the generator returns: it belongs to a task of the input, is not older than that task and,
  if that task was created before the generation began, is not younger than the clock at the
  end of the generation.
\<close>

theorem comment_created_at_bounds:
  assumes "comment_generate tasks users w = Inr (comments, w')"
    and "c \<in> set comments"
  shows "tc \<le> fst (comment_sample_created_at tc tco i n v)
       \<and> (tc < clock (snd (comment_sample_created_at tc tco i n v))
            \<longrightarrow> fst (comment_sample_created_at tc tco i n v)
                  \<le> clock (snd (comment_sample_created_at tc tco i n v)))
       \<and> (\<exists>t \<in> set tasks. Comment.task_id c = Task.task_id t
              \<and> Task.created_at t \<le> Comment.created_at c
              \<and> (Task.created_at t < clock w \<longrightarrow> Comment.created_at c \<le> clock w'))"
proof -
  from assms(1) have "comments_of_tasks users tasks w = Inr (comments, w')"
    by (auto simp: comment_generate_def split: sum.splits if_splits)
  from comments_of_tasks_props [OF this] assms(2) have third:
    "\<exists>t \<in> set tasks. Comment.task_id c = Task.task_id t
              \<and> Task.created_at t \<le> Comment.created_at c
              \<and> (Task.created_at t < clock w \<longrightarrow> Comment.created_at c \<le> clock w')"
    by blast
  have second: "fst (comment_sample_created_at tc tco i n v)
                  \<le> clock (snd (comment_sample_created_at tc tco i n v))"
    if "tc < clock (snd (comment_sample_created_at tc tco i n v))"
    using comment_sample_created_at_le [of tc v tco i n] that
    by (simp add: clock_comment_sample_created_at)
  from comment_sample_created_at_ge [of tc tco i n v] second third show ?thesis by blast
qed

text \<open>The theorem at the completed example task, created on day 90, with the clock on day
  100: its one comment is created together with the task.\<close>

theorem comment_created_at_bounds_witness:
  "comment_generate [example_task] [example_user] comment_world
     = Inr ([example_comment 7808400000000],
            \<lparr>entropy = [], uuids = [], clock = 8683200000000, ticks = []\<rparr>)
   \<and> example_comment 7808400000000 \<in> set [example_comment 7808400000000]
   \<and> Task.created_at example_task < clock comment_world
   \<and> Task.created_at example_task \<le> Comment.created_at (example_comment 7808400000000)
   \<and> Comment.created_at (example_comment 7808400000000) \<le> 8683200000000
   \<and> 7808400000000 < clock (snd (comment_sample_created_at 7808400000000 None 0 1 comment_world))
   \<and> 7808400000000 \<le> fst (comment_sample_created_at 7808400000000 None 0 1 comment_world)
   \<and> fst (comment_sample_created_at 7808400000000 None 0 1 comment_world)
       \<le> clock (snd (comment_sample_created_at 7808400000000 None 0 1 comment_world))"
proof -
  have mem: "example_comment 7808400000000 \<in> set [example_comment 7808400000000]" by simp
  have before: "Task.created_at example_task < clock comment_world"
    "7808400000000 < clock (snd (comment_sample_created_at 7808400000000 None 0 1 comment_world))"
    by (simp_all add: example_task_def comment_world_def clock_comment_sample_created_at utcnow_def)
  from comment_created_at_bounds [OF example_comment_run mem, of 7808400000000 None 0 1 comment_world]
    before example_comment_run
  show ?thesis by simp
qed

section \<open>Task-tag generator (generators/task_tags.py)\<close>

record TaskTag =
  task_tag_id :: string
  task_id :: string
  tag_id :: string
  created_at :: datetime

definition should_have_tags :: "string option \<Rightarrow> world \<Rightarrow> bool \<times> world" where
  "should_have_tags task_priority w =
     (let base_prob = (if task_priority \<in> set [Some ''high'', Some ''urgent''] then 70 / 100
                       else if task_priority = Some ''low'' then 50 / 100 else 60 / 100);
          (u, w1) = random_random w
      in (u < base_prob, w1))"

definition sample_num_tags :: "world \<Rightarrow> nat \<times> world" where
  "sample_num_tags w = choices [1, 2, 3, 4, 5] [50 / 100, 30 / 100, 15 / 100, 4 / 100, 1 / 100] w"

text \<open>The loops \<open>for tag in ...: if tag.tag_id not in seen_tag_ids: ...\<close>, which append the
  tags that were not seen yet.\<close>
fun add_unseen :: "Tag list \<Rightarrow> Tag list \<Rightarrow> string set \<Rightarrow> Tag list \<times> string set" where
  "add_unseen [] relevant_tags seen_tag_ids = (relevant_tags, seen_tag_ids)"
| "add_unseen (tag # rest) relevant_tags seen_tag_ids =
     (if Tag.tag_id tag \<notin> seen_tag_ids
      then add_unseen rest (relevant_tags @ [tag]) (insert (Tag.tag_id tag) seen_tag_ids)
      else add_unseen rest relevant_tags seen_tag_ids)"

definition keywords_to_tags :: "(string \<times> string list) list" where
  "keywords_to_tags =
     [(''bug'', [''Bug'', ''Critical'', ''Urgent'']),
      (''fix'', [''Bug'', ''Maintenance'']),
      (''design'', [''Design'', ''UI/UX'']),
      (''feature'', [''Feature'', ''Enhancement'']),
      (''doc'', [''Documentation'']),
      (''test'', [''Testing'', ''QA'']),
      (''deploy'', [''Deployment'', ''Production'']),
      (''research'', [''Research'', ''Investigation'']),
      (''review'', [''Review'', ''Feedback'']),
      (''meeting'', [''Meeting'', ''Discussion'']),
      (''planning'', [''Planning'', ''Strategy'']),
      (''urgent'', [''Urgent'', ''High Priority'']),
      (''blocked'', [''Blocked'']),
      (''security'', [''Security'', ''Critical'']),
      (''performance'', [''Performance'', ''Optimization''])]"

text \<open>The loop \<open>for tag_name in tag_names\<close>.\<close>
fun add_tag_names :: "Tag list \<Rightarrow> string list \<Rightarrow> Tag list \<Rightarrow> string set \<Rightarrow> Tag list \<times> string set" where
  "add_tag_names org_tags [] relevant_tags seen_tag_ids = (relevant_tags, seen_tag_ids)"
| "add_tag_names org_tags (tag_name # rest) relevant_tags seen_tag_ids =
     (let matching_tags = filter (\<lambda>t. contains (lower tag_name) (lower (Tag.name t))) org_tags;
          (relevant_tags, seen_tag_ids) = add_unseen matching_tags relevant_tags seen_tag_ids
      in add_tag_names org_tags rest relevant_tags seen_tag_ids)"

text \<open>The loop \<open>for keyword, tag_names in keywords_to_tags.items()\<close>.\<close>
fun add_keywords ::
  "string \<Rightarrow> Tag list \<Rightarrow> (string \<times> string list) list \<Rightarrow> Tag list \<Rightarrow> string set
   \<Rightarrow> Tag list \<times> string set" where
  "add_keywords task_name_lower org_tags [] relevant_tags seen_tag_ids = (relevant_tags, seen_tag_ids)"
| "add_keywords task_name_lower org_tags ((keyword, tag_names) # rest) relevant_tags seen_tag_ids =
     (let (relevant_tags, seen_tag_ids) =
            (if contains keyword task_name_lower
             then add_tag_names org_tags tag_names relevant_tags seen_tag_ids
             else (relevant_tags, seen_tag_ids))
      in add_keywords task_name_lower org_tags rest relevant_tags seen_tag_ids)"

definition get_relevant_tags :: "Task \<Rightarrow> Tag list \<Rightarrow> string \<Rightarrow> world \<Rightarrow> Tag list \<times> world" where
  "get_relevant_tags t tags org_id w =
     (let org_tags = filter (\<lambda>g. Tag.organization_id g = org_id) tags
      in if org_tags = [] then ([], w)
         else let (relevant_tags, seen_tag_ids) =
                    (if truthy (priority t)
                     then add_unseen
                            (filter (\<lambda>g. contains (lower (the (priority t))) (lower (Tag.name g))) org_tags)
                            [] {}
                     else ([], {}));
                  task_name_lower = lower (Task.name t);
                  (relevant_tags, seen_tag_ids) =
                    add_keywords task_name_lower org_tags keywords_to_tags relevant_tags seen_tag_ids
              in if relevant_tags = [] then sample org_tags (min 10 (length org_tags)) w
                 else (relevant_tags, w))"

definition tag_sample_created_at :: "datetime \<Rightarrow> world \<Rightarrow> datetime \<times> world" where
  "tag_sample_created_at task_created_at w =
     (let (days_after, w1) = choices [0, 1, 2, 3, 7] [60 / 100, 20 / 100, 10 / 100, 7 / 100, 3 / 100] w;
          created = task_created_at + days days_after;
          (h, w2) = randint 0 12 w1;
          created = created + hours h;
          (now, w3) = utcnow w2
      in (if created > now then task_created_at else created, w3))"

text \<open>The loop \<open>for tag in selected_tags\<close>.\<close>
fun tag_task :: "Task \<Rightarrow> Tag list \<Rightarrow> world \<Rightarrow> TaskTag list \<times> world" where
  "tag_task t [] w = ([], w)"
| "tag_task t (tag # rest) w =
     (let (created, w1) = tag_sample_created_at (Task.created_at t) w;
          (ttid, w2) = uuid4 w1;
          task_tag = \<lparr>task_tag_id = ttid, TaskTag.task_id = Task.task_id t,
                      TaskTag.tag_id = Tag.tag_id tag, TaskTag.created_at = created\<rparr>;
          (others, w3) = tag_task t rest w2
      in (task_tag # others, w3))"

text \<open>The loop \<open>for task in tasks\<close>, for a list of tags that is not empty.  A task has no
  attribute \<open>organization_id\<close>, so all tags are offered and the organization is that of the
  first tag.\<close>
fun tag_tasks :: "Tag list \<Rightarrow> Task list \<Rightarrow> world \<Rightarrow> TaskTag list \<times> world" where
  "tag_tasks tags [] w = ([], w)"
| "tag_tasks tags (t # rest) w =
     (let org_tags = tags;
          (has, w1) = should_have_tags (priority t) w
      in if \<not> has then tag_tasks tags rest w1
         else let (relevant_tags, w2) = get_relevant_tags t org_tags (Tag.organization_id (hd tags)) w1
              in if relevant_tags = [] then tag_tasks tags rest w2
                 else let (n, w3) = sample_num_tags w2;
                          num_tags = min n (length relevant_tags);
                          (selected_tags, w4) = sample relevant_tags num_tags w3;
                          (mine, w5) = tag_task t selected_tags w4;
                          (others, w6) = tag_tasks tags rest w5
                      in (mine @ others, w6))"

text \<open>\<open>TaskTagGenerator.generate\<close>: nothing without tags; the share of tagged tasks that
  is printed at the end divides by \<open>len(tasks)\<close>.\<close>
definition task_tag_generate :: "Task list \<Rightarrow> Tag list \<Rightarrow> world \<Rightarrow> error + (TaskTag list \<times> world)" where
  "task_tag_generate tasks tags w =
     (if tags = [] then Inr ([], w)
      else let (task_tags, w') = tag_tasks tags tasks w
           in if length tasks = 0 then Inl ZeroDivisionError else Inr (task_tags, w'))"

text \<open>The pair that identifies an association.\<close>
definition tag_pair :: "TaskTag \<Rightarrow> string \<times> string" where
  "tag_pair x = (TaskTag.task_id x, TaskTag.tag_id x)"
section \<open>Properties of the task-tag generator\<close>

lemma sample_distinct:
  "distinct (map f xs) \<Longrightarrow> distinct (map f (fst (sample xs k w)))"
proof (induction xs k w rule: sample.induct)
  case (1 xs w)
  then show ?case by simp
next
  case (2 xs k w)
  show ?case
  proof (cases "xs = []")
    case True
    then show ?thesis by simp
  next
    case False
    define j where "j = fst (draw w) mod length xs"
    define w1 where "w1 = snd (draw w)"
    define xs' where "xs' = take j xs @ drop (Suc j) xs"
    define ys where "ys = fst (sample xs' k w1)"
    have jlt: "j < length xs" using False by (simp add: j_def)
    then have split: "xs = take j xs @ xs ! j # drop (Suc j) xs"
      by (rule id_take_nth_drop)
    from "2.prems" have "distinct (map f (take j xs @ xs ! j # drop (Suc j) xs))"
      using split by simp
    then have d': "distinct (map f xs')" and notin: "f (xs ! j) \<notin> f ` set xs'"
      by (auto simp: xs'_def)
    have ih: "distinct (map f ys)"
      using "2.IH" [OF False, of "draw w" "fst (draw w)" w1 j] d'
      by (simp add: j_def w1_def xs'_def ys_def)
    have "set ys \<subseteq> set xs'" unfolding ys_def by (rule sample_subset)
    with notin have "f (xs ! j) \<notin> f ` set ys" by auto
    moreover have "fst (sample xs (Suc k) w) = xs ! j # ys"
      using False by (simp add: case_prod_beta Let_def j_def w1_def xs'_def ys_def)
    ultimately show ?thesis using ih by simp
  qed
qed

text \<open>The invariant of the two accumulators: the seen ids are the ids of the relevant
  tags, and no id occurs twice among these.\<close>
definition tags_inv :: "Tag list \<Rightarrow> string set \<Rightarrow> bool" where
  "tags_inv relevant seen \<longleftrightarrow> seen = Tag.tag_id ` set relevant \<and> distinct (map Tag.tag_id relevant)"

lemma add_unseen_inv:
  "tags_inv r s \<Longrightarrow> tags_inv (fst (add_unseen ts r s)) (snd (add_unseen ts r s))"
proof (induction ts arbitrary: r s)
  case Nil
  then show ?case by simp
next
  case (Cons t ts)
  show ?case
  proof (cases "Tag.tag_id t \<in> s")
    case True
    with Cons show ?thesis by simp
  next
    case False
    with Cons.prems have "tags_inv (r @ [t]) (insert (Tag.tag_id t) s)"
      by (auto simp: tags_inv_def)
    from Cons.IH [OF this] False show ?thesis by simp
  qed
qed

lemma add_tag_names_inv:
  "tags_inv r s \<Longrightarrow>
   tags_inv (fst (add_tag_names org_tags names r s)) (snd (add_tag_names org_tags names r s))"
proof (induction names arbitrary: r s)
  case Nil
  then show ?case by simp
next
  case (Cons n names)
  let ?m = "filter (\<lambda>t. contains (lower n) (lower (Tag.name t))) org_tags"
  from add_unseen_inv [OF Cons.prems, of ?m]
  have "tags_inv (fst (add_unseen ?m r s)) (snd (add_unseen ?m r s))" .
  from Cons.IH [OF this] show ?case by (simp add: case_prod_beta Let_def)
qed

lemma add_keywords_inv:
  "tags_inv r s \<Longrightarrow>
   tags_inv (fst (add_keywords nm org_tags kws r s)) (snd (add_keywords nm org_tags kws r s))"
proof (induction kws arbitrary: r s)
  case Nil
  then show ?case by simp
next
  case (Cons kw kws)
  obtain keyword names where kw: "kw = (keyword, names)" by (cases kw)
  show ?case
  proof (cases "contains keyword nm")
    case True
    from add_tag_names_inv [OF Cons.prems, of org_tags names]
    have "tags_inv (fst (add_tag_names org_tags names r s)) (snd (add_tag_names org_tags names r s))" .
    from Cons.IH [OF this] True kw show ?thesis by (simp add: case_prod_beta)
  next
    case False
    from Cons.IH [OF Cons.prems] False kw show ?thesis by simp
  qed
qed

lemma get_relevant_tags_distinct:
  assumes "distinct (map Tag.tag_id tags)"
  shows "distinct (map Tag.tag_id (fst (get_relevant_tags t tags org_id w)))"
proof -
  define org_tags where "org_tags = filter (\<lambda>g. Tag.organization_id g = org_id) tags"
  define rs where "rs = (if truthy (priority t)
      then add_unseen (filter (\<lambda>g. contains (lower (the (priority t))) (lower (Tag.name g))) org_tags) [] {}
      else ([], {}))"
  define fin where "fin = add_keywords (lower (Task.name t)) org_tags keywords_to_tags (fst rs) (snd rs)"
  have d: "distinct (map Tag.tag_id org_tags)"
    unfolding org_tags_def using assms by (simp add: distinct_map_filter)
  have "tags_inv [] {}" by (simp add: tags_inv_def)
  then have "tags_inv (fst rs) (snd rs)"
    unfolding rs_def using add_unseen_inv [of "[]" "{}"] by simp
  then have "tags_inv (fst fin) (snd fin)"
    unfolding fin_def by (rule add_keywords_inv)
  then have df: "distinct (map Tag.tag_id (fst fin))" by (simp add: tags_inv_def)
  have "fst (get_relevant_tags t tags org_id w) =
          (if org_tags = [] then []
           else if fst fin = [] then fst (sample org_tags (min 10 (length org_tags)) w)
           else fst fin)"
    by (simp add: get_relevant_tags_def Let_def case_prod_beta org_tags_def rs_def fin_def)
  with df sample_distinct [OF d, of "min 10 (length org_tags)" w] show ?thesis by simp
qed

lemma tag_task_pairs:
  "map tag_pair (fst (tag_task t sel w)) = map (\<lambda>g. (Task.task_id t, Tag.tag_id g)) sel"
  by (induction sel arbitrary: w) (simp_all add: Let_def case_prod_beta tag_pair_def)

lemma tag_tasks_pairs:
  assumes "distinct (map Task.task_id tasks)" and "distinct (map Tag.tag_id tags)"
  shows "distinct (map tag_pair (fst (tag_tasks tags tasks w)))
       \<and> fst ` set (map tag_pair (fst (tag_tasks tags tasks w))) \<subseteq> Task.task_id ` set tasks"
  using assms(1)
proof (induction tasks arbitrary: w)
  case Nil
  then show ?case by simp
next
  case (Cons t rest)
  from Cons.prems have dr: "distinct (map Task.task_id rest)"
    and tn: "Task.task_id t \<notin> Task.task_id ` set rest" by auto
  define w1 where "w1 = snd (should_have_tags (priority t) w)"
  define rel where "rel = fst (get_relevant_tags t tags (Tag.organization_id (hd tags)) w1)"
  define w2 where "w2 = snd (get_relevant_tags t tags (Tag.organization_id (hd tags)) w1)"
  define w3 where "w3 = snd (sample_num_tags w2)"
  define sel where "sel = fst (sample rel (min (fst (sample_num_tags w2)) (length rel)) w3)"
  define w4 where "w4 = snd (sample rel (min (fst (sample_num_tags w2)) (length rel)) w3)"
  define w5 where "w5 = snd (tag_task t sel w4)"
  have cases: "fst (tag_tasks tags (t # rest) w) = fst (tag_tasks tags rest w1)
      \<or> fst (tag_tasks tags (t # rest) w) = fst (tag_tasks tags rest w2)
      \<or> fst (tag_tasks tags (t # rest) w) = fst (tag_task t sel w4) @ fst (tag_tasks tags rest w5)"
    by (simp add: Let_def case_prod_beta w1_def rel_def w2_def w3_def sel_def w4_def w5_def)
  have ih: "distinct (map tag_pair (fst (tag_tasks tags rest v)))
       \<and> fst ` set (map tag_pair (fst (tag_tasks tags rest v))) \<subseteq> Task.task_id ` set rest" for v
    using Cons.IH [OF dr] .
  have "distinct (map Tag.tag_id rel)"
    unfolding rel_def using assms(2) by (rule get_relevant_tags_distinct)
  then have "distinct (map Tag.tag_id sel)"
    unfolding sel_def by (rule sample_distinct)
  then have dm: "distinct (map (\<lambda>g. (Task.task_id t, Tag.tag_id g)) sel)"
    by (simp add: distinct_map inj_on_def)
  have mine: "distinct (map tag_pair (fst (tag_task t sel w4)))"
    "fst ` set (map tag_pair (fst (tag_task t sel w4))) \<subseteq> {Task.task_id t}"
    using dm by (auto simp: tag_task_pairs)
  have disj: "set (map tag_pair (fst (tag_task t sel w4)))
                \<inter> set (map tag_pair (fst (tag_tasks tags rest w5))) = {}"
  proof (rule ccontr)
    assume "\<not> ?thesis"
    then obtain x where x: "x \<in> set (map tag_pair (fst (tag_task t sel w4)))"
      "x \<in> set (map tag_pair (fst (tag_tasks tags rest w5)))" by blast
    from x(1) mine(2) have "fst x = Task.task_id t" by auto
    moreover from x(2) ih [of w5] have "fst x \<in> Task.task_id ` set rest" by auto
    ultimately show False using tn by simp
  qed
  from cases show ?case
  proof (elim disjE)
    assume "fst (tag_tasks tags (t # rest) w) = fst (tag_tasks tags rest w1)"
    with ih [of w1] show ?thesis by auto
  next
    assume "fst (tag_tasks tags (t # rest) w) = fst (tag_tasks tags rest w2)"
    with ih [of w2] show ?thesis by auto
  next
    assume e: "fst (tag_tasks tags (t # rest) w) = fst (tag_task t sel w4) @ fst (tag_tasks tags rest w5)"
    have "distinct (map tag_pair (fst (tag_task t sel w4) @ fst (tag_tasks tags rest w5)))"
      using mine(1) ih [of w5] disj by simp
    moreover have "fst ` set (map tag_pair (fst (tag_task t sel w4) @ fst (tag_tasks tags rest w5)))
        \<subseteq> Task.task_id ` set (t # rest)"
    proof -
      have "fst ` set (map tag_pair (fst (tag_task t sel w4) @ fst (tag_tasks tags rest w5)))
          = fst ` set (map tag_pair (fst (tag_task t sel w4)))
            \<union> fst ` set (map tag_pair (fst (tag_tasks tags rest w5)))"
        by (simp add: image_Un)
      also have "\<dots> \<subseteq> {Task.task_id t} \<union> Task.task_id ` set rest"
        using mine(2) conjunct2 [OF ih [of w5]] by (rule Un_mono)
      finally show ?thesis by simp
    qed
    ultimately show ?thesis using e by simp
  qed
qed

lemmas task_tag_generator_defs = task_tag_generate_def should_have_tags_def sample_num_tags_def
  keywords_to_tags_def get_relevant_tags_def tag_sample_created_at_def truthy_def lower_def
  lower_char_def choices_def char_of_def bit_simps

text \<open>Three tags of the example organization, and a task whose name has keywords.\<close>

definition example_tags :: "Tag list" where
  "example_tags =
     [\<lparr>Tag.tag_id = ''g1'', Tag.organization_id = ''o1'', Tag.name = ''High Priority'',
       Tag.color = None, Tag.created_at = None\<rparr>,
      \<lparr>Tag.tag_id = ''g2'', Tag.organization_id = ''o1'', Tag.name = ''Bug'',
       Tag.color = None, Tag.created_at = None\<rparr>,
      \<lparr>Tag.tag_id = ''g3'', Tag.organization_id = ''o1'', Tag.name = ''Urgent'',
       Tag.color = None, Tag.created_at = None\<rparr>]"

definition bug_task :: Task where
  "bug_task = example_task\<lparr>Task.name := ''Fix urgent bug''\<rparr>"

definition tag_world :: world where
  "tag_world = \<lparr>entropy = [0, 4503599627370496, 1], uuids = [''a1'', ''a2'', ''a3''],
     clock = 8683200000000, ticks = []\<rparr>"

definition example_task_tags :: "TaskTag list" where
  "example_task_tags =
     [\<lparr>task_tag_id = ''a1'', TaskTag.task_id = ''t1'', TaskTag.tag_id = ''g2'',
       TaskTag.created_at = 7808400000000\<rparr>,
      \<lparr>task_tag_id = ''a2'', TaskTag.task_id = ''t1'', TaskTag.tag_id = ''g1'',
       TaskTag.created_at = 7808400000000\<rparr>]"

lemma example_task_tag_run:
  "task_tag_generate [bug_task] example_tags tag_world
     = Inr (example_task_tags,
            \<lparr>entropy = [], uuids = [''a3''], clock = 8683200000000, ticks = []\<rparr>)"
  by (simp add: task_tag_generator_defs time_defs world_defs Let_def example_tags_def bug_task_def
      example_task_def tag_world_def example_task_tags_def)

text \<open>
  Claim C8.  In one run of the task-tag generator over tasks with pairwise different ids and
  tags with pairwise different ids, no pair (task_id, tag_id) occurs in two of the records
  that are returned.
\<close>

theorem task_tag_pairs_unique:
  assumes "task_tag_generate tasks tags w = Inr (task_tags, w')"
    and "distinct (map Task.task_id tasks)"
    and "distinct (map Tag.tag_id tags)"
  shows "distinct (map tag_pair task_tags)"
proof (cases "tags = []")
  case True
  with assms(1) show ?thesis by (simp add: task_tag_generate_def)
next
  case False
  with assms(1) have "task_tags = fst (tag_tasks tags tasks w)"
    by (auto simp: task_tag_generate_def Let_def case_prod_beta split: if_splits)
  with tag_tasks_pairs [OF assms(2,3), of w] show ?thesis by simp
qed

text \<open>The theorem at the task with keywords, which receives the tags \<open>Bug\<close> and \<open>High Priority\<close>.\<close>

theorem task_tag_pairs_unique_witness:
  "task_tag_generate [bug_task] example_tags tag_world
     = Inr (example_task_tags,
            \<lparr>entropy = [], uuids = [''a3''], clock = 8683200000000, ticks = []\<rparr>)
   \<and> distinct (map Task.task_id [bug_task])
   \<and> distinct (map Tag.tag_id example_tags)
   \<and> distinct (map tag_pair example_task_tags)"
proof -
  have d1: "distinct (map Task.task_id [bug_task])" by simp
  have d2: "distinct (map Tag.tag_id example_tags)" by (simp add: example_tags_def)
  from task_tag_pairs_unique [OF example_task_tag_run d1 d2] example_task_tag_run d2
  show ?thesis by simp
qed

section \<open>Team membership generator (generators/team_membership.py)\<close>

record TeamMembership =
  membership_id :: string
  team_id :: string
  user_id :: string
  role :: string
  joined_at :: datetime

text \<open>\<open>xs[:n]\<close>: a negative \<open>n\<close> counts from the end.\<close>
definition py_take :: "int \<Rightarrow> 'a list \<Rightarrow> 'a list" where
  "py_take n xs = (if 0 \<le> n then take (nat n) xs else take (length xs - nat (- n)) xs)"

text \<open>\<open>_sample_team_size\<close>, from the range \<open>avg_team_size_range\<close> of the benchmarks.\<close>
definition sample_team_size :: "rat \<times> rat \<Rightarrow> world \<Rightarrow> int \<times> world" where
  "sample_team_size avg_team_size_range w =
     triangular_int (fst avg_team_size_range) (snd avg_team_size_range) (85 / 10) w"

definition sample_joined_at :: "datetime \<Rightarrow> datetime \<Rightarrow> world \<Rightarrow> datetime \<times> world" where
  "sample_joined_at user_created_at team_created_at w =
     (let earliest = max user_created_at team_created_at;
          (now, w1) = utcnow w;
          earliest = (if earliest > now then now - days 1 else earliest);
          max_days_until_now = td_days (now - earliest);
          (days_delay, w2) = randint 0 (min 30 max_days_until_now) w1;
          joined = earliest + days days_delay;
          (hour, w3) = randint 8 17 w2;
          joined = replace_hm joined hour 0;
          joined = (if joined < earliest then earliest else joined);
          joined = (if joined > now then now else joined)
      in (joined, w3))"

text \<open>
  The lists and the dictionary that the loop over the teams reads and changes:
  \<open>users_by_dept\<close>, the caller's list \<open>users\<close>, and \<open>user_team_assignments\<close>.  The first
  two are part of the state because \<open>available_users\<close> is sorted in place and may be one of
  these very lists.
\<close>
record membership_state =
  by_dept :: "string option \<Rightarrow> User list"
  all_users :: "User list"
  assignments :: "string \<Rightarrow> string set"

definition initial_membership_state :: "User list \<Rightarrow> membership_state" where
  "initial_membership_state users =
     \<lparr>by_dept = (\<lambda>k. filter (\<lambda>u. department u = k) users), all_users = users,
      assignments = (\<lambda>uid. {})\<rparr>"

text \<open>\<open>matching_users\<close> of a team: the users of its department, or all users.\<close>
definition matching_users :: "Team \<Rightarrow> membership_state \<Rightarrow> User list" where
  "matching_users team st =
     (if by_dept st (Some (team_type team)) \<noteq> [] then by_dept st (Some (team_type team))
      else all_users st)"

text \<open>The loop \<open>for i, user in enumerate(selected_users)\<close>, from index \<open>i\<close> on.\<close>
fun add_members ::
  "Team \<Rightarrow> nat \<Rightarrow> User list \<Rightarrow> membership_state \<Rightarrow> world
   \<Rightarrow> TeamMembership list \<times> membership_state \<times> world" where
  "add_members team i [] st w = ([], st, w)"
| "add_members team i (u # rest) st w =
     (let r = (if i = 0 then ''admin'' else ''member'');
          (joined, w1) = sample_joined_at (User.created_at u) (Team.created_at team) w;
          (mid, w2) = uuid4 w1;
          membership = \<lparr>membership_id = mid, TeamMembership.team_id = Team.team_id team,
                       TeamMembership.user_id = User.user_id u, TeamMembership.role = r,
                       joined_at = joined\<rparr>;
          st1 = st\<lparr>assignments := (assignments st)
                  (User.user_id u := insert (Team.team_id team) (assignments st (User.user_id u)))\<rparr>;
          (others, st2, w3) = add_members team (Suc i) rest st1 w2
      in (membership # others, st2, w3))"

text \<open>One turn of the loop \<open>for team in teams\<close>.  When no matching user is on fewer than four
  teams, \<open>available_users\<close> is the list \<open>matching_users\<close> itself, and sorting it reorders
  the department's list, or the list of all users.\<close>
definition assign_team ::
  "rat \<times> rat \<Rightarrow> Team \<Rightarrow> membership_state \<Rightarrow> world
   \<Rightarrow> TeamMembership list \<times> membership_state \<times> world" where
  "assign_team avg_team_size_range team st w =
     (let (target_size, w1) = sample_team_size avg_team_size_range w;
          teams_of = (\<lambda>u. card (assignments st (User.user_id u)));
          filtered = filter (\<lambda>u. teams_of u < 4) (matching_users team st);
          available_users = sort_key teams_of (if filtered \<noteq> [] then filtered else matching_users team st);
          st1 = (if filtered \<noteq> [] then st
                 else if by_dept st (Some (team_type team)) \<noteq> []
                 then st\<lparr>by_dept := (by_dept st)(Some (team_type team) := available_users)\<rparr>
                 else st\<lparr>all_users := available_users\<rparr>);
          num_to_assign = min target_size (int (length available_users));
          selected_users = py_take num_to_assign available_users
      in add_members team 0 selected_users st1 w1)"

fun membership_loop ::
  "rat \<times> rat \<Rightarrow> Team list \<Rightarrow> membership_state \<Rightarrow> world
   \<Rightarrow> TeamMembership list \<times> membership_state \<times> world" where
  "membership_loop avg_team_size_range [] st w = ([], st, w)"
| "membership_loop avg_team_size_range (team # rest) st w =
     (let (mine, st1, w1) = assign_team avg_team_size_range team st w;
          (others, st2, w2) = membership_loop avg_team_size_range rest st1 w1
      in (mine @ others, st2, w2))"

text \<open>\<open>TeamMembershipGenerator.generate\<close>.  Besides the memberships, the result holds the
  caller's list of users as the run leaves it; the statistics that are printed at the end
  divide by \<open>len(users)\<close>.\<close>
definition membership_generate ::
  "rat \<times> rat \<Rightarrow> Team list \<Rightarrow> User list \<Rightarrow> world
   \<Rightarrow> error + (TeamMembership list \<times> User list \<times> world)" where
  "membership_generate avg_team_size_range teams users w =
     (let (memberships, st, w') =
            membership_loop avg_team_size_range teams (initial_membership_state users) w
      in if length users = 0 then Inl ZeroDivisionError
         else Inr (memberships, all_users st, w'))"

text \<open>The teams of a user according to a list of memberships.\<close>
definition teams_of_user :: "TeamMembership list \<Rightarrow> string \<Rightarrow> string set" where
  "teams_of_user ms uid = set (map TeamMembership.team_id (filter (\<lambda>m. TeamMembership.user_id m = uid) ms))"
section \<open>Properties of the team membership generator\<close>

lemma add_members_team_id:
  "m \<in> set (fst (add_members team i sel st w)) \<Longrightarrow> TeamMembership.team_id m = Team.team_id team"
  by (induction sel arbitrary: i st w) (auto simp: Let_def case_prod_beta)

lemma add_members_user_ids:
  "map TeamMembership.user_id (fst (add_members team i sel st w)) = map User.user_id sel"
  by (induction sel arbitrary: i st w) (simp_all add: Let_def case_prod_beta)

lemma add_members_roles_later:
  "0 < i \<Longrightarrow> map TeamMembership.role (fst (add_members team i sel st w)) = replicate (length sel) ''member''"
  by (induction sel arbitrary: i st w) (simp_all add: Let_def case_prod_beta)

lemma add_members_roles_first:
  "map TeamMembership.role (fst (add_members team 0 (u # sel) st w)) = ''admin'' # replicate (length sel) ''member''"
  by (simp add: Let_def case_prod_beta add_members_roles_later)

lemma add_members_lists:
  "by_dept (fst (snd (add_members team i sel st w))) = by_dept st
   \<and> all_users (fst (snd (add_members team i sel st w))) = all_users st"
  by (induction sel arbitrary: i st w) (simp_all add: Let_def case_prod_beta)

lemma add_members_assignments:
  "assignments (fst (snd (add_members team i sel st w))) uid
     = assignments st uid \<union> (if uid \<in> User.user_id ` set sel then {Team.team_id team} else {})"
  by (induction sel arbitrary: i st w) (auto simp: Let_def case_prod_beta)

lemma py_take_subset: "set (py_take n xs) \<subseteq> set xs"
  by (auto simp: py_take_def dest: in_set_takeD)

lemma teams_of_user_append:
  "teams_of_user (a @ b) uid = teams_of_user a uid \<union> teams_of_user b uid"
  by (simp add: teams_of_user_def)

lemma teams_of_user_block:
  assumes "\<forall>m \<in> set ms. TeamMembership.team_id m = tid"
  shows "teams_of_user ms uid = (if uid \<in> TeamMembership.user_id ` set ms then {tid} else {})"
  using assms by (auto simp: teams_of_user_def)

text \<open>What one team contributes, from any state: memberships of this team, an admin first,
  of matching users, who are on fewer than four teams whenever some matching user is; the
  lists of the state are at most reordered, and the assignments grow by the new records.\<close>
lemma assign_team_props:
  assumes "assign_team r team st w = (ms, st', w')"
  shows "(\<forall>m \<in> set ms. TeamMembership.team_id m = Team.team_id team)
       \<and> (ms \<noteq> [] \<longrightarrow> map TeamMembership.role ms = ''admin'' # replicate (length ms - 1) ''member'')
       \<and> (\<forall>m \<in> set ms. \<exists>u \<in> set (matching_users team st). TeamMembership.user_id m = User.user_id u)
       \<and> ((\<exists>v \<in> set (matching_users team st). card (assignments st (User.user_id v)) < 4)
            \<longrightarrow> (\<forall>m \<in> set ms. card (assignments st (TeamMembership.user_id m)) < 4))
       \<and> (\<forall>k. set (by_dept st' k) = set (by_dept st k))
       \<and> set (all_users st') = set (all_users st)
       \<and> (\<forall>uid. assignments st' uid = assignments st uid \<union> teams_of_user ms uid)"
proof -
  define w1 where "w1 = snd (sample_team_size r w)"
  define teams_of :: "User \<Rightarrow> nat" where "teams_of = (\<lambda>u. card (assignments st (User.user_id u)))"
  define filtered where "filtered = filter (\<lambda>u. teams_of u < 4) (matching_users team st)"
  define avail where
    "avail = sort_key teams_of (if filtered \<noteq> [] then filtered else matching_users team st)"
  define st1 where "st1 = (if filtered \<noteq> [] then st
                 else if by_dept st (Some (team_type team)) \<noteq> []
                 then st\<lparr>by_dept := (by_dept st)(Some (team_type team) := avail)\<rparr>
                 else st\<lparr>all_users := avail\<rparr>)"
  define sel where
    "sel = py_take (min (fst (sample_team_size r w)) (int (length avail))) avail"
  have "assign_team r team st w = add_members team 0 sel st1 w1"
    by (simp only: assign_team_def Let_def case_prod_beta w1_def teams_of_def filtered_def
        avail_def st1_def sel_def)
  with assms have res: "add_members team 0 sel st1 w1 = (ms, st', w')" by simp
  then have ms: "ms = fst (add_members team 0 sel st1 w1)"
    and st': "st' = fst (snd (add_members team 0 sel st1 w1))" by simp_all
  have sel_sub: "set sel \<subseteq> set avail" unfolding sel_def by (rule py_take_subset)
  have avail_sub: "set avail \<subseteq> set (matching_users team st)"
    by (auto simp: avail_def filtered_def)
  have asg1: "assignments st1 = assignments st" by (simp add: st1_def)
  have ids: "map TeamMembership.user_id ms = map User.user_id sel"
    unfolding ms by (rule add_members_user_ids)
  then have idset: "TeamMembership.user_id ` set ms = User.user_id ` set sel"
    by (metis set_map)
  have a: "\<forall>m \<in> set ms. TeamMembership.team_id m = Team.team_id team"
    unfolding ms using add_members_team_id by blast
  have b: "ms \<noteq> [] \<longrightarrow> map TeamMembership.role ms = ''admin'' # replicate (length ms - 1) ''member''"
  proof (cases sel)
    case Nil
    then show ?thesis by (simp add: ms)
  next
    case (Cons u rest)
    have "length ms = length sel" using ids by (metis length_map)
    with Cons add_members_roles_first [of team u rest st1 w1] show ?thesis by (simp add: ms)
  qed
  have c: "\<forall>m \<in> set ms. \<exists>u \<in> set (matching_users team st). TeamMembership.user_id m = User.user_id u"
  proof
    fix m assume "m \<in> set ms"
    then have "TeamMembership.user_id m \<in> User.user_id ` set sel" using idset by blast
    then obtain u where "u \<in> set sel" "TeamMembership.user_id m = User.user_id u" by blast
    with sel_sub avail_sub show "\<exists>u \<in> set (matching_users team st). TeamMembership.user_id m = User.user_id u"
      by blast
  qed
  have d: "\<forall>m \<in> set ms. card (assignments st (TeamMembership.user_id m)) < 4"
    if "\<exists>v \<in> set (matching_users team st). card (assignments st (User.user_id v)) < 4"
  proof
    from that have ne: "filtered \<noteq> []"
      by (auto simp: filtered_def teams_of_def filter_empty_conv)
    then have "set avail = set filtered" by (simp add: avail_def)
    then have low: "\<forall>u \<in> set avail. card (assignments st (User.user_id u)) < 4"
      by (auto simp: filtered_def teams_of_def)
    fix m assume "m \<in> set ms"
    then have "TeamMembership.user_id m \<in> User.user_id ` set sel" using idset by blast
    then obtain u where "u \<in> set sel" "TeamMembership.user_id m = User.user_id u" by blast
    with sel_sub low show "card (assignments st (TeamMembership.user_id m)) < 4" by auto
  qed
  have mset: "set avail = set (matching_users team st)" if "filtered = []"
    using that by (simp add: avail_def)
  have e: "\<forall>k. set (by_dept st' k) = set (by_dept st k)"
  proof
    fix k
    have "by_dept st' = by_dept st1" unfolding st' using add_members_lists by blast
    moreover have "set (by_dept st1 k) = set (by_dept st k)"
      using mset by (auto simp: st1_def matching_users_def)
    ultimately show "set (by_dept st' k) = set (by_dept st k)" by simp
  qed
  have f: "set (all_users st') = set (all_users st)"
  proof -
    have "all_users st' = all_users st1" unfolding st' using add_members_lists by blast
    moreover have "set (all_users st1) = set (all_users st)"
      using mset by (auto simp: st1_def matching_users_def)
    ultimately show ?thesis by simp
  qed
  have g: "\<forall>uid. assignments st' uid = assignments st uid \<union> teams_of_user ms uid"
  proof
    fix uid
    have "assignments st' uid
        = assignments st uid \<union> (if uid \<in> User.user_id ` set sel then {Team.team_id team} else {})"
      unfolding st' using add_members_assignments [of team 0 sel st1 w1 uid] asg1 by simp
    also have "\<dots> = assignments st uid \<union> teams_of_user ms uid"
      using teams_of_user_block [OF a, of uid] idset by simp
    finally show "assignments st' uid = assignments st uid \<union> teams_of_user ms uid" .
  qed
  from a b c d e f g show ?thesis by blast
qed

lemma membership_loop_append:
  "membership_loop r (xs @ ys) st w =
     (let (m1, st1, w1) = membership_loop r xs st w;
          (m2, st2, w2) = membership_loop r ys st1 w1
      in (m1 @ m2, st2, w2))"
  by (induction xs arbitrary: st w) (simp_all add: Let_def case_prod_beta)

text \<open>The state of the loop against the input and the records made so far.\<close>
definition membership_inv :: "User list \<Rightarrow> TeamMembership list \<Rightarrow> membership_state \<Rightarrow> bool" where
  "membership_inv users ms st \<longleftrightarrow>
     (\<forall>k. set (by_dept st k) = set (filter (\<lambda>u. department u = k) users))
   \<and> set (all_users st) = set users
   \<and> (\<forall>uid. assignments st uid = teams_of_user ms uid)"

lemma membership_inv_initial: "membership_inv users [] (initial_membership_state users)"
  by (simp add: membership_inv_def initial_membership_state_def teams_of_user_def)

lemma membership_loop_inv:
  assumes "membership_inv users ms0 st" and "membership_loop r teams st w = (ms, st', w')"
  shows "membership_inv users (ms0 @ ms) st'"
  using assms
proof (induction teams arbitrary: ms0 st w ms st' w')
  case Nil
  then show ?case by simp
next
  case (Cons team rest)
  obtain mine st1 w1 where at: "assign_team r team st w = (mine, st1, w1)"
    by (metis prod_cases3)
  obtain others st2 w2 where lp: "membership_loop r rest st1 w1 = (others, st2, w2)"
    by (metis prod_cases3)
  from Cons.prems(2) at lp have res: "ms = mine @ others" "st' = st2"
    by (simp_all add: Let_def)
  from assign_team_props [OF at] have p:
    "\<forall>k. set (by_dept st1 k) = set (by_dept st k)"
    "set (all_users st1) = set (all_users st)"
    "\<forall>uid. assignments st1 uid = assignments st uid \<union> teams_of_user mine uid"
    by blast+
  with Cons.prems(1) have "membership_inv users (ms0 @ mine) st1"
    by (simp add: membership_inv_def teams_of_user_append)
  from Cons.IH [OF this lp] res show ?case by simp
qed

text \<open>The users that match a team, in terms of the input.\<close>
definition team_candidates :: "User list \<Rightarrow> Team \<Rightarrow> User list" where
  "team_candidates users team =
     (if filter (\<lambda>u. department u = Some (team_type team)) users \<noteq> []
      then filter (\<lambda>u. department u = Some (team_type team)) users else users)"

lemma matching_users_candidates:
  assumes "membership_inv users ms st"
  shows "set (matching_users team st) = set (team_candidates users team)"
proof -
  from assms have k: "set (by_dept st (Some (team_type team)))
      = set (filter (\<lambda>u. department u = Some (team_type team)) users)"
    and a: "set (all_users st) = set users"
    by (simp_all add: membership_inv_def)
  from k have "by_dept st (Some (team_type team)) = []
      \<longleftrightarrow> filter (\<lambda>u. department u = Some (team_type team)) users = []"
    by (metis set_empty)
  with k a show ?thesis by (simp add: matching_users_def team_candidates_def)
qed

lemma membership_loop_team_ids:
  assumes "membership_loop r teams st w = (ms, st', w')"
  shows "\<forall>m \<in> set ms. TeamMembership.team_id m \<in> Team.team_id ` set teams"
  using assms
proof (induction teams arbitrary: st w ms st' w')
  case Nil
  then show ?case by simp
next
  case (Cons team rest)
  obtain mine st1 w1 where at: "assign_team r team st w = (mine, st1, w1)"
    by (metis prod_cases3)
  obtain others st2 w2 where lp: "membership_loop r rest st1 w1 = (others, st2, w2)"
    by (metis prod_cases3)
  from Cons.prems at lp have res: "ms = mine @ others"
    by (simp add: Let_def)
  from assign_team_props [OF at] have "\<forall>m \<in> set mine. TeamMembership.team_id m = Team.team_id team"
    by blast
  moreover from Cons.IH [OF lp]
  have "\<forall>m \<in> set others. TeamMembership.team_id m \<in> Team.team_id ` set rest" .
  ultimately show ?case unfolding res by auto
qed
lemmas membership_generator_defs = membership_generate_def assign_team_def sample_team_size_def
  triangular_int_def py_int_def matching_users_def initial_membership_state_def py_take_def
  sample_joined_at_def

text \<open>Five Engineering teams and the one engineer of the example organization.\<close>

definition team_n :: "string \<Rightarrow> Team" where
  "team_n i = example_team\<lparr>Team.team_id := i\<rparr>"

definition five_teams :: "Team list" where
  "five_teams = [team_n ''t1'', team_n ''t2'', team_n ''t3'', team_n ''t4'', team_n ''t5'']"

definition membership_world :: world where
  "membership_world = \<lparr>entropy = [], uuids = [''m1'', ''m2'', ''m3'', ''m4'', ''m5''],
     clock = 8683200000000, ticks = []\<rparr>"

definition admin_of :: "string \<Rightarrow> string \<Rightarrow> TeamMembership" where
  "admin_of mid tid = \<lparr>membership_id = mid, TeamMembership.team_id = tid,
     TeamMembership.user_id = ''u1'', TeamMembership.role = ''admin'', joined_at = 4352400000000\<rparr>"

definition five_memberships :: "TeamMembership list" where
  "five_memberships = [admin_of ''m1'' ''t1'', admin_of ''m2'' ''t2'', admin_of ''m3'' ''t3'',
     admin_of ''m4'' ''t4'', admin_of ''m5'' ''t5'']"

lemma five_teams_run:
  "membership_generate (6, 12) five_teams [example_user] membership_world
     = Inr (five_memberships, [example_user],
            \<lparr>entropy = [], uuids = [], clock = 8683200000000, ticks = []\<rparr>)"
  by (simp add: membership_generator_defs time_defs world_defs Let_def five_teams_def team_n_def
      example_team_def example_user_def membership_world_def five_memberships_def admin_of_def)

lemma three_teams_memberships:
  "fst (membership_loop (6, 12) [team_n ''t1'', team_n ''t2'', team_n ''t3'']
          (initial_membership_state [example_user]) membership_world)
     = [admin_of ''m1'' ''t1'', admin_of ''m2'' ''t2'', admin_of ''m3'' ''t3'']"
  by (simp add: membership_generator_defs time_defs world_defs Let_def team_n_def
      example_team_def example_user_def membership_world_def admin_of_def)

lemma fourth_team_block:
  "fst (assign_team (6, 12) (team_n ''t4'')
         (fst (snd (membership_loop (6, 12) [team_n ''t1'', team_n ''t2'', team_n ''t3'']
                      (initial_membership_state [example_user]) membership_world)))
         (snd (snd (membership_loop (6, 12) [team_n ''t1'', team_n ''t2'', team_n ''t3'']
                      (initial_membership_state [example_user]) membership_world))))
     = [admin_of ''m4'' ''t4'']"
  by (simp add: membership_generator_defs time_defs world_defs Let_def team_n_def
      example_team_def example_user_def membership_world_def admin_of_def)

text \<open>
  Claim C9, as stated, fails on the code: when every user that matches a team is already on
  four teams, the filter leaves nobody and the generator falls back on all matching users.
  The one engineer of five Engineering teams is assigned to all five.
\<close>

theorem user_on_five_teams:
  "membership_generate (6, 12) five_teams [example_user] membership_world
     = Inr (five_memberships, [example_user],
            \<lparr>entropy = [], uuids = [], clock = 8683200000000, ticks = []\<rparr>)
   \<and> map TeamMembership.user_id five_memberships = [''u1'', ''u1'', ''u1'', ''u1'', ''u1'']
   \<and> map TeamMembership.team_id five_memberships = [''t1'', ''t2'', ''t3'', ''t4'', ''t5'']
   \<and> card (teams_of_user five_memberships ''u1'') = 5"
  using five_teams_run
  by (simp add: five_memberships_def admin_of_def teams_of_user_def)

text \<open>
  Claim C9, amended.  In a run over the teams \<open>pre @ team # post\<close>, the memberships of
  \<open>team\<close> follow those of the teams before it, and where the team ids are pairwise
  different they are exactly the records of the run with the id of the team, in their order;
  they carry users that match the team (the users of the team's department, or all users when
  there is none); the first of them has role \<open>admin\<close> and every other one role
  \<open>member\<close>; and when some matching user belongs to fewer than four of the teams
  before, so does every user that is assigned.  A user on four teams is thus assigned again
  only when all matching users are on four or more teams, and the number of teams of a user
  is not bounded by 4.
\<close>

theorem membership_roles_and_cap:
  assumes "membership_generate r teams users w = Inr (ms, users', w')"
    and "teams = pre @ team # post"
  shows "let before = membership_loop r pre (initial_membership_state users) w;
             ms_pre = fst before;
             block = fst (assign_team r team (fst (snd before)) (snd (snd before)))
         in (\<exists>ms_post. ms = ms_pre @ block @ ms_post)
          \<and> (distinct (map Team.team_id teams)
                \<longrightarrow> block = filter (\<lambda>m. TeamMembership.team_id m = Team.team_id team) ms)
          \<and> (\<forall>m \<in> set block. TeamMembership.team_id m = Team.team_id team
                \<and> (\<exists>u \<in> set (team_candidates users team). TeamMembership.user_id m = User.user_id u))
          \<and> (block \<noteq> [] \<longrightarrow>
                map TeamMembership.role block = ''admin'' # replicate (length block - 1) ''member'')
          \<and> ((\<exists>v \<in> set (team_candidates users team). card (teams_of_user ms_pre (User.user_id v)) < 4)
                \<longrightarrow> (\<forall>m \<in> set block. card (teams_of_user ms_pre (TeamMembership.user_id m)) < 4))"
proof -
  define st0 where "st0 = initial_membership_state users"
  obtain ms_pre st w1 where pre: "membership_loop r pre st0 w = (ms_pre, st, w1)"
    by (metis prod_cases3)
  obtain block st1 w2 where blk: "assign_team r team st w1 = (block, st1, w2)"
    by (metis prod_cases3)
  obtain ms_post st2 w3 where post: "membership_loop r post st1 w2 = (ms_post, st2, w3)"
    by (metis prod_cases3)
  have "membership_loop r teams st0 w = (ms_pre @ block @ ms_post, st2, w3)"
    unfolding assms(2) using pre blk post by (simp add: membership_loop_append Let_def)
  with assms(1) have ms: "ms = ms_pre @ block @ ms_post"
    by (auto simp: membership_generate_def Let_def st0_def split: if_splits)
  have inv: "membership_inv users ms_pre st"
    using membership_loop_inv [OF membership_inv_initial pre [unfolded st0_def]] by simp
  then have asg: "assignments st uid = teams_of_user ms_pre uid" for uid
    by (simp add: membership_inv_def)
  note cand = matching_users_candidates [OF inv, of team]
  from assign_team_props [OF blk] have p:
    "\<forall>m \<in> set block. TeamMembership.team_id m = Team.team_id team"
    "block \<noteq> [] \<longrightarrow> map TeamMembership.role block = ''admin'' # replicate (length block - 1) ''member''"
    "\<forall>m \<in> set block. \<exists>u \<in> set (matching_users team st). TeamMembership.user_id m = User.user_id u"
    "(\<exists>v \<in> set (matching_users team st). card (assignments st (User.user_id v)) < 4)
            \<longrightarrow> (\<forall>m \<in> set block. card (assignments st (TeamMembership.user_id m)) < 4)"
    by blast+
  have a: "\<exists>ms_post. ms = ms_pre @ block @ ms_post" using ms by blast
  have f: "distinct (map Team.team_id teams)
      \<longrightarrow> block = filter (\<lambda>m. TeamMembership.team_id m = Team.team_id team) ms"
  proof
    assume "distinct (map Team.team_id teams)"
    then have n: "Team.team_id team \<notin> Team.team_id ` set pre"
      "Team.team_id team \<notin> Team.team_id ` set post"
      unfolding assms(2) by auto
    have "TeamMembership.team_id m \<noteq> Team.team_id team" if "m \<in> set ms_pre" for m
    proof -
      from membership_loop_team_ids [OF pre] that
      have "TeamMembership.team_id m \<in> Team.team_id ` set pre" by (rule bspec)
      with n(1) show ?thesis by metis
    qed
    then have "filter (\<lambda>m. TeamMembership.team_id m = Team.team_id team) ms_pre = []"
      by (simp add: filter_empty_conv)
    moreover have "TeamMembership.team_id m \<noteq> Team.team_id team" if "m \<in> set ms_post" for m
    proof -
      from membership_loop_team_ids [OF post] that
      have "TeamMembership.team_id m \<in> Team.team_id ` set post" by (rule bspec)
      with n(2) show ?thesis by metis
    qed
    then have "filter (\<lambda>m. TeamMembership.team_id m = Team.team_id team) ms_post = []"
      by (simp add: filter_empty_conv)
    moreover have "filter (\<lambda>m. TeamMembership.team_id m = Team.team_id team) block = block"
      using p(1) by (simp add: filter_id_conv)
    ultimately show "block = filter (\<lambda>m. TeamMembership.team_id m = Team.team_id team) ms"
      unfolding ms by simp
  qed
  have b: "\<forall>m \<in> set block. TeamMembership.team_id m = Team.team_id team
                \<and> (\<exists>u \<in> set (team_candidates users team). TeamMembership.user_id m = User.user_id u)"
    using p(1,3) cand by simp
  have c: "(\<exists>v \<in> set (team_candidates users team). card (teams_of_user ms_pre (User.user_id v)) < 4)
                \<longrightarrow> (\<forall>m \<in> set block. card (teams_of_user ms_pre (TeamMembership.user_id m)) < 4)"
    using p(4) cand by (simp add: asg)
  from a f b p(2) c show ?thesis
    unfolding Let_def pre [unfolded st0_def] blk fst_conv snd_conv
    by (intro conjI)
qed

text \<open>The theorem at the five teams, split at the fourth: the engineer is on three teams
  before it and becomes its admin.\<close>

theorem membership_roles_and_cap_witness:
  "membership_generate (6, 12) five_teams [example_user] membership_world
     = Inr (five_memberships, [example_user],
            \<lparr>entropy = [], uuids = [], clock = 8683200000000, ticks = []\<rparr>)
   \<and> five_teams = [team_n ''t1'', team_n ''t2'', team_n ''t3''] @ team_n ''t4'' # [team_n ''t5'']
   \<and> (\<exists>ms_post. five_memberships
         = [admin_of ''m1'' ''t1'', admin_of ''m2'' ''t2'', admin_of ''m3'' ''t3'']
           @ [admin_of ''m4'' ''t4''] @ ms_post)
   \<and> distinct (map Team.team_id five_teams)
   \<and> filter (\<lambda>m. TeamMembership.team_id m = Team.team_id (team_n ''t4'')) five_memberships
       = [admin_of ''m4'' ''t4'']
   \<and> map TeamMembership.role [admin_of ''m4'' ''t4''] = [''admin'']
   \<and> TeamMembership.team_id (admin_of ''m4'' ''t4'') = Team.team_id (team_n ''t4'')
   \<and> card (teams_of_user [admin_of ''m1'' ''t1'', admin_of ''m2'' ''t2'', admin_of ''m3'' ''t3'']
             (TeamMembership.user_id (admin_of ''m4'' ''t4''))) < 4"
proof -
  have split: "five_teams
      = [team_n ''t1'', team_n ''t2'', team_n ''t3''] @ team_n ''t4'' # [team_n ''t5'']"
    by (simp add: five_teams_def)
  have candidate: "\<exists>v \<in> set (team_candidates [example_user] (team_n ''t4'')).
      card (teams_of_user [admin_of ''m1'' ''t1'', admin_of ''m2'' ''t2'', admin_of ''m3'' ''t3'']
             (User.user_id v)) < 4"
    by (simp add: team_candidates_def team_n_def example_team_def example_user_def
        teams_of_user_def admin_of_def)
  have d: "distinct (map Team.team_id five_teams)"
    by (simp add: five_teams_def team_n_def)
  note inst = membership_roles_and_cap [OF five_teams_run split,
      unfolded Let_def three_teams_memberships fourth_team_block]
  from inst have e: "\<exists>ms_post. five_memberships
           = [admin_of ''m1'' ''t1'', admin_of ''m2'' ''t2'', admin_of ''m3'' ''t3'']
             @ [admin_of ''m4'' ''t4''] @ ms_post"
    by (rule conjunct1)
  from inst d have f: "[admin_of ''m4'' ''t4'']
      = filter (\<lambda>m. TeamMembership.team_id m = Team.team_id (team_n ''t4'')) five_memberships"
    by blast
  from inst have "[admin_of ''m4'' ''t4''] \<noteq> [] \<longrightarrow>
      map TeamMembership.role [admin_of ''m4'' ''t4'']
        = ''admin'' # replicate (length [admin_of ''m4'' ''t4''] - 1) ''member''"
    by blast
  then have r: "map TeamMembership.role [admin_of ''m4'' ''t4''] = [''admin'']"
    by simp
  from inst have "\<forall>m \<in> set [admin_of ''m4'' ''t4''].
      TeamMembership.team_id m = Team.team_id (team_n ''t4'')"
    by blast
  then have t: "TeamMembership.team_id (admin_of ''m4'' ''t4'') = Team.team_id (team_n ''t4'')"
    by simp
  from inst candidate have "\<forall>m \<in> set [admin_of ''m4'' ''t4''].
      card (teams_of_user [admin_of ''m1'' ''t1'', admin_of ''m2'' ''t2'', admin_of ''m3'' ''t3'']
             (TeamMembership.user_id m)) < 4"
    by blast
  then have c: "card (teams_of_user
      [admin_of ''m1'' ''t1'', admin_of ''m2'' ''t2'', admin_of ''m3'' ''t3'']
      (TeamMembership.user_id (admin_of ''m4'' ''t4''))) < 4"
    by simp
  from five_teams_run split e d f [symmetric] r t c show ?thesis
    by (intro conjI)
qed

end
